(* ===== verification/Relay_Prelude.thy ===== *)
theory Relay_Prelude
  imports Complex_Main "HOL-Library.Word" "HOL-Library.AList"
begin

text \<open>
  The prelude of the development: the machine integers and the time types of the relay, the
  concurrent hash maps (\<open>DashMap\<close>, \<open>HashMap\<close>) and hash sets as lists with the library's
  association-list operations, decimal printing and the string functions of Rust's standard
  library that the sources call, and the interfaces that several components share: a machine
  with an invariant, a generator of identifiers and a saturating counter.
\<close>

section \<open>Collections of facts\<close>

named_theorems inv_intros \<open>an operation keeps a well-formedness invariant\<close>
named_theorems frame_simps \<open>what an operation leaves alone\<close>

section \<open>Machine integers and time\<close>

type_synonym u64 = "64 word"
type_synonym instant = nat \<comment> \<open>nanoseconds of the monotonic clock\<close>
type_synonym duration = nat \<comment> \<open>nanoseconds\<close>

text \<open>The sending half of an \<open>mpsc\<close> channel is known by a number.\<close>

type_synonym chan = nat

text \<open>\<^verbatim>\<open>Duration::from_secs\<close> and \<^verbatim>\<open>Instant::saturating_duration_since\<close>.\<close>

definition from_secs :: "nat \<Rightarrow> duration" where
  "from_secs s = s * 1000000000"

definition saturating_duration_since :: "instant \<Rightarrow> instant \<Rightarrow> duration" where
  "saturating_duration_since later earlier = later - earlier"

definition as_secs_f64 :: "duration \<Rightarrow> real" where
  "as_secs_f64 d = real d / 1000000000"

text \<open>\<^verbatim>\<open>u64::saturating_sub\<close>, \<^verbatim>\<open>checked_add\<close> and \<^verbatim>\<open>saturating_mul\<close>.\<close>

definition saturating_sub_u64 :: "u64 \<Rightarrow> u64 \<Rightarrow> u64" where
  "saturating_sub_u64 a b = (if a < b then 0 else a - b)"

definition checked_add_u64 :: "u64 \<Rightarrow> u64 \<Rightarrow> u64 option" where
  "checked_add_u64 a b = (if unat a + unat b < 2 ^ 64 then Some (a + b) else None)"

definition saturating_mul_u64 :: "u64 \<Rightarrow> u64 \<Rightarrow> u64" where
  "saturating_mul_u64 a b = (if unat a * unat b < 2 ^ 64 then a * b else - 1)"

section \<open>Hash maps and hash sets\<close>

text \<open>
  A \<open>DashMap\<close> or \<open>HashMap\<close> is an association list with distinct keys: \<^const>\<open>map_of\<close> looks a
  key up, \<^const>\<open>AList.update\<close> stores, \<^const>\<open>AList.delete\<close> removes. The order of the list is
  one of the iteration orders the maps may show; no property below depends on it. A
  \<open>HashSet\<close> is a list without repetitions.
\<close>

type_synonym ('k, 'v) dashmap = "('k \<times> 'v) list"
type_synonym 'a hashset = "'a list"

definition dm_wf :: "('k, 'v) dashmap \<Rightarrow> bool" where
  "dm_wf m \<longleftrightarrow> distinct (map fst m)"

definition hs_remove :: "'a \<Rightarrow> 'a hashset \<Rightarrow> 'a hashset" where
  "hs_remove x xs = removeAll x xs"

section \<open>Strings\<close>

text \<open>
  A Rust \<open>String\<close> is its UTF-8 bytes: \<^const>\<open>length\<close> is \<open>len()\<close>. Decimal printing is what
  \<open>format!\<close> does with an unsigned integer.
\<close>

definition digit_char :: "nat \<Rightarrow> char" where
  "digit_char d = char_of (48 + d)"

fun dec_string :: "nat \<Rightarrow> string" where
  "dec_string n =
     (if n < 10 then [digit_char n] else dec_string (n div 10) @ [digit_char (n mod 10)])"

declare dec_string.simps [simp del]

text \<open>
  \<open>trim().is_empty()\<close> asks whether every character is white space. The white space of
  \<open>char::is_whitespace\<close> is ASCII (tab to carriage return, space) or one of a few two- and
  three-byte sequences; \<open>ws_len\<close> is the length of the white-space character a byte string
  starts with, and 0 when it starts with none.
\<close>

definition ascii_ws :: "char \<Rightarrow> bool" where
  "ascii_ws c \<longleftrightarrow> of_char c = (32::nat) \<or> (9 \<le> (of_char c :: nat) \<and> (of_char c :: nat) \<le> 13)"

fun ws_len :: "string \<Rightarrow> nat" where
  "ws_len [] = 0"
| "ws_len (a # s) =
     (if ascii_ws a then 1
      else case s of
        [] \<Rightarrow> 0
      | b # s' \<Rightarrow>
          (if of_char a = (194::nat) \<and> (of_char b = (133::nat) \<or> of_char b = (160::nat)) then 2
           else case s' of
             [] \<Rightarrow> 0
           | c # _ \<Rightarrow>
               (if (of_char a, of_char b, of_char c) = (225::nat, 154::nat, 128::nat)
                   \<or> ((of_char a, of_char b) = (226::nat, 128::nat)
                      \<and> ((128 \<le> (of_char c :: nat) \<and> (of_char c :: nat) \<le> 138)
                         \<or> of_char c = (168::nat) \<or> of_char c = (169::nat)
                         \<or> of_char c = (175::nat)))
                   \<or> (of_char a, of_char b, of_char c) = (226::nat, 129::nat, 159::nat)
                   \<or> (of_char a, of_char b, of_char c) = (227::nat, 128::nat, 128::nat)
                then 3 else 0)))"

declare ws_len.simps [simp del]

function trim_start :: "string \<Rightarrow> string" where
  "trim_start s = (if ws_len s = 0 \<or> s = [] then s else trim_start (drop (ws_len s) s))"
  by pat_completeness auto
termination
  by (relation "measure length") auto

declare trim_start.simps [simp del]

text \<open>\<open>s.trim().is_empty()\<close>: nothing is left once the leading white space is gone.\<close>

definition is_blank :: "string \<Rightarrow> bool" where
  "is_blank s \<longleftrightarrow> trim_start s = []"

text \<open>
  \<open>s.chars().take(n).collect()\<close>: the first \<open>n\<close> characters, a character being a leading byte
  with the continuation bytes (128 to 191) that follow it.
\<close>

definition continuation_byte :: "char \<Rightarrow> bool" where
  "continuation_byte c \<longleftrightarrow> 128 \<le> (of_char c :: nat) \<and> (of_char c :: nat) < 192"

fun take_chars :: "nat \<Rightarrow> string \<Rightarrow> string" where
  "take_chars n [] = []"
| "take_chars n (c # s) =
     (if continuation_byte c then c # take_chars n s
      else case n of 0 \<Rightarrow> [] | Suc m \<Rightarrow> c # take_chars m s)"

definition starts_with :: "string \<Rightarrow> string \<Rightarrow> bool" where
  "starts_with s p \<longleftrightarrow> take (length p) s = p"

text \<open>\<open>split_once\<close>, \<open>rsplit_once\<close> and the digits of an unsigned number.\<close>

fun split_once_str :: "string \<Rightarrow> string \<Rightarrow> (string \<times> string) option" where
  "split_once_str pat [] = (if pat = [] then Some ([], []) else None)"
| "split_once_str pat (c # s) =
     (if starts_with (c # s) pat then Some ([], drop (length pat) (c # s))
      else map_option (\<lambda>(a, b). (c # a, b)) (split_once_str pat s))"

definition before_first :: "char \<Rightarrow> string \<Rightarrow> string" where
  "before_first c s = takeWhile (\<lambda>x. x \<noteq> c) s"

definition after_last :: "char \<Rightarrow> string \<Rightarrow> string" where
  "after_last c s = rev (takeWhile (\<lambda>x. x \<noteq> c) (rev s))"

definition split_once_char :: "char \<Rightarrow> string \<Rightarrow> (string \<times> string) option" where
  "split_once_char c s =
     (if List.member s c then Some (before_first c s, tl (dropWhile (\<lambda>x. x \<noteq> c) s)) else None)"

definition rsplit_once_char :: "char \<Rightarrow> string \<Rightarrow> (string \<times> string) option" where
  "rsplit_once_char c s =
     (if List.member s c
      then Some (rev (tl (dropWhile (\<lambda>x. x \<noteq> c) (rev s))), after_last c s) else None)"

definition is_digit :: "char \<Rightarrow> bool" where
  "is_digit c \<longleftrightarrow> 48 \<le> (of_char c :: nat) \<and> (of_char c :: nat) \<le> 57"

definition parse_digits :: "string \<Rightarrow> nat option" where
  "parse_digits s =
     (if s = [] \<or> \<not> list_all is_digit s then None
      else Some (foldl (\<lambda>n c. n * 10 + (of_char c - 48)) 0 s))"

section \<open>Runs\<close>

text \<open>The identifiers that \<open>n\<close> successive calls of a generator return.\<close>

fun issued_ids :: "('s \<Rightarrow> string \<times> 's) \<Rightarrow> nat \<Rightarrow> 's \<Rightarrow> string list" where
  "issued_ids gen 0 s = []"
| "issued_ids gen (Suc n) s = (let (i, s') = gen s in i # issued_ids gen n s')"

section \<open>Facts about hash maps and hash sets\<close>

lemma dm_wf_Nil [simp, inv_intros]: "dm_wf []"
  by (simp add: dm_wf_def)

lemma dm_wf_update [simp, inv_intros]: "dm_wf m \<Longrightarrow> dm_wf (AList.update k v m)"
  by (simp add: dm_wf_def distinct_update)

lemma dm_wf_delete [simp, inv_intros]: "dm_wf m \<Longrightarrow> dm_wf (AList.delete k m)"
  by (simp add: dm_wf_def distinct_delete)

lemma map_of_dm_update [simp]: "map_of (AList.update k v m) = (map_of m)(k \<mapsto> v)"
  by (rule update_conv')

lemma map_of_dm_delete [simp]: "map_of (AList.delete k m) = (map_of m)(k := None)"
  by (rule delete_conv')

lemma dm_entry_iff: "dm_wf m \<Longrightarrow> (k, v) \<in> set m \<longleftrightarrow> map_of m k = Some v"
  by (simp add: dm_wf_def)

lemma set_hs_insert [simp]: "set (List.insert x xs) = insert x (set xs)"
  by simp

lemma set_hs_remove [simp]: "set (hs_remove x xs) = set xs - {x}"
  by (auto simp: hs_remove_def)

lemma distinct_hs_remove [simp]: "distinct xs \<Longrightarrow> distinct (hs_remove x xs)"
  by (simp add: hs_remove_def distinct_removeAll)

section \<open>Decimal printing is injective\<close>

lemma digit_char_inj: "a < 10 \<Longrightarrow> b < 10 \<Longrightarrow> digit_char a = digit_char b \<longleftrightarrow> a = b"
  by (simp add: digit_char_def char_of_eq_iff take_bit_eq_mod)

lemma digit_char_simps [simp]:
  "digit_char 0 = CHR ''0''" "digit_char (Suc 0) = CHR ''1''" "digit_char 2 = CHR ''2''"
  "digit_char 3 = CHR ''3''" "digit_char 4 = CHR ''4''" "digit_char 5 = CHR ''5''"
  "digit_char 6 = CHR ''6''" "digit_char 7 = CHR ''7''" "digit_char 8 = CHR ''8''"
  "digit_char 9 = CHR ''9''"
  by (simp_all add: digit_char_def char_of_def bit_0)

lemma dec_string_not_Nil [simp]: "dec_string n \<noteq> []"
  by (subst dec_string.simps) simp

lemma Nil_not_dec_string [simp]: "[] \<noteq> dec_string n"
  by (metis dec_string_not_Nil)

lemma dec_string_inj: "dec_string m = dec_string n \<Longrightarrow> m = n"
proof (induction m arbitrary: n rule: dec_string.induct)
  case (1 m)
  have m: "dec_string m = (if m < 10 then [digit_char m]
      else dec_string (m div 10) @ [digit_char (m mod 10)])"
    by (rule dec_string.simps)
  have n: "dec_string n = (if n < 10 then [digit_char n]
      else dec_string (n div 10) @ [digit_char (n mod 10)])"
    by (rule dec_string.simps)
  show ?case
  proof (cases "m < 10 \<or> n < 10")
    case True
    with "1.prems" m n show ?thesis
      by (auto simp: digit_char_inj split: if_splits)
  next
    case False
    with "1.prems" m n have "dec_string (m div 10) = dec_string (n div 10)"
      and d: "digit_char (m mod 10) = digit_char (n mod 10)"
      by auto
    with False "1.IH" have "m div 10 = n div 10" by auto
    moreover from d have "m mod 10 = n mod 10" by (simp add: digit_char_inj)
    ultimately show ?thesis by (metis div_mod_decomp)
  qed
qed

lemma dec_string_eq_iff [simp]: "dec_string m = dec_string n \<longleftrightarrow> m = n"
  by (auto dest: dec_string_inj)

section \<open>Facts about strings and saturation\<close>

lemma is_blank_Nil [simp]: "is_blank []"
  by (simp add: is_blank_def trim_start.simps)

lemma starts_with_refl [simp]: "starts_with s s"
  by (simp add: starts_with_def)

lemma starts_with_append [simp]: "starts_with (p @ s) p"
  by (simp add: starts_with_def)

lemma length_take_chars: "length (take_chars n s) \<le> length s"
  by (induction n s rule: take_chars.induct) (auto split: nat.splits)

lemma take_chars_prefix: "\<exists>r. s = take_chars n s @ r"
  by (induction n s rule: take_chars.induct) (auto split: nat.splits)

lemma unat_saturating_sub: "unat (saturating_sub_u64 a b) = unat a - unat b"
  by (auto simp: saturating_sub_u64_def word_less_nat_alt unat_sub word_le_nat_alt)

lemma unat_saturating_mul: "unat (saturating_mul_u64 a b) = min (unat a * unat b) (2 ^ 64 - 1)"
proof -
  have "unat (- 1 :: u64) = 2 ^ 64 - 1" by (simp add: unsigned_minus_1_eq_mask mask_eq_exp_minus_1)
  then show ?thesis by (auto simp: saturating_mul_u64_def unat_word_ariths)
qed

lemma unat_less_u64: "unat (a :: u64) < 2 ^ 64"
  using unsigned_less [of a] by simp

lemma unat_max_u64: "unat (max a b :: u64) = max (unat a) (unat b)"
  by (simp add: max_def word_le_nat_alt)

lemma unat_min_u64: "unat (min a b :: u64) = min (unat a) (unat b)"
  by (simp add: min_def word_le_nat_alt)

lemma unat_pow2_u64: "n < 64 \<Longrightarrow> unat (2 ^ n :: u64) = 2 ^ n"
proof -
  assume "n < 64"
  then have lt: "(2 :: nat) ^ n < 2 ^ 64" by (intro power_strict_increasing) auto
  have "unat (of_nat (2 ^ n) :: u64) = 2 ^ n mod 2 ^ 64"
    by (simp only: unat_of_nat) simp
  with lt show ?thesis by simp
qed

lemma checked_add_u64_Some: "checked_add_u64 a b = Some c \<Longrightarrow> unat c = unat a + unat b"
  by (auto simp: checked_add_u64_def unat_word_ariths split: if_splits)

lemma unat_inc_u64: "unat (a :: u64) < 2 ^ 64 - 1 \<Longrightarrow> unat (a + 1) = unat a + 1"
  by (simp add: unat_word_ariths)

lemma less_inc_u64: "unat (a :: u64) < 2 ^ 64 - 1 \<Longrightarrow> a < a + 1"
  by (simp add: word_less_nat_alt unat_inc_u64)

section \<open>Shared interfaces\<close>

text \<open>The results and the final state of a sequence of calls.\<close>

fun call_trace :: "('e \<Rightarrow> 's \<Rightarrow> 'r \<times> 's) \<Rightarrow> 'e list \<Rightarrow> 's \<Rightarrow> 'r list \<times> 's" where
  "call_trace step [] s = ([], s)"
| "call_trace step (e # es) s =
     (let (r, s1) = step e s; (rs, s2) = call_trace step es s1 in (r # rs, s2))"

text \<open>
  A component whose operations keep an invariant as long as a side condition holds of each
  call: the invariant then holds after every run whose calls meet the condition.
\<close>

locale invariant_machine =
  fixes step :: "'e \<Rightarrow> 's \<Rightarrow> 's"
    and allowed :: "'e \<Rightarrow> 's \<Rightarrow> bool"
    and invar :: "'s \<Rightarrow> bool"
  assumes step_invar: "invar s \<Longrightarrow> allowed e s \<Longrightarrow> invar (step e s)"
begin

fun run_allowed :: "'e list \<Rightarrow> 's \<Rightarrow> bool" where
  "run_allowed [] s = True"
| "run_allowed (e # es) s = (allowed e s \<and> run_allowed es (step e s))"

lemma run_invar: "invar s \<Longrightarrow> run_allowed es s \<Longrightarrow> invar (fold step es s)"
  by (induction es arbitrary: s) (auto intro: step_invar)

lemma run_invar_total: "invar s \<Longrightarrow> (\<And>e s. allowed e s) \<Longrightarrow> invar (fold step es s)"
  by (induction es arbitrary: s) (auto intro: step_invar)

end

text \<open>
  A component that implements an abstract one: each call returns what the abstract call returns
  and its effect is the abstract effect, as long as the invariant and the side condition hold.
  Then a client that only sees the results cannot tell them apart.
\<close>

locale data_refinement =
  invariant_machine "\<lambda>e c. snd (cstep e c)" allowed invar
  for cstep :: "'e \<Rightarrow> 'c \<Rightarrow> 'r \<times> 'c" and allowed :: "'e \<Rightarrow> 'c \<Rightarrow> bool" and invar :: "'c \<Rightarrow> bool" +
  fixes astep :: "'e \<Rightarrow> 'a \<Rightarrow> 'r \<times> 'a"
    and absf :: "'c \<Rightarrow> 'a"
  assumes simulates:
    "invar c \<Longrightarrow> allowed e c \<Longrightarrow> astep e (absf c) = (fst (cstep e c), absf (snd (cstep e c)))"
begin

lemma trace_refines:
  "invar c \<Longrightarrow> run_allowed es c \<Longrightarrow>
     call_trace astep es (absf c) = (fst (call_trace cstep es c), absf (snd (call_trace cstep es c)))"
  by (induction es arbitrary: c) (simp_all add: simulates step_invar case_prod_unfold Let_def)

end

text \<open>
  A generator that prints a 64-bit counter and advances it (\<open>fetch_add\<close>): identifiers do not
  repeat before the counter has gone all the way round.
\<close>

locale id_generator =
  fixes gen :: "'s \<Rightarrow> string \<times> 's"
    and counter :: "'s \<Rightarrow> u64"
    and print_id :: "u64 \<Rightarrow> string"
  assumes gen_id: "fst (gen s) = print_id (counter s)"
    and gen_counter: "counter (snd (gen s)) = counter s + 1"
    and print_inj: "print_id a = print_id b \<Longrightarrow> a = b"
begin

lemma issued_ids_eq:
  "issued_ids gen n s = map (\<lambda>i. print_id (counter s + of_nat i)) [0..<n]"
proof (induction n arbitrary: s)
  case 0
  then show ?case by simp
next
  case (Suc n)
  have "map (\<lambda>i. print_id (counter s + 1 + of_nat i)) [0..<n]
      = map (\<lambda>i. print_id (counter s + of_nat i)) [Suc 0..<Suc n]"
    by (rule nth_equalityI) (auto simp: add.assoc simp del: upt_Suc)
  then show ?case
    using Suc [of "snd (gen s)"]
    by (simp add: case_prod_unfold gen_id gen_counter upt_conv_Cons del: upt_Suc)
qed

lemma issued_ids_distinct: "n \<le> 2 ^ 64 \<Longrightarrow> distinct (issued_ids gen n s)"
proof -
  assume n: "n \<le> 2 ^ 64"
  have "inj_on (\<lambda>i. print_id (counter s + of_nat i)) {0..<n}"
  proof (rule inj_onI)
    fix i j
    assume ij: "i \<in> {0..<n}" "j \<in> {0..<n}"
      and eq: "print_id (counter s + of_nat i) = print_id (counter s + of_nat j)"
    from print_inj [OF eq] have "(of_nat i :: u64) = of_nat j" by simp
    then have "unat (of_nat i :: u64) = unat (of_nat j :: u64)" by simp
    with ij n show "i = j" by (simp add: unat_of_nat)
  qed
  then show ?thesis by (simp add: issued_ids_eq distinct_map)
qed

end

text \<open>
  A counter that goes up by \<open>fetch_add\<close> and down by \<open>saturating_sub\<close>: it never wraps
  below zero, and an increment followed by a decrement is no change unless it wrapped above.
\<close>

locale gauge_counter =
  fixes inc :: "'s \<Rightarrow> 's" and dec :: "'s \<Rightarrow> 's" and reading :: "'s \<Rightarrow> u64"
  assumes reading_inc: "reading (inc s) = reading s + 1"
    and reading_dec: "reading (dec s) = saturating_sub_u64 (reading s) 1"
begin

lemma dec_no_underflow: "unat (reading (dec s)) = unat (reading s) - 1"
  by (simp add: reading_dec unat_saturating_sub)

lemma decs_no_underflow: "unat (reading ((dec ^^ n) s)) = unat (reading s) - n"
  by (induction n) (simp_all add: dec_no_underflow)

lemma inc_exact: "unat (reading s) < 2 ^ 64 - 1 \<Longrightarrow> unat (reading (inc s)) = unat (reading s) + 1"
  by (simp add: reading_inc unat_inc_u64)

lemma incs_exact:
  "unat (reading s) + n < 2 ^ 64 \<Longrightarrow> unat (reading ((inc ^^ n) s)) = unat (reading s) + n"
  by (induction n) (simp_all add: reading_inc unat_word_ariths)

lemma inc_dec: "unat (reading s) < 2 ^ 64 - 1 \<Longrightarrow> reading (dec (inc s)) = reading s"
  by (rule word_unat_eq_iff [THEN iffD2]) (simp add: dec_no_underflow inc_exact)

end

end
