(* ===== verification/Relay_Proto.thy ===== *)
theory Relay_Proto
  imports Relay_Prelude
begin

text \<open>
  The messages of \<^verbatim>\<open>relay.proto\<close> that the relay and its two SDKs exchange, with the
  conversions between \<open>ErrorCode\<close> or \<open>TokenTargetType\<close> and the \<open>i32\<close> that the generated
  messages carry, and the small constructors of responses and relay messages in
  \<^verbatim>\<open>state.rs\<close>, \<^verbatim>\<open>session.rs\<close> and \<^verbatim>\<open>grpc_service.rs\<close>.
\<close>

type_synonym bytes = "8 word list"
type_synonym metadata = "(string, string) dashmap"

datatype error_code =
    OK | DEVICE_OFFLINE | UNAUTHORIZED | DEVICE_NOT_FOUND | RATE_LIMITED | INTERNAL_ERROR

fun error_code_i32 :: "error_code \<Rightarrow> int" where
  "error_code_i32 OK = 0"
| "error_code_i32 DEVICE_OFFLINE = 1"
| "error_code_i32 UNAUTHORIZED = 2"
| "error_code_i32 DEVICE_NOT_FOUND = 3"
| "error_code_i32 RATE_LIMITED = 4"
| "error_code_i32 INTERNAL_ERROR = 5"

definition error_code_try_from :: "int \<Rightarrow> error_code option" where
  "error_code_try_from i =
     (if i = 0 then Some OK else if i = 1 then Some DEVICE_OFFLINE
      else if i = 2 then Some UNAUTHORIZED else if i = 3 then Some DEVICE_NOT_FOUND
      else if i = 4 then Some RATE_LIMITED else if i = 5 then Some INTERNAL_ERROR
      else None)"

datatype token_target_type = TOKEN_TARGET_TYPE_UNSPECIFIED | CONTROLLER | DEVICE

definition token_target_type_try_from :: "int \<Rightarrow> token_target_type option" where
  "token_target_type_try_from i =
     (if i = 0 then Some TOKEN_TARGET_TYPE_UNSPECIFIED else if i = 1 then Some CONTROLLER
      else if i = 2 then Some DEVICE else None)"

record register_request =
  rr_device_id :: string
  rr_metadata :: metadata
  rr_previous_connection_id :: string

record heartbeat_request =
  hb_connection_id :: string
  hb_timestamp :: int

record data_response =
  dresp_connection_id :: string
  dresp_sequence_number :: int
  dresp_encrypted_payload :: bytes
  dresp_error :: int

datatype device_payload =
    Register register_request | Heartbeat heartbeat_request | Data data_response

record device_message =
  dmsg_device_id :: string
  dmsg_token :: string
  dmsg_payload :: "device_payload option"

record register_response =
  rresp_connection_id :: string
  rresp_session_resumed :: bool
  rresp_timestamp :: int

record data_request =
  dreq_connection_id :: string
  dreq_sequence_number :: int
  dreq_encrypted_payload :: bytes

datatype relay_payload =
    RegisterResponse register_response | HeartbeatResponse int | DataRequest data_request

record relay_message =
  rmsg_payload :: "relay_payload option"

record controller_message =
  cmsg_controller_id :: string
  cmsg_token :: string
  cmsg_target_device_id :: string
  cmsg_method_name :: string
  cmsg_sequence_number :: int
  cmsg_encrypted_payload :: bytes

record device_response =
  dr_device_id :: string
  dr_sequence_number :: int
  dr_encrypted_payload :: bytes
  dr_error :: int

record list_online_devices_request =
  lod_controller_id :: string
  lod_token :: string
  lod_region_filter :: string

record device_info =
  di_device_id :: string
  di_connection_id :: string
  di_relay_address :: string
  di_connected_at :: int
  di_metadata :: metadata

record revoke_token_request =
  rt_controller_id :: string
  rt_admin_token :: string
  rt_target_type :: int
  rt_target_token_hash_or_prefix :: string
  rt_reason :: string

section \<open>Constructors of responses and relay messages\<close>

definition device_response_from_device_data ::
  "string \<Rightarrow> int \<Rightarrow> bytes \<Rightarrow> int \<Rightarrow> device_response" where
  "device_response_from_device_data device_id seq encrypted_payload error =
     \<lparr>dr_device_id = device_id, dr_sequence_number = seq,
      dr_encrypted_payload = encrypted_payload, dr_error = error\<rparr>"

definition make_error_response :: "string \<Rightarrow> int \<Rightarrow> error_code \<Rightarrow> device_response" where
  "make_error_response device_id seq err =
     \<lparr>dr_device_id = device_id, dr_sequence_number = seq, dr_encrypted_payload = [],
      dr_error = error_code_i32 err\<rparr>"

definition device_offline_response :: "string \<Rightarrow> int \<Rightarrow> device_response" where
  "device_offline_response device_id seq =
     \<lparr>dr_device_id = device_id, dr_sequence_number = seq, dr_encrypted_payload = [],
      dr_error = error_code_i32 DEVICE_OFFLINE\<rparr>"

definition error_resp :: "string \<Rightarrow> int \<Rightarrow> error_code \<Rightarrow> device_response" where
  "error_resp device_id seq err =
     \<lparr>dr_device_id = device_id, dr_sequence_number = seq, dr_encrypted_payload = [],
      dr_error = error_code_i32 err\<rparr>"

definition relay_message_data_request :: "string \<Rightarrow> int \<Rightarrow> bytes \<Rightarrow> relay_message" where
  "relay_message_data_request connection_id sequence_number encrypted_payload =
     \<lparr>rmsg_payload = Some (DataRequest
        \<lparr>dreq_connection_id = connection_id, dreq_sequence_number = sequence_number,
         dreq_encrypted_payload = encrypted_payload\<rparr>)\<rparr>"

definition relay_message_register_response :: "string \<Rightarrow> bool \<Rightarrow> relay_message" where
  "relay_message_register_response connection_id session_resumed =
     \<lparr>rmsg_payload = Some (RegisterResponse
        \<lparr>rresp_connection_id = connection_id, rresp_session_resumed = session_resumed,
         rresp_timestamp = 0\<rparr>)\<rparr>"

definition relay_message_heartbeat_response :: relay_message where
  "relay_message_heartbeat_response = \<lparr>rmsg_payload = Some (HeartbeatResponse 0)\<rparr>"

section \<open>Facts\<close>

lemma error_code_roundtrip [simp]: "error_code_try_from (error_code_i32 e) = Some e"
  by (cases e) (simp_all add: error_code_try_from_def)

lemma error_code_i32_inj [simp]: "error_code_i32 a = error_code_i32 b \<longleftrightarrow> a = b"
  by (metis error_code_roundtrip option.inject)

lemma error_code_try_from_Some:
  "error_code_try_from i = Some e \<Longrightarrow> i = error_code_i32 e"
  by (auto simp: error_code_try_from_def split: if_splits)

lemma error_responses_agree:
  "make_error_response d s e = error_resp d s e"
  "device_offline_response d s = error_resp d s DEVICE_OFFLINE"
  by (simp_all add: make_error_response_def error_resp_def device_offline_response_def)

end
