(* ===== verification/Validator.thy ===== *)
theory Validator
  imports Relay_Proto
begin

text \<open>
  \<^verbatim>\<open>crates/relay/src/validator.rs\<close>: the checks on a controller message, each with its error
  code and message, in the order \<open>validate_controller_message\<close> applies them.
\<close>

definition MAX_PAYLOAD_BYTES :: nat where
  "MAX_PAYLOAD_BYTES = 10 * 1024 * 1024"

definition MAX_ID_LENGTH :: nat where
  "MAX_ID_LENGTH = 64"

record validation_error =
  ve_code :: error_code
  ve_message :: string

definition validate_controller_id :: "string \<Rightarrow> validation_error + unit" where
  "validate_controller_id i =
     (if is_blank i then
        Inl \<lparr>ve_code = UNAUTHORIZED, ve_message = ''controller_id must not be empty''\<rparr>
      else if length i > MAX_ID_LENGTH then
        Inl \<lparr>ve_code = UNAUTHORIZED,
             ve_message = ''controller_id too long (max '' @ dec_string MAX_ID_LENGTH @ '' chars)''\<rparr>
      else Inr ())"

definition validate_device_id :: "string \<Rightarrow> validation_error + unit" where
  "validate_device_id i =
     (if is_blank i then
        Inl \<lparr>ve_code = DEVICE_NOT_FOUND, ve_message = ''target_device_id must not be empty''\<rparr>
      else if length i > MAX_ID_LENGTH then
        Inl \<lparr>ve_code = DEVICE_NOT_FOUND,
             ve_message = ''target_device_id too long (max '' @ dec_string MAX_ID_LENGTH @ '' chars)''\<rparr>
      else Inr ())"

definition is_ascii_alphanumeric :: "char \<Rightarrow> bool" where
  "is_ascii_alphanumeric c \<longleftrightarrow>
     (let n = (of_char c :: nat) in (48 \<le> n \<and> n \<le> 57) \<or> (65 \<le> n \<and> n \<le> 90) \<or> (97 \<le> n \<and> n \<le> 122))"

definition method_char_allowed :: "char \<Rightarrow> bool" where
  "method_char_allowed c \<longleftrightarrow>
     is_ascii_alphanumeric c \<or> c = CHR ''_'' \<or> c = CHR ''.'' \<or> c = CHR ''/''"

definition validate_method_name :: "string \<Rightarrow> validation_error + unit" where
  "validate_method_name m =
     (if is_blank m then
        Inl \<lparr>ve_code = INTERNAL_ERROR, ve_message = ''method_name must not be empty''\<rparr>
      else if \<not> list_all method_char_allowed m then
        Inl \<lparr>ve_code = INTERNAL_ERROR, ve_message = ''method_name contains invalid characters''\<rparr>
      else Inr ())"

definition validate_payload_size :: "nat \<Rightarrow> validation_error + unit" where
  "validate_payload_size sz =
     (if sz > MAX_PAYLOAD_BYTES then
        Inl \<lparr>ve_code = INTERNAL_ERROR,
             ve_message = ''payload exceeds maximum size of '' @ dec_string MAX_PAYLOAD_BYTES @ '' bytes''\<rparr>
      else Inr ())"

definition validate_sequence_number :: "int \<Rightarrow> validation_error + unit" where
  "validate_sequence_number seq =
     (if seq \<le> 0 then
        Inl \<lparr>ve_code = INTERNAL_ERROR, ve_message = ''sequence_number must be positive''\<rparr>
      else Inr ())"

definition validate_controller_message ::
  "string \<Rightarrow> string \<Rightarrow> string \<Rightarrow> bytes \<Rightarrow> int \<Rightarrow> validation_error + unit" where
  "validate_controller_message controller_id target_device_id method_name encrypted_payload
       sequence_number =
     (case validate_controller_id controller_id of Inl e \<Rightarrow> Inl e | Inr _ \<Rightarrow>
      case validate_device_id target_device_id of Inl e \<Rightarrow> Inl e | Inr _ \<Rightarrow>
      case validate_method_name method_name of Inl e \<Rightarrow> Inl e | Inr _ \<Rightarrow>
      case validate_payload_size (length encrypted_payload) of Inl e \<Rightarrow> Inl e | Inr _ \<Rightarrow>
      case validate_sequence_number sequence_number of Inl e \<Rightarrow> Inl e | Inr _ \<Rightarrow> Inr ())"

text \<open>The message the validator accepts, said without reference to the checks.\<close>

definition well_formed_request :: "string \<Rightarrow> string \<Rightarrow> string \<Rightarrow> bytes \<Rightarrow> int \<Rightarrow> bool" where
  "well_formed_request controller_id device_id method_name payload seq \<longleftrightarrow>
     \<not> is_blank controller_id \<and> length controller_id \<le> 64 \<and>
     \<not> is_blank device_id \<and> length device_id \<le> 64 \<and>
     \<not> is_blank method_name \<and> list_all method_char_allowed method_name \<and>
     length payload \<le> 10485760 \<and> 0 < seq"

lemmas validator_defs =
  validate_controller_id_def validate_device_id_def validate_method_name_def
  validate_payload_size_def validate_sequence_number_def MAX_PAYLOAD_BYTES_def MAX_ID_LENGTH_def

lemma validate_ok_iff:
  "validate_controller_message c d m p s = Inr u \<longleftrightarrow> well_formed_request c d m p s"
  by (auto simp: validate_controller_message_def well_formed_request_def validator_defs
      split: sum.splits if_splits)

lemma validate_error_code:
  "validate_controller_message c d m p s = Inl e \<Longrightarrow>
     ve_code e = (if is_blank c \<or> 64 < length c then UNAUTHORIZED
                  else if is_blank d \<or> 64 < length d then DEVICE_NOT_FOUND
                  else INTERNAL_ERROR)"
  by (auto simp: validate_controller_message_def validator_defs split: sum.splits if_splits)

section \<open>Properties\<close>

text \<open>
  C29. The validator accepts exactly the well-formed requests, and blames the controller id, then
  the device id, then the rest: the error code names the first field that is wrong.
\<close>

theorem validator_correct:
  "case validate_controller_message c d m p s of
     Inr _ \<Rightarrow> well_formed_request c d m p s
   | Inl e \<Rightarrow> \<not> well_formed_request c d m p s \<and>
       ve_code e = (if is_blank c \<or> 64 < length c then UNAUTHORIZED
                    else if is_blank d \<or> 64 < length d then DEVICE_NOT_FOUND
                    else INTERNAL_ERROR)"
proof (cases "validate_controller_message c d m p s")
  case (Inl e)
  then have "\<not> well_formed_request c d m p s" using validate_ok_iff [of c d m p s] by force
  with Inl validate_error_code [OF Inl] show ?thesis by simp
next
  case (Inr u)
  then show ?thesis using validate_ok_iff [of c d m p s u] by simp
qed

end
