(* ===== verification/Relay_Config.thy ===== *)
theory Relay_Config
  imports Relay_Prelude
begin

text \<open>
  \<^verbatim>\<open>crates/relay/src/config.rs\<close>: the configuration records with the values of their
  \<open>Default\<close> implementations, the environment overrides, validation, and \<open>AppConfig::load\<close>
  over two parameters for what it calls outside the repository (reading the file and the
  deserialisation of the \<open>config\<close> crate). \<open>AppError\<close> of \<^verbatim>\<open>error.rs\<close> is here too.
\<close>

section \<open>Errors\<close>

datatype app_error =
    Config string
  | Io string string
  | InvalidTlsConfig string
  | InvalidSocketAddress string string
  | HealthBind string string
  | HealthServer string
  | ShutdownSignal string
  | HealthTask string
  | AuditInit string
  | AuditWrite string
  | GrpcServer string
  | GrpcTask string
  | StreamRouterError string
  | Validation string
  | RateLimitedError string string
  | MaxStreamsExceededError string nat

section \<open>Configuration records\<close>

record stream_config =
  idle_timeout_seconds :: nat
  max_active_streams :: nat
  max_concurrent_streams_per_controller :: nat

record rate_limit_config =
  device_requests_per_second :: nat
  controller_requests_per_minute :: nat
  global_requests_per_second :: nat
  device_connection_per_minute :: nat
  global_connections_per_second :: nat
  device_bandwidth_bytes_per_sec :: u64
  controller_bandwidth_bytes_per_sec :: u64
  global_bandwidth_bytes_per_sec :: u64
  cpu_threshold_percent :: real
  memory_threshold_mb :: u64

record idempotency_config =
  cache_capacity :: nat
  cache_ttl_seconds :: nat

record jwt_config =
  jwt_enabled :: bool
  hs256_secret :: string
  issuer :: "string option"
  audience :: "string option"
  clock_skew_seconds :: nat

record controller_auth_entry =
  cae_controller_id :: string
  cae_role :: string
  cae_allowed_project_ids :: "string list"

record device_auth_entry =
  dae_device_id :: string
  dae_project_id :: string

record auth_config =
  auth_enabled :: bool
  controller_tokens :: "(string, controller_auth_entry) dashmap"
  device_tokens :: "(string, device_auth_entry) dashmap"
  method_whitelist :: "string list"
  jwt :: jwt_config

record mqtt_config =
  mqtt_enabled :: bool
  broker_address :: string
  client_id :: "string option"
  username :: "string option"
  password :: "string option"
  telemetry_interval_seconds :: nat
  reconnect_initial_seconds :: u64
  reconnect_max_seconds :: u64

record tls_config =
  tls_enabled :: bool
  cert_path :: "string option"
  key_path :: "string option"
  client_ca_path :: "string option"

record relay_config =
  relay_id :: string
  relay_address :: string
  quic_address :: string
  max_device_connections :: nat
  heartbeat_interval_seconds :: nat
  heartbeat_timeout_seconds :: nat
  stream :: stream_config
  rate_limiting :: rate_limit_config
  idempotency :: idempotency_config
  auth :: auth_config
  mqtt :: mqtt_config
  tls :: tls_config

record logging_config =
  log_level :: string
  log_format :: string

record tracing_config =
  tracing_enabled :: bool
  sampling_rate :: real
  exporter :: string
  otlp_endpoint :: "string option"
  service_name :: string

record health_config =
  health_enabled :: bool
  health_address :: string
  health_path :: string

datatype alerting_severity = Warning | Critical

fun alerting_severity_as_str :: "alerting_severity \<Rightarrow> string" where
  "alerting_severity_as_str Warning = ''warning''"
| "alerting_severity_as_str Critical = ''critical''"

record alert_channel_config =
  channel_type :: string
  webhook_url_file :: "string option"
  smtp_server :: "string option"
  channel_from :: "string option"
  channel_to :: "string option"
  channel_severity :: "string option"

record alert_rule_config =
  rule_name :: string
  rule_condition :: string
  rule_severity :: alerting_severity
  rule_message :: string
  rule_duration_seconds :: "nat option"

record alert_suppression_config =
  min_interval_seconds :: nat
  maintenance_windows :: "string list"

record alerting_config =
  alerting_enabled :: bool
  evaluation_interval_seconds :: nat
  channels :: "alert_channel_config list"
  rules :: "alert_rule_config list"
  suppression :: alert_suppression_config

record audit_config =
  audit_enabled :: bool
  audit_output :: string
  audit_file_path :: string
  max_size_mb :: nat
  max_backups :: nat
  retention_days :: nat
  audit_events :: "string list"

record observability_config =
  logging :: logging_config
  health :: health_config
  audit :: audit_config
  tracing :: tracing_config
  alerting :: alerting_config

record app_config =
  relay :: relay_config
  observability :: observability_config

section \<open>Default values\<close>

definition default_stream_config :: stream_config where
  "default_stream_config =
     \<lparr>idle_timeout_seconds = 300, max_active_streams = 10,
      max_concurrent_streams_per_controller = 100\<rparr>"

definition default_rate_limit_config :: rate_limit_config where
  "default_rate_limit_config =
     \<lparr>device_requests_per_second = 1000, controller_requests_per_minute = 1000,
      global_requests_per_second = 100000, device_connection_per_minute = 10,
      global_connections_per_second = 100,
      device_bandwidth_bytes_per_sec = 10 * 1024 * 1024,
      controller_bandwidth_bytes_per_sec = 100 * 1024 * 1024,
      global_bandwidth_bytes_per_sec = 100 * 1024 * 1024,
      cpu_threshold_percent = 80, memory_threshold_mb = 12 * 1024\<rparr>"

definition default_idempotency_config :: idempotency_config where
  "default_idempotency_config = \<lparr>cache_capacity = 10000, cache_ttl_seconds = 3600\<rparr>"

definition default_jwt_config :: jwt_config where
  "default_jwt_config =
     \<lparr>jwt_enabled = False, hs256_secret = [], issuer = None, audience = None,
      clock_skew_seconds = 30\<rparr>"

definition default_auth_config :: auth_config where
  "default_auth_config =
     \<lparr>auth_enabled = False, controller_tokens = [], device_tokens = [], method_whitelist = [],
      jwt = default_jwt_config\<rparr>"

definition default_mqtt_config :: mqtt_config where
  "default_mqtt_config =
     \<lparr>mqtt_enabled = False, broker_address = ''localhost:1883'', client_id = None,
      username = None, password = None, telemetry_interval_seconds = 30,
      reconnect_initial_seconds = 1, reconnect_max_seconds = 30\<rparr>"

definition default_tls_config :: tls_config where
  "default_tls_config =
     \<lparr>tls_enabled = False, cert_path = None, key_path = None, client_ca_path = None\<rparr>"

definition default_logging_config :: logging_config where
  "default_logging_config = \<lparr>log_level = ''info'', log_format = ''json''\<rparr>"

definition default_tracing_config :: tracing_config where
  "default_tracing_config =
     \<lparr>tracing_enabled = False, sampling_rate = 1 / 10, exporter = ''otlp'',
      otlp_endpoint = None, service_name = ''grpc-relay''\<rparr>"

definition default_health_config :: health_config where
  "default_health_config =
     \<lparr>health_enabled = True, health_address = ''0.0.0.0:8080'', health_path = ''/health''\<rparr>"

definition default_alert_rules :: "alert_rule_config list" where
  "default_alert_rules =
     [\<lparr>rule_name = ''high_cpu_usage'', rule_condition = ''cpu_usage_percent > 80'',
       rule_severity = Warning, rule_message = ''CPU usage exceeded 80%'',
       rule_duration_seconds = None\<rparr>,
      \<lparr>rule_name = ''high_memory_usage'', rule_condition = ''memory_usage_percent > 85'',
       rule_severity = Warning, rule_message = ''Memory usage exceeded 85%'',
       rule_duration_seconds = None\<rparr>,
      \<lparr>rule_name = ''mqtt_disconnected'', rule_condition = ''mqtt_connected == false'',
       rule_severity = Critical, rule_message = ''MQTT disconnected'',
       rule_duration_seconds = Some 60\<rparr>,
      \<lparr>rule_name = ''high_active_connections'',
       rule_condition = ''active_device_connections > 9000'',
       rule_severity = Warning, rule_message = ''Active device connections exceeded 9000'',
       rule_duration_seconds = None\<rparr>]"

definition default_alert_suppression_config :: alert_suppression_config where
  "default_alert_suppression_config = \<lparr>min_interval_seconds = 300, maintenance_windows = []\<rparr>"

definition default_alerting_config :: alerting_config where
  "default_alerting_config =
     \<lparr>alerting_enabled = False, evaluation_interval_seconds = 30, channels = [],
      rules = default_alert_rules, suppression = default_alert_suppression_config\<rparr>"

definition default_audit_config :: audit_config where
  "default_audit_config =
     \<lparr>audit_enabled = True, audit_output = ''stdout'',
      audit_file_path = ''/var/log/relay/audit.log'', max_size_mb = 100, max_backups = 10,
      retention_days = 30, audit_events = []\<rparr>"

definition default_observability_config :: observability_config where
  "default_observability_config =
     \<lparr>logging = default_logging_config, health = default_health_config,
      audit = default_audit_config, tracing = default_tracing_config,
      alerting = default_alerting_config\<rparr>"

section \<open>Loading and validation\<close>

definition apply_legacy_env_overrides :: "(string \<rightharpoonup> string) \<Rightarrow> app_config \<Rightarrow> app_config" where
  "apply_legacy_env_overrides env_var c =
     (let c1 = (case env_var ''RELAY_ID'' of
                  Some relay_id' \<Rightarrow> c\<lparr>relay := (relay c)\<lparr>relay_id := relay_id'\<rparr>\<rparr>
                | None \<Rightarrow> c)
      in case env_var ''RUST_LOG'' of
           Some lvl \<Rightarrow>
             c1\<lparr>observability := (observability c1)\<lparr>logging :=
                 (logging (observability c1))\<lparr>log_level := lvl\<rparr>\<rparr>\<rparr>
         | None \<Rightarrow> c1)"

definition validate_app_config :: "app_config \<Rightarrow> app_error + unit" where
  "validate_app_config c =
     (if heartbeat_interval_seconds (relay c) = 0 then
        Inl (Validation ''relay.heartbeat_interval_seconds must be greater than 0'')
      else if heartbeat_timeout_seconds (relay c) = 0 then
        Inl (Validation ''relay.heartbeat_timeout_seconds must be greater than 0'')
      else if heartbeat_timeout_seconds (relay c) \<le> heartbeat_interval_seconds (relay c) then
        Inl (Validation
          (''relay.heartbeat_timeout_seconds ('' @ dec_string (heartbeat_timeout_seconds (relay c))
           @ '') must be greater than relay.heartbeat_interval_seconds (''
           @ dec_string (heartbeat_interval_seconds (relay c)) @ '')''))
      else Inr ())"

text \<open>
  \<open>read_to_string\<close> and \<open>build\<close> (the \<open>config\<close> crate's YAML and environment sources with
  \<open>try_deserialize\<close>) are parameters.
\<close>

definition load_app_config ::
  "(string \<Rightarrow> string + string) \<Rightarrow> (string \<Rightarrow> string + app_config) \<Rightarrow> (string \<rightharpoonup> string) \<Rightarrow> string
     \<Rightarrow> app_error + app_config" where
  "load_app_config read_to_string build env_var path =
     (case read_to_string path of
        Inl source \<Rightarrow> Inl (Io path source)
      | Inr content \<Rightarrow>
          (case build content of
             Inl e \<Rightarrow> Inl (Config e)
           | Inr parsed \<Rightarrow>
               (let app_config = apply_legacy_env_overrides env_var parsed
                in case validate_app_config app_config of
                     Inl e \<Rightarrow> Inl e
                   | Inr _ \<Rightarrow> Inr app_config)))"

section \<open>Facts\<close>

lemma validate_app_config_iff:
  "validate_app_config c = Inr u \<longleftrightarrow>
     0 < heartbeat_interval_seconds (relay c) \<and>
     heartbeat_interval_seconds (relay c) < heartbeat_timeout_seconds (relay c)"
  by (auto simp: validate_app_config_def)

lemma overrides_frame [frame_simps]:
  "heartbeat_interval_seconds (relay (apply_legacy_env_overrides env c)) =
     heartbeat_interval_seconds (relay c)"
  "heartbeat_timeout_seconds (relay (apply_legacy_env_overrides env c)) =
     heartbeat_timeout_seconds (relay c)"
  by (simp_all add: apply_legacy_env_overrides_def Let_def split: option.splits)

section \<open>Properties\<close>

text \<open>
  C30. A configuration that \<open>load\<close> returns has a positive heartbeat interval and a larger
  heartbeat timeout, and \<open>load\<close> fails with an I/O error exactly when the file cannot be read.
\<close>

theorem loaded_config_valid:
  "case load_app_config rd build env path of
     Inr c \<Rightarrow> 0 < heartbeat_interval_seconds (relay c)
        \<and> heartbeat_interval_seconds (relay c) < heartbeat_timeout_seconds (relay c)
        \<and> (\<exists>content parsed. rd path = Inr content \<and> build content = Inr parsed
             \<and> c = apply_legacy_env_overrides env parsed)
   | Inl e \<Rightarrow> (\<exists>src. e = Io path src) = (\<exists>src. rd path = Inl src)"
proof (cases "load_app_config rd build env path")
  case (Inl e)
  then show ?thesis
    by (auto simp: load_app_config_def Let_def validate_app_config_def split: sum.splits if_splits)
next
  case (Inr c)
  then obtain content parsed u where p: "rd path = Inr content" "build content = Inr parsed"
    "validate_app_config (apply_legacy_env_overrides env parsed) = Inr u"
    "c = apply_legacy_env_overrides env parsed"
    by (auto simp: load_app_config_def Let_def split: sum.splits)
  with Inr show ?thesis by (auto simp: validate_app_config_iff)
qed

end
