(* ===== verification/Auth_Service.thy ===== *)
theory Auth_Service
  imports Relay_Config
begin

text \<open>
  \<^verbatim>\<open>crates/relay/src/auth.rs\<close> and \<^verbatim>\<open>rbac.rs\<close>: authentication of controllers and devices,
  token revocation by prefix, and the role and project policy. Decoding a JWT
  (\<open>jsonwebtoken::decode\<close>) is a parameter. A revocation list sits behind an \<open>RwLock\<close>; the
  value \<open>None\<close> of its model is the poisoned lock, on which reading counts every token as
  revoked and writing does nothing. The properties say who is let through to a device, and what
  revocations change, for the service that the configuration gives.
\<close>

section \<open>Principals, errors and the service\<close>

record controller_principal =
  cp_controller_id :: string
  cp_role :: string
  cp_allowed_project_ids :: "string list"

record device_principal =
  dp_device_id :: string
  dp_project_id :: string

datatype auth_error =
    InvalidToken | ControllerIdMismatch | DeviceIdMismatch | UnknownDevice | RevokedToken
  | JwtNotConfigured

record jwt_auth =
  ja_enabled :: bool
  ja_secret :: string
  ja_issuer :: "string option"
  ja_audience :: "string option"
  ja_clock_skew_seconds :: nat

record controller_claims =
  cc_sub :: string
  cc_controller_id :: string
  cc_role :: string
  cc_allowed_project_ids :: "string list"
  cc_exp :: nat
  cc_iss :: "string option"
  cc_aud :: "string option"

text \<open>What the code sets of \<open>jsonwebtoken::Validation\<close>; the algorithm is always HS256.\<close>

record jwt_validation =
  jv_leeway :: nat
  jv_issuer :: "string list option"
  jv_audience :: "string list option"
  jv_validate_aud :: bool

type_synonym jwt_decode = "string \<Rightarrow> string \<Rightarrow> jwt_validation \<Rightarrow> controller_claims option"
type_synonym 'a rwlock = "'a option"

record auth_service =
  as_enabled :: bool
  as_jwt :: jwt_auth
  as_controller_tokens :: "(string, controller_auth_entry) dashmap"
  as_device_tokens :: "(string, device_auth_entry) dashmap"
  as_device_by_id :: "(string, device_auth_entry) dashmap"
  as_revoked_controller_tokens :: "string hashset rwlock"
  as_revoked_device_tokens :: "string hashset rwlock"

definition auth_service_new :: "auth_config \<Rightarrow> auth_service" where
  "auth_service_new config =
     \<lparr>as_enabled = auth_enabled config,
      as_jwt = \<lparr>ja_enabled = jwt_enabled (jwt config), ja_secret = hs256_secret (jwt config),
                ja_issuer = issuer (jwt config), ja_audience = audience (jwt config),
                ja_clock_skew_seconds = clock_skew_seconds (jwt config)\<rparr>,
      as_controller_tokens = controller_tokens config,
      as_device_tokens = device_tokens config,
      as_device_by_id =
        fold (\<lambda>entry m. AList.update (dae_device_id entry) entry m)
          (map snd (device_tokens config)) [],
      as_revoked_controller_tokens = Some [],
      as_revoked_device_tokens = Some []\<rparr>"

section \<open>Revocation\<close>

definition token_is_revoked :: "string hashset rwlock \<Rightarrow> string \<Rightarrow> bool" where
  "token_is_revoked tokens token =
     (case tokens of
        None \<Rightarrow> True
      | Some ts \<Rightarrow> list_ex (\<lambda>revoked. token = revoked \<or> starts_with token revoked) ts)"

definition is_controller_token_revoked :: "auth_service \<Rightarrow> string \<Rightarrow> bool" where
  "is_controller_token_revoked a token = token_is_revoked (as_revoked_controller_tokens a) token"

definition is_device_token_revoked :: "auth_service \<Rightarrow> string \<Rightarrow> bool" where
  "is_device_token_revoked a token = token_is_revoked (as_revoked_device_tokens a) token"

definition revoke_controller_token :: "string \<Rightarrow> auth_service \<Rightarrow> auth_service" where
  "revoke_controller_token token_hash_or_prefix a =
     a\<lparr>as_revoked_controller_tokens :=
        map_option (List.insert token_hash_or_prefix) (as_revoked_controller_tokens a)\<rparr>"

definition revoke_device_token :: "string \<Rightarrow> auth_service \<Rightarrow> auth_service" where
  "revoke_device_token token_hash_or_prefix a =
     a\<lparr>as_revoked_device_tokens :=
        map_option (List.insert token_hash_or_prefix) (as_revoked_device_tokens a)\<rparr>"

definition token_prefix :: "string \<Rightarrow> string" where
  "token_prefix token = take_chars 8 token"

section \<open>Authentication\<close>

definition jwt_validation_of :: "jwt_auth \<Rightarrow> jwt_validation" where
  "jwt_validation_of j =
     \<lparr>jv_leeway = ja_clock_skew_seconds j,
      jv_issuer = map_option (\<lambda>i. [i]) (ja_issuer j),
      jv_audience = map_option (\<lambda>a. [a]) (ja_audience j),
      jv_validate_aud = (ja_audience j \<noteq> None)\<rparr>"

definition authenticate_controller_jwt ::
  "jwt_decode \<Rightarrow> auth_service \<Rightarrow> string \<Rightarrow> string \<Rightarrow> auth_error + controller_principal" where
  "authenticate_controller_jwt decode a controller_id token =
     (if ja_secret (as_jwt a) = [] then Inl JwtNotConfigured
      else case decode token (ja_secret (as_jwt a)) (jwt_validation_of (as_jwt a)) of
        None \<Rightarrow> Inl InvalidToken
      | Some claims \<Rightarrow>
          (if cc_controller_id claims \<noteq> controller_id \<or> cc_sub claims \<noteq> controller_id
           then Inl ControllerIdMismatch
           else Inr \<lparr>cp_controller_id = cc_controller_id claims, cp_role = cc_role claims,
                     cp_allowed_project_ids = cc_allowed_project_ids claims\<rparr>))"

definition authenticate_controller ::
  "jwt_decode \<Rightarrow> auth_service \<Rightarrow> string \<Rightarrow> string \<Rightarrow> auth_error + controller_principal" where
  "authenticate_controller decode a controller_id token =
     (if \<not> as_enabled a then
        Inr \<lparr>cp_controller_id = controller_id, cp_role = ''admin'', cp_allowed_project_ids = []\<rparr>
      else if is_controller_token_revoked a token then Inl RevokedToken
      else if ja_enabled (as_jwt a) then authenticate_controller_jwt decode a controller_id token
      else case map_of (as_controller_tokens a) token of
        None \<Rightarrow> Inl InvalidToken
      | Some entry \<Rightarrow>
          (if cae_controller_id entry \<noteq> controller_id then Inl ControllerIdMismatch
           else Inr \<lparr>cp_controller_id = cae_controller_id entry, cp_role = cae_role entry,
                     cp_allowed_project_ids = cae_allowed_project_ids entry\<rparr>))"

definition authenticate_device_by_token ::
  "auth_service \<Rightarrow> string \<Rightarrow> string \<Rightarrow> auth_error + device_principal" where
  "authenticate_device_by_token a device_id token =
     (if \<not> as_enabled a then Inr \<lparr>dp_device_id = device_id, dp_project_id = []\<rparr>
      else if is_device_token_revoked a token then Inl RevokedToken
      else case map_of (as_device_tokens a) token of
        None \<Rightarrow> Inl InvalidToken
      | Some entry \<Rightarrow>
          (if dae_device_id entry \<noteq> device_id then Inl DeviceIdMismatch
           else Inr \<lparr>dp_device_id = dae_device_id entry, dp_project_id = dae_project_id entry\<rparr>))"

definition get_device_principal_by_id :: "auth_service \<Rightarrow> string \<Rightarrow> auth_error + device_principal" where
  "get_device_principal_by_id a device_id =
     (if \<not> as_enabled a then Inr \<lparr>dp_device_id = device_id, dp_project_id = []\<rparr>
      else case map_of (as_device_by_id a) device_id of
        None \<Rightarrow> Inl UnknownDevice
      | Some entry \<Rightarrow>
          Inr \<lparr>dp_device_id = dae_device_id entry, dp_project_id = dae_project_id entry\<rparr>)"

section \<open>Role-based access control\<close>

datatype authorization_error = Unauthorized | MethodNotAllowed | DeviceProjectForbidden

record rbac_policy_engine =
  rbac_enabled :: bool
  rbac_method_whitelist :: "string list"

definition rbac_new :: "auth_config \<Rightarrow> rbac_policy_engine" where
  "rbac_new config =
     \<lparr>rbac_enabled = auth_enabled config, rbac_method_whitelist = method_whitelist config\<rparr>"

definition is_method_allowed :: "rbac_policy_engine \<Rightarrow> string \<Rightarrow> bool" where
  "is_method_allowed rb method_name =
     (if \<not> rbac_enabled rb then True
      else if rbac_method_whitelist rb = [] then True
      else list_ex (\<lambda>m. m = method_name) (rbac_method_whitelist rb))"

definition authorize_controller_to_device ::
  "rbac_policy_engine \<Rightarrow> controller_principal \<Rightarrow> device_principal \<Rightarrow> string
     \<Rightarrow> authorization_error + unit" where
  "authorize_controller_to_device rb controller device method_name =
     (if \<not> rbac_enabled rb then Inr ()
      else if \<not> is_method_allowed rb method_name then Inl MethodNotAllowed
      else if cp_role controller = ''admin'' then Inr ()
      else if list_ex (\<lambda>pid. pid = dp_project_id device) (cp_allowed_project_ids controller)
      then Inr () else Inl DeviceProjectForbidden)"

section \<open>Facts\<close>

lemma token_is_revoked_iff:
  "token_is_revoked tokens t \<longleftrightarrow>
     tokens = None \<or> (\<exists>ts p. tokens = Some ts \<and> p \<in> set ts \<and> starts_with t p)"
  by (auto simp: token_is_revoked_def list_ex_iff split: option.splits)

lemma revoke_controller_revoked:
  "starts_with t p \<Longrightarrow> is_controller_token_revoked (revoke_controller_token p a) t"
  by (cases "as_revoked_controller_tokens a")
    (auto simp: is_controller_token_revoked_def revoke_controller_token_def token_is_revoked_iff)

lemma revoke_device_revoked:
  "starts_with t p \<Longrightarrow> is_device_token_revoked (revoke_device_token p a) t"
  by (cases "as_revoked_device_tokens a")
    (auto simp: is_device_token_revoked_def revoke_device_token_def token_is_revoked_iff)

lemma revoke_controller_mono:
  "is_controller_token_revoked a t \<Longrightarrow> is_controller_token_revoked (revoke_controller_token p a) t"
  by (auto simp: is_controller_token_revoked_def revoke_controller_token_def token_is_revoked_iff)

lemma revoke_controller_frame [frame_simps]:
  "is_device_token_revoked (revoke_controller_token p a) = is_device_token_revoked a"
  "as_enabled (revoke_controller_token p a) = as_enabled a"
  "as_jwt (revoke_controller_token p a) = as_jwt a"
  "as_controller_tokens (revoke_controller_token p a) = as_controller_tokens a"
  "as_device_tokens (revoke_controller_token p a) = as_device_tokens a"
  "as_device_by_id (revoke_controller_token p a) = as_device_by_id a"
  by (simp_all add: revoke_controller_token_def is_device_token_revoked_def fun_eq_iff)

lemma revoke_device_frame [frame_simps]:
  "is_controller_token_revoked (revoke_device_token p a) = is_controller_token_revoked a"
  "as_enabled (revoke_device_token p a) = as_enabled a"
  "as_jwt (revoke_device_token p a) = as_jwt a"
  "as_controller_tokens (revoke_device_token p a) = as_controller_tokens a"
  "as_device_tokens (revoke_device_token p a) = as_device_tokens a"
  "as_device_by_id (revoke_device_token p a) = as_device_by_id a"
  by (simp_all add: revoke_device_token_def is_controller_token_revoked_def fun_eq_iff)

lemma authenticate_controller_id:
  "authenticate_controller decode a c t = Inr p \<Longrightarrow> cp_controller_id p = c"
  by (auto simp: authenticate_controller_def authenticate_controller_jwt_def
      split: if_splits option.splits)

lemma authenticate_device_id:
  "authenticate_device_by_token a d t = Inr p \<Longrightarrow> dp_device_id p = d"
  by (auto simp: authenticate_device_by_token_def split: if_splits option.splits)

lemma is_method_allowed_iff:
  "is_method_allowed rb m \<longleftrightarrow>
     \<not> rbac_enabled rb \<or> rbac_method_whitelist rb = [] \<or> m \<in> set (rbac_method_whitelist rb)"
  by (auto simp: is_method_allowed_def list_ex_iff)

lemma authorize_ok_iff:
  "authorize_controller_to_device rb c d m = Inr u \<longleftrightarrow>
     \<not> rbac_enabled rb
     \<or> is_method_allowed rb m
        \<and> (cp_role c = ''admin'' \<or> dp_project_id d \<in> set (cp_allowed_project_ids c))"
  by (auto simp: authorize_controller_to_device_def list_ex_iff)

lemma authorize_never_Unauthorized:
  "authorize_controller_to_device rb c d m \<noteq> Inl Unauthorized"
  by (simp add: authorize_controller_to_device_def)

text \<open>
  The index \<open>as_device_by_id\<close> that the constructor builds finds an entry of the token table
  for exactly the devices the table names.
\<close>

lemma fold_update_map_of:
  "map_of (fold (\<lambda>x m. AList.update (f x) x m) xs m0) k =
     (case find (\<lambda>x. f x = k) (rev xs) of Some x \<Rightarrow> Some x | None \<Rightarrow> map_of m0 k)"
  by (induction xs rule: rev_induct) auto

lemma find_SomeD: "find P xs = Some x \<Longrightarrow> P x \<and> x \<in> set xs"
  by (induction xs) (auto split: if_splits)

lemma device_by_id_new:
  "map_of (as_device_by_id (auth_service_new cfg)) d =
     find (\<lambda>e. dae_device_id e = d) (rev (map snd (device_tokens cfg)))"
  by (simp add: auth_service_new_def fold_update_map_of split: option.split)

lemma device_by_id_entry:
  "map_of (as_device_by_id (auth_service_new cfg)) d = Some e \<Longrightarrow>
     dae_device_id e = d \<and> e \<in> snd ` set (device_tokens cfg)"
  unfolding device_by_id_new by (drule find_SomeD) simp

lemma device_by_id_dom:
  assumes "e \<in> snd ` set (device_tokens cfg)"
  shows "\<exists>e'. map_of (as_device_by_id (auth_service_new cfg)) (dae_device_id e) = Some e'"
proof (rule ccontr)
  assume "\<not> ?thesis"
  then have "find (\<lambda>x. dae_device_id x = dae_device_id e) (rev (map snd (device_tokens cfg))) = None"
    by (simp add: device_by_id_new)
  with assms show False by (auto simp: find_None_iff)
qed

section \<open>Properties\<close>

text \<open>A history of revocations: controller (\<open>True\<close>) and device tokens or prefixes, in order.\<close>

definition revoke_all :: "(bool \<times> string) list \<Rightarrow> auth_service \<Rightarrow> auth_service" where
  "revoke_all ps a =
     fold (\<lambda>(is_ctrl, p) a. if is_ctrl then revoke_controller_token p a else revoke_device_token p a) ps a"

lemma revoke_all_Cons [simp]:
  "revoke_all ((True, p) # ps) a = revoke_all ps (revoke_controller_token p a)"
  "revoke_all ((False, p) # ps) a = revoke_all ps (revoke_device_token p a)"
  by (simp_all add: revoke_all_def)

lemma revoke_all_Nil [simp]: "revoke_all [] a = a"
  by (simp add: revoke_all_def)

lemma revoke_all_frame [frame_simps]:
  "as_enabled (revoke_all ps a) = as_enabled a \<and> as_jwt (revoke_all ps a) = as_jwt a
     \<and> as_controller_tokens (revoke_all ps a) = as_controller_tokens a
     \<and> as_device_tokens (revoke_all ps a) = as_device_tokens a"
proof (induction ps arbitrary: a)
  case (Cons q ps)
  then show ?case by (cases q; cases "fst q") (auto simp: frame_simps)
qed simp

lemma revoke_step_iff:
  "as_revoked_controller_tokens a = Some us \<Longrightarrow>
     is_controller_token_revoked (revoke_controller_token p a) t
       \<longleftrightarrow> starts_with t p \<or> is_controller_token_revoked a t"
  "as_revoked_device_tokens a = Some us \<Longrightarrow>
     is_device_token_revoked (revoke_device_token p a) t
       \<longleftrightarrow> starts_with t p \<or> is_device_token_revoked a t"
  by (auto simp: is_controller_token_revoked_def revoke_controller_token_def
      is_device_token_revoked_def revoke_device_token_def token_is_revoked_iff)

lemma revoke_all_controller:
  "as_revoked_controller_tokens a = Some us \<Longrightarrow>
     is_controller_token_revoked (revoke_all ps a) t
       \<longleftrightarrow> (\<exists>p. (True, p) \<in> set ps \<and> starts_with t p) \<or> is_controller_token_revoked a t"
proof (induction ps arbitrary: a us)
  case (Cons q ps)
  show ?case
  proof (cases q)
    case (Pair b p)
    then show ?thesis
      using Cons.IH [of "revoke_controller_token p a" "List.insert p us"]
        Cons.IH [of "revoke_device_token p a" us] Cons.prems
      by (cases b) (auto simp: revoke_step_iff frame_simps, auto simp: revoke_controller_token_def revoke_device_token_def)
  qed
qed simp

lemma revoke_all_device:
  "as_revoked_device_tokens a = Some us \<Longrightarrow>
     is_device_token_revoked (revoke_all ps a) t
       \<longleftrightarrow> (\<exists>p. (False, p) \<in> set ps \<and> starts_with t p) \<or> is_device_token_revoked a t"
proof (induction ps arbitrary: a us)
  case (Cons q ps)
  show ?case
  proof (cases q)
    case (Pair b p)
    then show ?thesis
      using Cons.IH [of "revoke_controller_token p a" us]
        Cons.IH [of "revoke_device_token p a" "List.insert p us"] Cons.prems
      by (cases b) (auto simp: revoke_step_iff frame_simps, auto simp: revoke_controller_token_def revoke_device_token_def)
  qed
qed simp

lemma new_revoked:
  "as_revoked_controller_tokens (auth_service_new cfg) = Some []"
  "as_revoked_device_tokens (auth_service_new cfg) = Some []"
  "as_enabled (auth_service_new cfg) = auth_enabled cfg"
  "is_controller_token_revoked (auth_service_new cfg) t = False"
  "is_device_token_revoked (auth_service_new cfg) t = False"
  by (simp_all add: auth_service_new_def is_controller_token_revoked_def is_device_token_revoked_def
      token_is_revoked_def)

lemma authenticate_controller_frame:
  assumes "as_enabled b = as_enabled a" "as_jwt b = as_jwt a"
    "as_controller_tokens b = as_controller_tokens a" "\<not> is_controller_token_revoked a t"
  shows "authenticate_controller decode b c t =
    (if as_enabled a \<and> is_controller_token_revoked b t then Inl RevokedToken
     else authenticate_controller decode a c t)"
  using assms by (simp add: authenticate_controller_def authenticate_controller_jwt_def)

lemma authenticate_device_frame:
  assumes "as_enabled b = as_enabled a" "as_device_tokens b = as_device_tokens a"
    "\<not> is_device_token_revoked a t"
  shows "authenticate_device_by_token b d t =
    (if as_enabled a \<and> is_device_token_revoked b t then Inl RevokedToken
     else authenticate_device_by_token a d t)"
  using assms by (simp add: authenticate_device_by_token_def)

lemma revoke_all_new:
  "is_controller_token_revoked (revoke_all ps (auth_service_new cfg)) t
     \<longleftrightarrow> (\<exists>p. (True, p) \<in> set ps \<and> starts_with t p)"
  "is_device_token_revoked (revoke_all ps (auth_service_new cfg)) t
     \<longleftrightarrow> (\<exists>p. (False, p) \<in> set ps \<and> starts_with t p)"
  by (simp_all add: revoke_all_controller [OF new_revoked(1)] revoke_all_device [OF new_revoked(2)]
      new_revoked)

text \<open>
  C27. After any history of revocations, a controller token is refused as revoked exactly when a
  revoked controller prefix starts it, and every other token is treated as before; a
  revocation of a device token never changes what controllers get.
\<close>

theorem controller_revocation_exact:
  "authenticate_controller decode (revoke_all ps (auth_service_new cfg)) c t =
     (if auth_enabled cfg \<and> (\<exists>p. (True, p) \<in> set ps \<and> starts_with t p) then Inl RevokedToken
      else authenticate_controller decode (auth_service_new cfg) c t)"
  using authenticate_controller_frame [of "revoke_all ps (auth_service_new cfg)" "auth_service_new cfg"
      t decode c] revoke_all_frame [of ps "auth_service_new cfg"]
  unfolding revoke_all_new new_revoked by simp

text \<open>
  The same for devices: a device token is refused as revoked exactly when a revoked device
  prefix starts it, and every other token is treated as before.
\<close>

theorem device_revocation_exact:
  "authenticate_device_by_token (revoke_all ps (auth_service_new cfg)) d t =
     (if auth_enabled cfg \<and> (\<exists>p. (False, p) \<in> set ps \<and> starts_with t p) then Inl RevokedToken
      else authenticate_device_by_token (auth_service_new cfg) d t)"
  using authenticate_device_frame [of "revoke_all ps (auth_service_new cfg)" "auth_service_new cfg"
      t d] revoke_all_frame [of ps "auth_service_new cfg"]
  unfolding revoke_all_new new_revoked by simp

text \<open>
  What the configuration says of a token and of a device. A token identifies a controller with a
  role and projects: in JWT mode by claims that carry the controller's id twice (\<open>sub\<close> and
  \<open>controller_id\<close>), otherwise by its entry in the table of tokens. The project of a device is that
  of the last entry for it.
\<close>

definition identifies :: "jwt_decode \<Rightarrow> auth_config \<Rightarrow> string \<Rightarrow> string \<Rightarrow> string \<Rightarrow> string list \<Rightarrow> bool" where
  "identifies decode cfg c t role projects \<longleftrightarrow>
     (if jwt_enabled (jwt cfg)
      then hs256_secret (jwt cfg) \<noteq> []
        \<and> (\<exists>cl. decode t (hs256_secret (jwt cfg))
             \<lparr>jv_leeway = clock_skew_seconds (jwt cfg), jv_issuer = map_option (\<lambda>i. [i]) (issuer (jwt cfg)),
              jv_audience = map_option (\<lambda>a. [a]) (audience (jwt cfg)),
              jv_validate_aud = (audience (jwt cfg) \<noteq> None)\<rparr> = Some cl
           \<and> cc_sub cl = c \<and> cc_controller_id cl = c \<and> cc_role cl = role \<and> cc_allowed_project_ids cl = projects)
      else (\<exists>e. map_of (controller_tokens cfg) t = Some e
           \<and> cae_controller_id e = c \<and> cae_role e = role \<and> cae_allowed_project_ids e = projects))"

definition device_project :: "auth_config \<Rightarrow> string \<Rightarrow> string option" where
  "device_project cfg d =
     map_of (rev (map (\<lambda>(_, e). (dae_device_id e, dae_project_id e)) (device_tokens cfg))) d"

lemma find_map_of:
  "map_option g (find (\<lambda>x. f x = k) xs) = map_of (map (\<lambda>x. (f x, g x)) xs) k"
  by (induction xs) auto

lemma device_principal_new:
  assumes "auth_enabled cfg"
  shows "get_device_principal_by_id (revoke_all ps (auth_service_new cfg)) d = Inr dp \<longleftrightarrow>
    device_project cfg d = Some (dp_project_id dp) \<and> dp_device_id dp = d"
proof -
  have same: "as_device_by_id (revoke_all ps a) = as_device_by_id a" for a
    by (induction ps arbitrary: a) (auto simp: frame_simps revoke_all_def split: prod.splits)
  have "device_project cfg d = map_option dae_project_id (map_of (as_device_by_id (auth_service_new cfg)) d)"
    by (simp add: device_by_id_new find_map_of device_project_def rev_map case_prod_unfold comp_def)
  then show ?thesis
    using device_by_id_entry [of cfg d] assms
    by (cases dp) (auto simp: get_device_principal_by_id_def frame_simps new_revoked same split: option.splits)
qed

lemma authenticated_iff:
  assumes "auth_enabled cfg"
  shows "authenticate_controller decode (revoke_all ps (auth_service_new cfg)) c t = Inr p \<longleftrightarrow>
    \<not> (\<exists>q. (True, q) \<in> set ps \<and> starts_with t q) \<and> cp_controller_id p = c
    \<and> identifies decode cfg c t (cp_role p) (cp_allowed_project_ids p)"
proof -
  have new: "as_jwt (auth_service_new cfg) = \<lparr>ja_enabled = jwt_enabled (jwt cfg), ja_secret = hs256_secret (jwt cfg),
      ja_issuer = issuer (jwt cfg), ja_audience = audience (jwt cfg), ja_clock_skew_seconds = clock_skew_seconds (jwt cfg)\<rparr>"
    "as_controller_tokens (auth_service_new cfg) = controller_tokens cfg"
    by (simp_all add: auth_service_new_def)
  show ?thesis
    using assms revoke_all_frame [of ps "auth_service_new cfg"]
    by (cases p)
      (auto simp: authenticate_controller_def authenticate_controller_jwt_def jwt_validation_of_def identifies_def
        revoke_all_new new_revoked new split: option.splits)
qed

text \<open>
  C26. Who is let through to a device, whatever has been revoked since the relay started: either
  authentication is off, and then anybody is, with any token and any method; or no revoked
  controller token or prefix starts the token, the token identifies the controller by signed claims
  or by the configured table, the device is configured, the method is on the white list (or the
  list is empty), and the controller is an administrator or has the project of the device.
\<close>

theorem access_granted_iff:
  "(\<exists>p dp. authenticate_controller decode (revoke_all ps (auth_service_new cfg)) c t = Inr p
      \<and> get_device_principal_by_id (revoke_all ps (auth_service_new cfg)) d = Inr dp
      \<and> authorize_controller_to_device (rbac_new cfg) p dp m = Inr ())
   \<longleftrightarrow> \<not> auth_enabled cfg
     \<or> \<not> (\<exists>q. (True, q) \<in> set ps \<and> starts_with t q)
       \<and> (m \<in> set (method_whitelist cfg) \<or> method_whitelist cfg = [])
       \<and> (\<exists>role projects project. identifies decode cfg c t role projects \<and> device_project cfg d = Some project
            \<and> (role = ''admin'' \<or> project \<in> set projects))"
proof (cases "auth_enabled cfg")
  case False
  then show ?thesis
    by (simp add: authenticate_controller_def get_device_principal_by_id_def authorize_controller_to_device_def
        frame_simps new_revoked rbac_new_def)
next
  case True
  have "(\<exists>p dp. identifies decode cfg c t (cp_role p) (cp_allowed_project_ids p) \<and> cp_controller_id p = c
        \<and> device_project cfg d = Some (dp_project_id dp) \<and> dp_device_id dp = d
        \<and> (cp_role p = ''admin'' \<or> dp_project_id dp \<in> set (cp_allowed_project_ids p)))
      \<longleftrightarrow> (\<exists>role projects project. identifies decode cfg c t role projects \<and> device_project cfg d = Some project
            \<and> (role = ''admin'' \<or> project \<in> set projects))" (is "?L \<longleftrightarrow> ?R")
  proof
    show "?R \<Longrightarrow> ?L"
      by (metis controller_principal.select_convs device_principal.select_convs)
  qed blast
  with True show ?thesis
    by (simp add: authenticated_iff device_principal_new authorize_ok_iff is_method_allowed_iff) 
      (auto simp: rbac_new_def)
qed

definition sample_auth_config :: auth_config where
  "sample_auth_config = default_auth_config\<lparr>auth_enabled := True,
     controller_tokens := [(''tok'', \<lparr>cae_controller_id = ''c1'', cae_role = ''operator'',
        cae_allowed_project_ids = [''p1'']\<rparr>)],
     device_tokens := [(''dt'', \<lparr>dae_device_id = ''d1'', dae_project_id = ''p1''\<rparr>)],
     method_whitelist := [''m'']\<rparr>"

theorem access_granted_iff_witness:
  "(\<exists>p dp. authenticate_controller (\<lambda>_ _ _. None)
        (revoke_all [(False, ''tok''), (True, ''tx'')] (auth_service_new sample_auth_config)) ''c1'' ''tok'' = Inr p
      \<and> get_device_principal_by_id
          (revoke_all [(False, ''tok''), (True, ''tx'')] (auth_service_new sample_auth_config)) ''d1'' = Inr dp
      \<and> authorize_controller_to_device (rbac_new sample_auth_config) p dp ''m'' = Inr ())
   \<and> \<not> (\<exists>p dp. authenticate_controller (\<lambda>_ _ _. None)
        (revoke_all [(True, ''to'')] (auth_service_new sample_auth_config)) ''c1'' ''tok'' = Inr p
      \<and> get_device_principal_by_id
          (revoke_all [(True, ''to'')] (auth_service_new sample_auth_config)) ''d1'' = Inr dp
      \<and> authorize_controller_to_device (rbac_new sample_auth_config) p dp ''m'' = Inr ())"
  unfolding access_granted_iff
  by (simp add: sample_auth_config_def default_auth_config_def default_jwt_config_def identifies_def
      device_project_def starts_with_def)

end
