(* ===== verification/Rate_Limiter.thy ===== *)
theory Rate_Limiter
  imports Relay_Config
begin

text \<open>
  \<^verbatim>\<open>crates/relay/src/rate_limiter.rs\<close>: the token bucket for requests, the sliding window for
  connections and the one-second bandwidth windows. The clock is an argument \<open>now\<close>, read once for a
  call (the source reads it again for each bucket and each key); the \<open>f64\<close> token arithmetic is
  exact real arithmetic here. The lemmas give the classical bounds (how many requests a bucket
  admits in an interval, how many connections a window admits), the answers of a bandwidth key
  over all its windows, and what each limiter leaves alone.
\<close>

section \<open>Token bucket\<close>

record bucket =
  b_tokens :: real
  b_last :: instant

record rate_limiter =
  rl_device_rate :: real
  rl_controller_rate :: real
  rl_global_rate :: real
  rl_buckets :: "(string, bucket) dashmap"
  rl_cleanup_counter :: u64
  rl_bucket_ttl :: duration

definition rate_limiter_new :: "rate_limit_config \<Rightarrow> rate_limiter" where
  "rate_limiter_new config =
     \<lparr>rl_device_rate = real (device_requests_per_second config),
      rl_controller_rate = real (controller_requests_per_minute config) / 60,
      rl_global_rate = real (global_requests_per_second config),
      rl_buckets = [], rl_cleanup_counter = 0, rl_bucket_ttl = from_secs 300\<rparr>"

text \<open>The refill of an existing bucket, then the token it may spend.\<close>

definition refill :: "instant \<Rightarrow> real \<Rightarrow> bucket \<Rightarrow> bucket" where
  "refill now rate b =
     (let elapsed = as_secs_f64 (saturating_duration_since now (b_last b))
      in if elapsed > 0 then \<lparr>b_tokens = min rate (b_tokens b + elapsed * rate), b_last = now\<rparr>
         else b)"

definition check_key :: "instant \<Rightarrow> string \<Rightarrow> real \<Rightarrow> rate_limiter \<Rightarrow> bool \<times> rate_limiter" where
  "check_key now key rate rl =
     (if rate \<le> 0 then (False, rl)
      else case map_of (rl_buckets rl) key of
        Some b \<Rightarrow>
          (let b1 = refill now rate b
           in if b_tokens b1 \<ge> 1
              then (True, rl\<lparr>rl_buckets :=
                     AList.update key (b1\<lparr>b_tokens := b_tokens b1 - 1\<rparr>) (rl_buckets rl)\<rparr>)
              else (False, rl\<lparr>rl_buckets := AList.update key b1 (rl_buckets rl)\<rparr>))
      | None \<Rightarrow>
          (True, rl\<lparr>rl_buckets :=
             AList.update key \<lparr>b_tokens = max (rate - 1) 0, b_last = now\<rparr> (rl_buckets rl)\<rparr>))"

definition CLEANUP_EVERY :: nat where
  "CLEANUP_EVERY = 256"

definition maybe_cleanup :: "instant \<Rightarrow> rate_limiter \<Rightarrow> rate_limiter" where
  "maybe_cleanup now rl =
     (let count = rl_cleanup_counter rl + 1;
          rl1 = rl\<lparr>rl_cleanup_counter := count\<rparr>
      in if unat count mod CLEANUP_EVERY \<noteq> 0 then rl1
         else
           let stale = map fst (filter (\<lambda>(k, b).
                         rl_bucket_ttl rl1 \<le> saturating_duration_since now (b_last b))
                         (rl_buckets rl1))
           in rl1\<lparr>rl_buckets := fold AList.delete stale (rl_buckets rl1)\<rparr>)"

definition device_key :: "string \<Rightarrow> string" where
  "device_key device_id = ''device:'' @ device_id"

definition controller_key :: "string \<Rightarrow> string" where
  "controller_key controller_id = ''controller:'' @ controller_id"

definition allow :: "instant \<Rightarrow> string \<Rightarrow> string \<Rightarrow> rate_limiter \<Rightarrow> bool \<times> rate_limiter" where
  "allow now device_id controller_id rl =
     (let rl0 = maybe_cleanup now rl;
          (global_ok, rl1) = check_key now ''global'' (rl_global_rate rl0) rl0
      in if \<not> global_ok then (False, rl1)
         else
           let (device_ok, rl2) = check_key now (device_key device_id) (rl_device_rate rl1) rl1
           in if \<not> device_ok then (False, rl2)
              else check_key now (controller_key controller_id) (rl_controller_rate rl2) rl2)"

definition rate_limiter_len :: "rate_limiter \<Rightarrow> nat" where
  "rate_limiter_len rl = length (rl_buckets rl)"

section \<open>Sliding-window connection limiter\<close>

record connection_rate_limiter =
  cl_device_limit :: nat
  cl_device_window :: duration
  cl_global_limit :: nat
  cl_global_window :: duration
  cl_device_windows :: "(string, instant list) dashmap"
  cl_global_window_data :: "instant list"

definition connection_rate_limiter_new :: "rate_limit_config \<Rightarrow> connection_rate_limiter" where
  "connection_rate_limiter_new config =
     \<lparr>cl_device_limit = device_connection_per_minute config, cl_device_window = from_secs 60,
      cl_global_limit = global_connections_per_second config, cl_global_window = from_secs 1,
      cl_device_windows = [], cl_global_window_data = []\<rparr>"

text \<open>The \<open>while\<close> loop that pops expired instants off the front of the deque.\<close>

fun pop_expired :: "instant \<Rightarrow> duration \<Rightarrow> instant list \<Rightarrow> instant list" where
  "pop_expired now window_dur [] = []"
| "pop_expired now window_dur (t # window) =
     (if window_dur \<le> saturating_duration_since now t then pop_expired now window_dur window
      else t # window)"

definition prune_and_check ::
  "instant list \<Rightarrow> nat \<Rightarrow> duration \<Rightarrow> instant \<Rightarrow> bool \<times> instant list" where
  "prune_and_check window limit window_dur now =
     (let window1 = pop_expired now window_dur window
      in if limit \<le> length window1 then (False, window1) else (True, window1 @ [now]))"

definition prune_and_check_inner ::
  "instant list \<Rightarrow> nat \<Rightarrow> duration \<Rightarrow> instant \<Rightarrow> bool \<times> instant list" where
  "prune_and_check_inner window limit window_dur now =
     (let window1 = pop_expired now window_dur window
      in if limit \<le> length window1 then (False, window1) else (True, window1 @ [now]))"

definition allow_device ::
  "instant \<Rightarrow> string \<Rightarrow> connection_rate_limiter \<Rightarrow> bool \<times> connection_rate_limiter" where
  "allow_device now device_id cl =
     (let window = (case map_of (cl_device_windows cl) device_id of Some w \<Rightarrow> w | None \<Rightarrow> []);
          (ok, window1) = prune_and_check window (cl_device_limit cl) (cl_device_window cl) now
      in (ok, cl\<lparr>cl_device_windows := AList.update device_id window1 (cl_device_windows cl)\<rparr>))"

definition allow_global :: "instant \<Rightarrow> connection_rate_limiter \<Rightarrow> bool \<times> connection_rate_limiter" where
  "allow_global now cl =
     (let (ok, window1) =
        prune_and_check_inner (cl_global_window_data cl) (cl_global_limit cl) (cl_global_window cl) now
      in (ok, cl\<lparr>cl_global_window_data := window1\<rparr>))"

section \<open>Bandwidth tracker\<close>

record bandwidth_tracker =
  bt_device_limit :: u64
  bt_controller_limit :: u64
  bt_global_limit :: u64
  bt_windows :: "(string, u64 \<times> u64) dashmap"

definition bandwidth_tracker_new :: "rate_limit_config \<Rightarrow> bandwidth_tracker" where
  "bandwidth_tracker_new config =
     \<lparr>bt_device_limit = device_bandwidth_bytes_per_sec config,
      bt_controller_limit = controller_bandwidth_bytes_per_sec config,
      bt_global_limit = global_bandwidth_bytes_per_sec config, bt_windows = []\<rparr>"

definition record_key ::
  "u64 \<Rightarrow> string \<Rightarrow> u64 \<Rightarrow> u64 \<Rightarrow> bandwidth_tracker \<Rightarrow> bool \<times> bandwidth_tracker" where
  "record_key now_ns key byte_count limit bt =
     (let entry = (case map_of (bt_windows bt) key of Some e \<Rightarrow> e | None \<Rightarrow> (0, now_ns));
          entry1 = (if 1000000000 \<le> saturating_sub_u64 now_ns (snd entry)
                    then (0, now_ns) else entry)
      in case checked_add_u64 (fst entry1) byte_count of
           None \<Rightarrow> (False, bt\<lparr>bt_windows := AList.update key entry1 (bt_windows bt)\<rparr>)
         | Some new_total \<Rightarrow>
             (new_total \<le> limit,
              bt\<lparr>bt_windows := AList.update key (new_total, snd entry1) (bt_windows bt)\<rparr>))"

definition record_and_check ::
  "u64 \<Rightarrow> string \<Rightarrow> string \<Rightarrow> u64 \<Rightarrow> bandwidth_tracker \<Rightarrow> bool \<times> bandwidth_tracker" where
  "record_and_check now_ns device_id controller_id byte_count bt =
     (let (global_ok, bt1) = record_key now_ns ''global'' byte_count (bt_global_limit bt) bt;
          (device_ok, bt2) =
            record_key now_ns (device_key device_id) byte_count (bt_device_limit bt1) bt1;
          (controller_ok, bt3) =
            record_key now_ns (controller_key controller_id) byte_count (bt_controller_limit bt2) bt2
      in (global_ok \<and> device_ok \<and> controller_ok, bt3))"

section \<open>Runs\<close>

text \<open>
  The instants a sliding window accepted; the answers and final state of a bandwidth key over a
  list of transfers, each an instant and a size; and how such a list falls into windows: a window
  starts with the first transfer a second or more after the start of the window before it.
\<close>

fun accepted_instants ::
  "(instant list \<Rightarrow> nat \<Rightarrow> duration \<Rightarrow> instant \<Rightarrow> bool \<times> instant list)
     \<Rightarrow> nat \<Rightarrow> duration \<Rightarrow> instant list \<Rightarrow> instant list \<Rightarrow> instant list" where
  "accepted_instants check limit dur [] w = []"
| "accepted_instants check limit dur (t # ts) w =
     (let (ok, w1) = check w limit dur t
      in (if ok then [t] else []) @ accepted_instants check limit dur ts w1)"

fun bandwidth_run ::
  "string \<Rightarrow> u64 \<Rightarrow> (u64 \<times> u64) list \<Rightarrow> bandwidth_tracker \<Rightarrow> bool list \<times> bandwidth_tracker" where
  "bandwidth_run key limit [] bt = ([], bt)"
| "bandwidth_run key limit ((t, n) # xs) bt =
     (let (ok, bt1) = record_key t key n limit bt; (oks, bt2) = bandwidth_run key limit xs bt1
      in (ok # oks, bt2))"

definition in_window :: "u64 \<Rightarrow> u64 \<times> u64 \<Rightarrow> bool" where
  "in_window start x \<longleftrightarrow> saturating_sub_u64 (fst x) start < 1000000000"

function windows_of :: "(u64 \<times> u64) list \<Rightarrow> (u64 \<times> u64) list list" where
  "windows_of [] = []"
| "windows_of (x # xs) =
     (x # takeWhile (in_window (fst x)) xs) # windows_of (dropWhile (in_window (fst x)) xs)"
  by pat_completeness auto

termination
  by (relation "measure length") (auto simp: le_imp_less_Suc length_dropWhile_le)

definition bytes_of :: "(u64 \<times> u64) list \<Rightarrow> nat" where
  "bytes_of xs = sum_list (map (unat \<circ> snd) xs)"

definition window_answers :: "u64 \<Rightarrow> (u64 \<times> u64) list \<Rightarrow> bool list" where
  "window_answers limit w = map (\<lambda>i. bytes_of (take (Suc i) w) \<le> unat limit) [0..<length w]"

text \<open>Requests of many controllers to many devices against one limiter, and those it admitted.\<close>

fun admitted_requests ::
  "(instant \<times> string \<times> string) list \<Rightarrow> rate_limiter \<Rightarrow> (instant \<times> string \<times> string) list" where
  "admitted_requests [] rl = []"
| "admitted_requests ((t, d, c) # calls) rl =
     (let (ok, rl1) = allow t d c rl
      in (if ok then [(t, d, c)] else []) @ admitted_requests calls rl1)"

text \<open>Connection attempts of many devices against one limiter, and those it admitted.\<close>

fun admitted_connections ::
  "(instant \<times> string) list \<Rightarrow> connection_rate_limiter \<Rightarrow> (instant \<times> string) list" where
  "admitted_connections [] cl = []"
| "admitted_connections ((t, d) # calls) cl =
     (let (ok, cl1) = allow_device t d cl
      in (if ok then [(t, d)] else []) @ admitted_connections calls cl1)"

section \<open>Facts about the token bucket\<close>

lemma as_secs_nonneg [simp]: "0 \<le> as_secs_f64 d"
  by (simp add: as_secs_f64_def)

lemma as_secs_pos_iff [simp]: "0 < as_secs_f64 d \<longleftrightarrow> 0 < d"
  by (simp add: as_secs_f64_def)

lemma as_secs_add: "as_secs_f64 (a + b) = as_secs_f64 a + as_secs_f64 b"
  by (simp add: as_secs_f64_def field_simps)

lemma key_neq [simp]:
  "device_key d \<noteq> ''global''" "controller_key c \<noteq> ''global''" "device_key d \<noteq> controller_key c"
  "''global'' \<noteq> device_key d" "''global'' \<noteq> controller_key c" "controller_key c \<noteq> device_key d"
  by (simp_all add: device_key_def controller_key_def)

lemma key_inj [simp]:
  "device_key d = device_key d' \<longleftrightarrow> d = d'" "controller_key c = controller_key c' \<longleftrightarrow> c = c'"
  by (simp_all add: device_key_def controller_key_def)

lemma refill_facts:
  assumes "b_last b \<le> t" "0 < rate"
  shows "b_last (refill t rate b) = t"
    and "b_tokens (refill t rate b) \<le> b_tokens b + rate * as_secs_f64 (t - b_last b)"
  using assms
  by (auto simp: refill_def Let_def saturating_duration_since_def mult.commute)

lemma refill_nonneg: "0 \<le> b_tokens b \<Longrightarrow> 0 < rate \<Longrightarrow> 0 \<le> b_tokens (refill t rate b)"
  by (auto simp: refill_def Let_def)

lemma refill_le: "b_tokens b \<le> rate \<Longrightarrow> b_tokens (refill t rate b) \<le> rate"
  by (auto simp: refill_def Let_def)

lemma refill_small: "b_tokens b < 1 \<Longrightarrow> rate < 1 \<Longrightarrow> b_tokens (refill t rate b) < 1"
  by (auto simp: refill_def Let_def)

lemma check_key_Some:
  assumes "0 < rate" "map_of (rl_buckets rl) key = Some b"
  shows "fst (check_key t key rate rl) \<longleftrightarrow> 1 \<le> b_tokens (refill t rate b)"
    and "map_of (rl_buckets (snd (check_key t key rate rl))) key =
      Some (if 1 \<le> b_tokens (refill t rate b)
            then (refill t rate b)\<lparr>b_tokens := b_tokens (refill t rate b) - 1\<rparr>
            else refill t rate b)"
  using assms by (auto simp: check_key_def Let_def)

lemma check_key_None:
  assumes "0 < rate" "map_of (rl_buckets rl) key = None"
  shows "fst (check_key t key rate rl)"
    and "map_of (rl_buckets (snd (check_key t key rate rl))) key =
      Some \<lparr>b_tokens = max (rate - 1) 0, b_last = t\<rparr>"
  using assms by (auto simp: check_key_def)

lemma check_key_other [frame_simps]:
  "k \<noteq> key \<Longrightarrow>
     map_of (rl_buckets (snd (check_key t key rate rl))) k = map_of (rl_buckets rl) k"
  by (auto simp: check_key_def Let_def split: option.splits)

lemma check_key_frame [frame_simps, simp]:
  "rl_device_rate (snd (check_key t key rate rl)) = rl_device_rate rl"
  "rl_controller_rate (snd (check_key t key rate rl)) = rl_controller_rate rl"
  "rl_global_rate (snd (check_key t key rate rl)) = rl_global_rate rl"
  by (auto simp: check_key_def Let_def split: option.splits)

text \<open>A bucket of the limiter holds between no tokens and its rate.\<close>

definition key_rate :: "rate_limiter \<Rightarrow> string \<Rightarrow> real" where
  "key_rate rl k =
     (if k = ''global'' then rl_global_rate rl
      else if starts_with k ''device:'' then rl_device_rate rl else rl_controller_rate rl)"

definition rl_wf :: "rate_limiter \<Rightarrow> bool" where
  "rl_wf rl \<longleftrightarrow> dm_wf (rl_buckets rl) \<and>
     (\<forall>k b. map_of (rl_buckets rl) k = Some b \<longrightarrow> 0 \<le> b_tokens b \<and> b_tokens b \<le> key_rate rl k)"

lemma key_rate_simps [simp]:
  "key_rate rl ''global'' = rl_global_rate rl"
  "key_rate rl (device_key d) = rl_device_rate rl"
  "key_rate rl (controller_key c) = rl_controller_rate rl"
  by (simp_all add: key_rate_def device_key_def controller_key_def starts_with_def)

lemma check_key_wf [inv_intros]:
  assumes "rl_wf rl" "rate = key_rate rl key"
  shows "rl_wf (snd (check_key t key rate rl))"
proof -
  have kr: "key_rate (snd (check_key t key rate rl)) k = key_rate rl k" for k
    by (simp add: key_rate_def)
  have dm: "dm_wf (rl_buckets (snd (check_key t key rate rl)))"
    using assms(1) by (auto simp: rl_wf_def check_key_def Let_def split: option.splits)
  have "0 \<le> b_tokens b \<and> b_tokens b \<le> key_rate rl k"
    if b: "map_of (rl_buckets (snd (check_key t key rate rl))) k = Some b" for k b
  proof (cases "k = key \<and> 0 < rate")
    case False
    have "map_of (rl_buckets rl) k = Some b"
    proof (cases "k = key")
      case True
      with False b show ?thesis by (simp add: check_key_def)
    next
      case False
      with b show ?thesis by (simp add: check_key_other)
    qed
    with assms(1) show ?thesis by (auto simp: rl_wf_def)
  next
    case True
    show ?thesis
    proof (cases "map_of (rl_buckets rl) key")
      case None
      with True b assms(2) show ?thesis using check_key_None(2) [of rate rl key t] by auto
    next
      case (Some b0)
      with assms have "0 \<le> b_tokens b0" "b_tokens b0 \<le> rate" by (auto simp: rl_wf_def)
      then have "0 \<le> b_tokens (refill t rate b0)" "b_tokens (refill t rate b0) \<le> rate"
        using True refill_nonneg refill_le by auto
      with True b assms(2) show ?thesis using check_key_Some(2) [of rate rl key b0 t] Some by auto
    qed
  qed
  with dm show ?thesis by (simp add: rl_wf_def kr)
qed

lemma map_of_fold_delete:
  "map_of (fold AList.delete ks m) k = (if k \<in> set ks then None else map_of m k)"
  by (induction ks arbitrary: m) auto

lemma dm_wf_fold_delete: "dm_wf m \<Longrightarrow> dm_wf (fold AList.delete ks m)"
  by (induction ks arbitrary: m) auto

lemma maybe_cleanup_frame [frame_simps, simp]:
  "rl_device_rate (maybe_cleanup t rl) = rl_device_rate rl"
  "rl_controller_rate (maybe_cleanup t rl) = rl_controller_rate rl"
  "rl_global_rate (maybe_cleanup t rl) = rl_global_rate rl"
  by (simp_all add: maybe_cleanup_def Let_def)

lemma maybe_cleanup_map_of:
  "map_of (rl_buckets (maybe_cleanup t rl)) k = Some b \<Longrightarrow> map_of (rl_buckets rl) k = Some b"
  by (auto simp: maybe_cleanup_def Let_def map_of_fold_delete split: if_splits)

lemma maybe_cleanup_dm_wf: "dm_wf (rl_buckets rl) \<Longrightarrow> dm_wf (rl_buckets (maybe_cleanup t rl))"
  by (simp add: maybe_cleanup_def Let_def dm_wf_fold_delete)

lemma key_rate_cleanup [simp]: "key_rate (maybe_cleanup t rl) k = key_rate rl k"
  by (simp add: key_rate_def)

lemma maybe_cleanup_wf [inv_intros]: "rl_wf rl \<Longrightarrow> rl_wf (maybe_cleanup t rl)"
  unfolding rl_wf_def by (auto simp: maybe_cleanup_dm_wf dest!: maybe_cleanup_map_of)

lemma allow_wf [inv_intros]: "rl_wf rl \<Longrightarrow> rl_wf (snd (allow t d c rl))"
  by (simp add: allow_def Let_def case_prod_unfold)
    (auto intro!: check_key_wf maybe_cleanup_wf simp: Let_def)

lemma rate_limiter_new_wf [inv_intros]: "rl_wf (rate_limiter_new cfg)"
  by (simp add: rl_wf_def rate_limiter_new_def)

lemma allow_rates [frame_simps, simp]:
  "rl_device_rate (snd (allow t d c rl)) = rl_device_rate rl"
  "rl_controller_rate (snd (allow t d c rl)) = rl_controller_rate rl"
  "rl_global_rate (snd (allow t d c rl)) = rl_global_rate rl"
  by (simp_all add: allow_def Let_def case_prod_unfold)

lemma check_key_pos: "fst (check_key t key rate rl) \<Longrightarrow> 0 < rate"
  by (auto simp: check_key_def split: if_splits)

lemma allow_rates_pos:
  "fst (allow t d c rl) \<Longrightarrow> 0 < rl_global_rate rl \<and> 0 < rl_device_rate rl \<and> 0 < rl_controller_rate rl"
  by (auto simp: allow_def Let_def case_prod_unfold dest: check_key_pos split: if_splits)

interpretation limiter: invariant_machine
  "\<lambda>(t, d, c) rl. snd (allow t d c rl)" "\<lambda>_ _. True" rl_wf
  by unfold_locales (auto intro: allow_wf)

text \<open>
  The credit of a key at an instant bounds what its bucket can still admit at that instant;
  it grows by at most the rate per second, a granted request costs one, and dropping a bucket
  that has been idle for five minutes does not raise it.
\<close>

definition credit :: "rate_limiter \<Rightarrow> string \<Rightarrow> instant \<Rightarrow> real" where
  "credit rl k t =
     (case map_of (rl_buckets rl) k of
        None \<Rightarrow> max 1 (key_rate rl k)
      | Some b \<Rightarrow> min (max 1 (key_rate rl k)) (b_tokens b + key_rate rl k * as_secs_f64 (t - b_last b)))"

definition before :: "rate_limiter \<Rightarrow> instant \<Rightarrow> bool" where
  "before rl t \<longleftrightarrow> (\<forall>k b. map_of (rl_buckets rl) k = Some b \<longrightarrow> b_last b \<le> t)"

definition hits :: "string \<Rightarrow> instant \<times> string \<times> string \<Rightarrow> bool" where
  "hits k call \<longleftrightarrow> k = ''global'' \<or> k = device_key (fst (snd call)) \<or> k = controller_key (snd (snd call))"

lemma key_rate_check_key [simp]: "key_rate (snd (check_key t key rate rl)) k = key_rate rl k"
  by (simp add: key_rate_def)

lemma before_mono: "before rl t \<Longrightarrow> t \<le> t' \<Longrightarrow> before rl t'"
  unfolding before_def using le_trans by blast

lemma before_check_key [inv_intros]: "before rl t \<Longrightarrow> before (snd (check_key t key rate rl)) t"
  by (auto simp: before_def check_key_def refill_def Let_def split: option.splits if_splits)

lemma before_cleanup [inv_intros]: "before rl t \<Longrightarrow> before (maybe_cleanup t rl) t"
  by (auto simp: before_def dest: maybe_cleanup_map_of)

lemma before_allow [inv_intros]: "before rl t \<Longrightarrow> before (snd (allow t d c rl)) t"
  by (simp add: allow_def Let_def case_prod_unfold before_check_key before_cleanup)

lemma credit_le: "credit rl k t \<le> max 1 (key_rate rl k)"
  by (simp add: credit_def split: option.splits)

lemma credit_later:
  assumes "before rl t" "t \<le> t'" "0 < key_rate rl k"
  shows "credit rl k t' \<le> credit rl k t + key_rate rl k * as_secs_f64 (t' - t)"
proof (cases "map_of (rl_buckets rl) k")
  case None
  with assms(3) show ?thesis by (simp add: credit_def)
next
  case (Some b)
  with assms have "t' - b_last b = (t - b_last b) + (t' - t)" by (auto simp: before_def)
  then have "as_secs_f64 (t' - b_last b) = as_secs_f64 (t - b_last b) + as_secs_f64 (t' - t)"
    by (simp add: as_secs_add)
  moreover have "0 \<le> key_rate rl k * as_secs_f64 (t' - t)" using assms(3) by simp
  moreover have "min M (x + d) \<le> min M x + d" if "0 \<le> d" for M x d :: real
    using that by linarith
  ultimately show ?thesis using Some by (simp add: credit_def distrib_left add.assoc [symmetric])
qed

lemma credit_check_other:
  "k \<noteq> key \<Longrightarrow> credit (snd (check_key t key rate rl)) k t' = credit rl k t'"
  by (simp add: credit_def check_key_other split: option.split)

lemma credit_check_key:
  assumes "before rl t" "rate = key_rate rl k" "0 < rate" "rl_wf rl"
  shows "credit (snd (check_key t k rate rl)) k t
    \<le> credit rl k t - (if fst (check_key t k rate rl) then 1 else 0)"
proof (cases "map_of (rl_buckets rl) k")
  case None
  then show ?thesis
    using assms(2) check_key_None [OF assms(3) None, of t]
    by (simp add: credit_def as_secs_f64_def max_def)
next
  case (Some b)
  with assms(1) have le: "b_last b \<le> t" by (auto simp: before_def)
  have "b_tokens b \<le> rate" using Some assms(2,4) by (auto simp: rl_wf_def)
  then have tok: "b_tokens (refill t rate b) \<le> credit rl k t"
    using le Some assms(2) refill_facts(2) [OF le assms(3)] refill_le [of b rate t]
    by (simp add: credit_def)
  have "credit (snd (check_key t k rate rl)) k t
      \<le> b_tokens (refill t rate b) - (if fst (check_key t k rate rl) then 1 else 0)"
    using check_key_Some [OF assms(3) Some, of t] refill_facts(1) [OF le assms(3)]
    by (simp add: credit_def as_secs_f64_def)
  with tok show ?thesis by linarith
qed

lemma credit_cleanup:
  assumes "rl_wf rl" "1 / 300 \<le> key_rate rl k" "rl_bucket_ttl rl = from_secs 300"
  shows "credit (maybe_cleanup t rl) k t \<le> credit rl k t"
proof (cases "map_of (rl_buckets (maybe_cleanup t rl)) k = map_of (rl_buckets rl) k")
  case True
  then show ?thesis by (simp add: credit_def split: option.split)
next
  case False
  then obtain b where b: "map_of (rl_buckets rl) k = Some b" "(k, b) \<in> set (rl_buckets rl)"
    and gone: "map_of (rl_buckets (maybe_cleanup t rl)) k = None"
    and old: "from_secs 300 \<le> t - b_last b"
    using assms(1,3)
    by (force simp: maybe_cleanup_def Let_def map_of_fold_delete saturating_duration_since_def
        rl_wf_def dm_wf_def split: if_splits)
  from old have "300 \<le> as_secs_f64 (t - b_last b)"
    by (simp add: as_secs_f64_def from_secs_def)
  then have "key_rate rl k * 300 \<le> key_rate rl k * as_secs_f64 (t - b_last b)"
    using assms(2) by (intro mult_left_mono) auto
  moreover have "0 \<le> b_tokens b" using assms(1) b by (auto simp: rl_wf_def)
  moreover have "max 1 (key_rate rl k) \<le> key_rate rl k * 300" using assms(2) by simp
  ultimately have "max 1 (key_rate rl k) \<le> b_tokens b + key_rate rl k * as_secs_f64 (t - b_last b)"
    by linarith
  then show ?thesis using b(1) gone by (simp add: credit_def)
qed

text \<open>One call of \<open>allow\<close> costs every key it hits one unit of credit when it is granted.\<close>

lemma allow_facts:
  fixes t d c rl
  defines "r0 \<equiv> maybe_cleanup t rl"
  defines "r1 \<equiv> snd (check_key t ''global'' (key_rate r0 ''global'') r0)"
  defines "r2 \<equiv> snd (check_key t (device_key d) (key_rate r1 (device_key d)) r1)"
  defines "ok0 \<equiv> fst (check_key t ''global'' (key_rate r0 ''global'') r0)"
  defines "ok1 \<equiv> fst (check_key t (device_key d) (key_rate r1 (device_key d)) r1)"
  shows "allow t d c rl =
    (if \<not> ok0 then (False, r1) else if \<not> ok1 then (False, r2)
     else check_key t (controller_key c) (key_rate r2 (controller_key c)) r2)"
  by (simp add: assms allow_def Let_def case_prod_unfold)

lemma credit_check_any:
  assumes "rl_wf rl" "before rl t" "0 < key_rate rl k"
  shows "credit (snd (check_key t key (key_rate rl key) rl)) k t
    \<le> credit rl k t - (if k = key \<and> fst (check_key t key (key_rate rl key) rl) then 1 else 0)"
  using assms credit_check_key [of rl t "key_rate rl k" k]
    credit_check_other [of k key t "key_rate rl key" rl t]
  by (cases "k = key") auto

lemma credit_allow:
  assumes "rl_wf rl" "before rl t" "1 / 300 \<le> key_rate rl k" "rl_bucket_ttl rl = from_secs 300"
  shows "credit (snd (allow t d c rl)) k t
    \<le> credit rl k t - (if fst (allow t d c rl) \<and> hits k (t, d, c) then 1 else 0)"
proof -
  define r0 where "r0 = maybe_cleanup t rl"
  define g where "g = check_key t ''global'' (key_rate r0 ''global'') r0"
  define h where "h = check_key t (device_key d) (key_rate (snd g) (device_key d)) (snd g)"
  define i where "i = check_key t (controller_key c) (key_rate (snd h) (controller_key c)) (snd h)"
  have pos: "0 < key_rate r0 k" using assms(3) by (simp add: r0_def)
  have wf: "rl_wf r0" "rl_wf (snd g)" "rl_wf (snd h)"
    using assms(1) by (auto simp: r0_def g_def h_def intro!: maybe_cleanup_wf check_key_wf)
  have bf: "before r0 t" "before (snd g) t" "before (snd h) t"
    using assms(2) by (auto simp: r0_def g_def h_def intro!: before_cleanup before_check_key)
  have c0: "credit r0 k t \<le> credit rl k t" unfolding r0_def by (rule credit_cleanup [OF assms(1,3,4)])
  have c1: "credit (snd g) k t \<le> credit r0 k t - (if k = ''global'' \<and> fst g then 1 else 0)"
    unfolding g_def by (rule credit_check_any) (use wf bf pos in auto)
  have c2: "credit (snd h) k t \<le> credit (snd g) k t - (if k = device_key d \<and> fst h then 1 else 0)"
    unfolding h_def by (rule credit_check_any) (use wf bf pos in \<open>auto simp: g_def\<close>)
  have c3: "credit (snd i) k t \<le> credit (snd h) k t - (if k = controller_key c \<and> fst i then 1 else 0)"
    unfolding i_def by (rule credit_check_any) (use wf bf pos in \<open>auto simp: g_def h_def\<close>)
  have al: "allow t d c rl = (if \<not> fst g then (False, snd g) else if \<not> fst h then (False, snd h) else i)"
    unfolding i_def h_def g_def r0_def by (rule allow_facts)
  show ?thesis
    using c0 c1 c2 c3 unfolding al hits_def by (auto split: if_splits)
qed

lemma check_key_ttl [frame_simps, simp]:
  "rl_bucket_ttl (snd (check_key t key rate rl)) = rl_bucket_ttl rl"
  by (auto simp: check_key_def Let_def split: option.splits)

lemma maybe_cleanup_ttl [frame_simps, simp]: "rl_bucket_ttl (maybe_cleanup t rl) = rl_bucket_ttl rl"
  by (simp add: maybe_cleanup_def Let_def)

lemma allow_ttl [frame_simps, simp]: "rl_bucket_ttl (snd (allow t d c rl)) = rl_bucket_ttl rl"
  by (simp add: allow_facts)

lemma key_rate_allow [simp]: "key_rate (snd (allow t d c rl)) k = key_rate rl k"
  by (simp add: key_rate_def)

lemma admitted_requests_credit:
  assumes "rl_wf rl" "before rl t0" "1 / 300 \<le> key_rate rl k" "rl_bucket_ttl rl = from_secs 300"
    "sorted (t0 # map fst calls)" "\<forall>call \<in> set calls. fst call \<le> T" "t0 \<le> T"
  shows "real (length (filter (hits k) (admitted_requests calls rl)))
    \<le> credit rl k t0 + key_rate rl k * as_secs_f64 (T - t0)"
  using assms
proof (induction calls arbitrary: rl t0)
  case Nil
  then have "0 \<le> credit rl k t0"
    by (auto simp: credit_def rl_wf_def split: option.splits)
  with Nil show ?case by simp
next
  case (Cons call calls)
  obtain t d c where call: "call = (t, d, c)" by (cases call)
  let ?rl = "snd (allow t d c rl)"
  have t: "t0 \<le> t" "t \<le> T" using Cons.prems by (auto simp: call)
  then have bt: "before rl t" using Cons.prems(2) before_mono by blast
  have "real (length (filter (hits k) (admitted_requests calls ?rl)))
      \<le> credit ?rl k t + key_rate rl k * as_secs_f64 (T - t)"
    using Cons.IH [of ?rl t] Cons.prems t bt by (simp add: call allow_wf before_allow)
  moreover note credit_allow [OF Cons.prems(1) bt Cons.prems(3,4), of d c]
  moreover note credit_later [OF Cons.prems(2) t(1), of k]
  moreover have "key_rate rl k * as_secs_f64 (T - t0)
      = key_rate rl k * as_secs_f64 (t - t0) + key_rate rl k * as_secs_f64 (T - t)"
    using t by (simp add: as_secs_add [symmetric] distrib_left [symmetric])
  ultimately show ?case
    using Cons.prems(3) by (auto simp: call case_prod_unfold Let_def)
qed

section \<open>Facts about the sliding window\<close>

text \<open>
  The contract of a window check, stated over the whole window: on a window in time order the
  check keeps exactly the instants that are not yet expired, admits the call when fewer than
  \<open>limit\<close> of them are left, and then records it. Popping from the front is an
  implementation of this contract.
\<close>

locale sliding_window =
  fixes check :: "instant list \<Rightarrow> nat \<Rightarrow> duration \<Rightarrow> instant \<Rightarrow> bool \<times> instant list"
  assumes check_admits: "sorted w \<Longrightarrow>
      fst (check w limit dur now) \<longleftrightarrow> length (filter (\<lambda>t. now - t < dur) w) < limit"
    and check_window: "sorted w \<Longrightarrow>
      snd (check w limit dur now) = filter (\<lambda>t. now - t < dur) w
        @ (if fst (check w limit dur now) then [now] else [])"
begin

definition covers :: "duration \<Rightarrow> instant \<Rightarrow> instant list \<Rightarrow> instant list \<Rightarrow> bool" where
  "covers dur now w h \<longleftrightarrow> sorted w \<and> (\<forall>a \<in> set w. a \<le> now) \<and> (\<forall>a \<in> set h. a \<le> now) \<and>
     (\<forall>t \<ge> now. filter (\<lambda>a. t - a < dur) w = filter (\<lambda>a. t - a < dur) h)"

definition bounded :: "nat \<Rightarrow> duration \<Rightarrow> instant list \<Rightarrow> bool" where
  "bounded limit dur h \<longleftrightarrow> (\<forall>T. length (filter (\<lambda>a. a \<le> T \<and> T - a < dur) h) \<le> limit)"

lemma covers_step:
  assumes "covers dur now w h" "now \<le> t"
  shows "covers dur t (snd (check w limit dur t))
    (h @ (if fst (check w limit dur t) then [t] else []))"
proof -
  have "filter (\<lambda>a. T - a < dur) (filter (\<lambda>a. t - a < dur) w) = filter (\<lambda>a. T - a < dur) h"
    if "t \<le> T" for T
  proof -
    have "filter (\<lambda>a. T - a < dur) (filter (\<lambda>a. t - a < dur) w) = filter (\<lambda>a. T - a < dur) w"
      using that unfolding filter_filter by (intro filter_cong) auto
    also have "\<dots> = filter (\<lambda>a. T - a < dur) h"
      using assms that by (simp add: covers_def)
    finally show ?thesis .
  qed
  moreover have "sorted w" "\<forall>a \<in> set w. a \<le> t" "\<forall>a \<in> set h. a \<le> t"
    using assms by (auto simp: covers_def)
  ultimately show ?thesis
    unfolding covers_def check_window [OF \<open>sorted w\<close>]
    by (simp add: sorted_append sorted_wrt_filter del: filter_filter)
qed

lemma bounded_step:
  assumes "covers dur now w h" "now \<le> t" "bounded limit dur h" "fst (check w limit dur t)"
  shows "bounded limit dur (h @ [t])"
  unfolding bounded_def
proof
  fix T
  show "length (filter (\<lambda>a. a \<le> T \<and> T - a < dur) (h @ [t])) \<le> limit"
  proof (cases "t \<le> T \<and> T - t < dur")
    case False
    then have "filter (\<lambda>a. a \<le> T \<and> T - a < dur) (h @ [t]) = filter (\<lambda>a. a \<le> T \<and> T - a < dur) h"
      by simp
    with assms(3) show ?thesis by (simp add: bounded_def)
  next
    case True
    have "filter (\<lambda>a. a \<le> T \<and> T - a < dur) h
        = filter (\<lambda>a. a \<le> T \<and> T - a < dur) (filter (\<lambda>a. t - a < dur) h)"
      using True unfolding filter_filter by (intro filter_cong) auto
    then have "length (filter (\<lambda>a. a \<le> T \<and> T - a < dur) h)
        \<le> length (filter (\<lambda>a. t - a < dur) h)"
      by (metis length_filter_le)
    also have "\<dots> < limit"
      using assms by (auto simp: covers_def check_admits)
    finally show ?thesis by simp
  qed
qed

lemma accepted_bounded:
  assumes "covers dur now w h" "sorted (now # ts)" "bounded limit dur h"
  shows "bounded limit dur (h @ accepted_instants check limit dur ts w)"
  using assms
proof (induction ts arbitrary: now w h)
  case Nil
  then show ?case by simp
next
  case (Cons t ts)
  let ?h = "h @ (if fst (check w limit dur t) then [t] else [])"
  have cov: "covers dur t (snd (check w limit dur t)) ?h"
    using Cons.prems by (intro covers_step [of dur now]) auto
  have "bounded limit dur ?h"
    using Cons.prems bounded_step by auto
  then have "bounded limit dur (?h @ accepted_instants check limit dur ts (snd (check w limit dur t)))"
    using Cons.prems by (intro Cons.IH [OF cov]) auto
  then show ?case by (simp add: case_prod_unfold Let_def)
qed

lemma window_bound:
  assumes "sorted ts"
  shows "length (filter (\<lambda>a. a \<le> T \<and> T - a < dur) (accepted_instants check limit dur ts [])) \<le> limit"
proof -
  have "bounded limit dur ([] @ accepted_instants check limit dur ts [])"
    by (rule accepted_bounded [where now = 0]) (use assms in \<open>auto simp: covers_def bounded_def\<close>)
  then show ?thesis by (simp add: bounded_def)
qed

end

lemma pop_expired_filter:
  "sorted w \<Longrightarrow> pop_expired now dur w = filter (\<lambda>t. now - t < dur) w"
proof (induction w)
  case Nil
  then show ?case by simp
next
  case (Cons t w)
  show ?case
  proof (cases "dur \<le> now - t")
    case True
    with Cons show ?thesis by (simp add: saturating_duration_since_def)
  next
    case False
    with Cons.prems have "filter (\<lambda>t. now - t < dur) w = w"
      by (auto simp: filter_id_conv intro: le_less_trans [OF diff_le_mono2])
    with False show ?thesis by (simp add: saturating_duration_since_def)
  qed
qed

lemma prune_and_check_inner_eq: "prune_and_check_inner = prune_and_check"
  by (simp add: fun_eq_iff prune_and_check_def prune_and_check_inner_def)

interpretation device_window: sliding_window prune_and_check
  by unfold_locales (auto simp: prune_and_check_def Let_def pop_expired_filter)

interpretation global_window: sliding_window prune_and_check_inner
  by unfold_locales (auto simp: prune_and_check_inner_def Let_def pop_expired_filter)

text \<open>
  The windows of different devices are independent: what the limiter admits for one device is
  what its own window admits of that device's attempts.
\<close>

definition device_window_of :: "connection_rate_limiter \<Rightarrow> string \<Rightarrow> instant list" where
  "device_window_of cl d = (case map_of (cl_device_windows cl) d of Some w \<Rightarrow> w | None \<Rightarrow> [])"

lemma allow_device_facts:
  "fst (allow_device t d cl) =
     fst (prune_and_check (device_window_of cl d) (cl_device_limit cl) (cl_device_window cl) t)"
  "device_window_of (snd (allow_device t d cl)) e =
     (if e = d
      then snd (prune_and_check (device_window_of cl d) (cl_device_limit cl) (cl_device_window cl) t)
      else device_window_of cl e)"
  "cl_device_limit (snd (allow_device t d cl)) = cl_device_limit cl"
  "cl_device_window (snd (allow_device t d cl)) = cl_device_window cl"
  "cl_global_window_data (snd (allow_device t d cl)) = cl_global_window_data cl"
  by (simp_all add: allow_device_def device_window_of_def Let_def case_prod_unfold)

lemma admitted_for_device:
  "map fst (filter (\<lambda>(t, e). e = d) (admitted_connections calls cl)) =
     accepted_instants prune_and_check (cl_device_limit cl) (cl_device_window cl)
       (map fst (filter (\<lambda>(t, e). e = d) calls)) (device_window_of cl d)"
proof (induction calls arbitrary: cl)
  case Nil
  then show ?case by simp
next
  case (Cons c calls)
  obtain t e where "c = (t, e)" by (cases c)
  with Cons.IH [of "snd (allow_device t e cl)"] show ?case
    by (simp add: case_prod_unfold allow_device_facts)
qed

section \<open>Facts about the bandwidth windows\<close>

lemma record_key_other [frame_simps]:
  "k \<noteq> key \<Longrightarrow> map_of (bt_windows (snd (record_key t key n limit bt))) k = map_of (bt_windows bt) k"
  by (simp add: record_key_def Let_def split: option.splits)

lemma record_key_limits [frame_simps, simp]:
  "bt_device_limit (snd (record_key t key n limit bt)) = bt_device_limit bt"
  "bt_controller_limit (snd (record_key t key n limit bt)) = bt_controller_limit bt"
  "bt_global_limit (snd (record_key t key n limit bt)) = bt_global_limit bt"
  by (simp_all add: record_key_def Let_def split: option.splits)

lemma record_key_same_window:
  assumes "map_of (bt_windows bt) key = Some (m, s) \<or> map_of (bt_windows bt) key = None \<and> (m, s) = (0, t)"
    and "saturating_sub_u64 t s < 1000000000" and "unat m + unat n < 2 ^ 64"
  shows "fst (record_key t key n limit bt) \<longleftrightarrow> unat m + unat n \<le> unat limit"
    and "map_of (bt_windows (snd (record_key t key n limit bt))) key = Some (m + n, s)"
proof -
  have "checked_add_u64 m n = Some (m + n)" "unat (m + n) = unat m + unat n"
    using assms(3) by (simp_all add: checked_add_u64_def unat_word_ariths)
  moreover from assms(2) have "\<not> 1000000000 \<le> saturating_sub_u64 t s" by simp
  ultimately show "fst (record_key t key n limit bt) \<longleftrightarrow> unat m + unat n \<le> unat limit"
    and "map_of (bt_windows (snd (record_key t key n limit bt))) key = Some (m + n, s)"
    using assms(1) by (auto simp: record_key_def Let_def word_le_nat_alt)
qed

lemma bandwidth_run_append:
  "bandwidth_run key limit (xs @ ys) bt =
     (fst (bandwidth_run key limit xs bt) @ fst (bandwidth_run key limit ys (snd (bandwidth_run key limit xs bt))),
      snd (bandwidth_run key limit ys (snd (bandwidth_run key limit xs bt))))"
  by (induction xs arbitrary: bt) (auto simp: case_prod_unfold Let_def)

lemma bandwidth_run_window:
  assumes "map_of (bt_windows bt) key = Some (m, s)"
    and "\<forall>x \<in> set xs. in_window s x" and "unat m + bytes_of xs < 2 ^ 64"
  shows "fst (bandwidth_run key limit xs bt) =
      map (\<lambda>i. unat m + bytes_of (take (Suc i) xs) \<le> unat limit) [0..<length xs]
    \<and> (\<exists>m'. map_of (bt_windows (snd (bandwidth_run key limit xs bt))) key = Some (m', s))"
  using assms
proof (induction xs arbitrary: bt m)
  case Nil
  then show ?case by simp
next
  case (Cons x xs)
  obtain t n where x: "x = (t, n)" by (cases x)
  have mn: "unat m + unat n < 2 ^ 64" and t: "saturating_sub_u64 t s < 1000000000"
    using Cons.prems by (auto simp: x in_window_def bytes_of_def)
  note step = record_key_same_window [OF disjI1 [OF Cons.prems(1)] t mn, of limit]
  have un: "unat (m + n) = unat m + unat n" using mn by (simp add: unat_word_ariths)
  have "fst (bandwidth_run key limit xs (snd (record_key t key n limit bt))) =
      map (\<lambda>i. unat (m + n) + bytes_of (take (Suc i) xs) \<le> unat limit) [0..<length xs]
    \<and> (\<exists>m'. map_of (bt_windows (snd (bandwidth_run key limit xs (snd (record_key t key n limit bt))))) key = Some (m', s))"
    using Cons.prems by (intro Cons.IH step(2)) (auto simp: x un bytes_of_def)
  then show ?case
    by (simp add: x case_prod_unfold step(1) un upt_conv_Cons map_Suc_upt [symmetric] add.assoc
        o_def Let_def bytes_of_def del: upt_Suc)
qed

text \<open>A key has no window yet, or one that is over when the next transfer comes.\<close>

definition window_over :: "bandwidth_tracker \<Rightarrow> string \<Rightarrow> (u64 \<times> u64) list \<Rightarrow> bool" where
  "window_over bt key xs \<longleftrightarrow>
     (case map_of (bt_windows bt) key of None \<Rightarrow> True | Some (m, s) \<Rightarrow> xs = [] \<or> \<not> in_window s (hd xs))"

lemma record_key_new_window:
  assumes "window_over bt key ((t, n) # xs)"
  shows "fst (record_key t key n limit bt) \<longleftrightarrow> unat n \<le> unat limit"
    and "map_of (bt_windows (snd (record_key t key n limit bt))) key = Some (n, t)"
proof -
  have "checked_add_u64 0 n = Some n" using unsigned_less [of n] by (simp add: checked_add_u64_def)
  moreover have "saturating_sub_u64 t t = 0" by (simp add: saturating_sub_u64_def)
  ultimately show "fst (record_key t key n limit bt) \<longleftrightarrow> unat n \<le> unat limit"
    and "map_of (bt_windows (snd (record_key t key n limit bt))) key = Some (n, t)"
    using assms
    by (auto simp: window_over_def in_window_def record_key_def Let_def word_le_nat_alt not_less split: option.splits)
qed

lemma bandwidth_run_first_window:
  assumes "window_over bt key (x # xs)" "\<forall>y \<in> set xs. in_window (fst x) y" "bytes_of (x # xs) < 2 ^ 64"
  shows "fst (bandwidth_run key limit (x # xs) bt) = window_answers limit (x # xs)
    \<and> (\<exists>m'. map_of (bt_windows (snd (bandwidth_run key limit (x # xs) bt))) key = Some (m', fst x))"
proof -
  obtain t n where x: "x = (t, n)" by (cases x)
  note first = record_key_new_window [OF assms(1) [unfolded x], of limit]
  have "unat n + bytes_of xs < 2 ^ 64" using assms(3) by (simp add: bytes_of_def x)
  from bandwidth_run_window [OF first(2) _ this, of limit] assms(2) show ?thesis
    by (simp add: x first(1) case_prod_unfold Let_def window_answers_def upt_conv_Cons map_Suc_upt [symmetric]
        o_def bytes_of_def del: upt_Suc)
qed

lemma bandwidth_run_windows:
  assumes "window_over bt key xs" "\<forall>w \<in> set (windows_of xs). bytes_of w < 2 ^ 64"
  shows "fst (bandwidth_run key limit xs bt) = concat (map (window_answers limit) (windows_of xs))"
  using assms
proof (induction xs arbitrary: bt rule: windows_of.induct)
  case (2 x xs)
  let ?w = "takeWhile (in_window (fst x)) xs" and ?rest = "dropWhile (in_window (fst x)) xs"
  let ?bt = "snd (bandwidth_run key limit (x # ?w) bt)"
  have first: "fst (bandwidth_run key limit (x # ?w) bt) = window_answers limit (x # ?w)"
    "\<exists>m'. map_of (bt_windows ?bt) key = Some (m', fst x)"
    using bandwidth_run_first_window [of bt key x ?w limit] 2 (2,3)
    by (auto simp: window_over_def dest: set_takeWhileD split: option.splits)
  then have "window_over ?bt key ?rest"
    using hd_dropWhile [of "in_window (fst x)" xs]
    by (auto simp: window_over_def simp del: dropWhile_eq_Nil_conv)
  from "2.IH" [OF this] "2.prems" have "fst (bandwidth_run key limit ?rest ?bt) = concat (map (window_answers limit) (windows_of ?rest))"
    by simp
  with first(1) bandwidth_run_append [of key limit "x # ?w" ?rest bt] show ?case by simp
qed simp

section \<open>Properties\<close>

lemma before_run:
  assumes "before rl t0" "\<forall>call \<in> set calls. fst call \<le> T" "sorted (t0 # map fst calls)" "t0 \<le> T"
  shows "before (fold (\<lambda>(t, d, c) rl. snd (allow t d c rl)) calls rl) T"
  using assms
proof (induction calls arbitrary: rl t0)
  case Nil
  then show ?case by (simp add: before_mono)
next
  case (Cons call calls)
  obtain t d c where call: "call = (t, d, c)" by (cases call)
  have "before rl t" using Cons.prems before_mono [of rl t0 t] by (simp add: call)
  then have "before (snd (allow t d c rl)) t" by (rule before_allow)
  with Cons show ?case by (simp add: call)
qed

lemma run_frame:
  "key_rate (fold (\<lambda>(t, d, c) rl. snd (allow t d c rl)) calls rl) k = key_rate rl k"
  "rl_bucket_ttl (fold (\<lambda>(t, d, c) rl. snd (allow t d c rl)) calls rl) = rl_bucket_ttl rl"
  by (induction calls arbitrary: rl) auto

lemma limiter_new_key_rate:
  "key_rate (rate_limiter_new cfg) ''global'' = real (global_requests_per_second cfg)"
  "key_rate (rate_limiter_new cfg) (device_key d) = real (device_requests_per_second cfg)"
  "key_rate (rate_limiter_new cfg) (controller_key c) = real (controller_requests_per_minute cfg) / 60"
  by (simp_all add: rate_limiter_new_def)

text \<open>
  C24. Whatever the limiter has seen before, the requests it grants against one bucket (the
  global one, a device's or a controller's) in an interval are at most a burst of one second's
  worth (at least one) plus the configured rate times the length of the interval; the periodic
  removal of idle buckets does not break the bound.
\<close>

theorem request_admission_bound:
  assumes "sorted (map fst earlier @ t0 # map fst calls)"
    and "\<forall>call \<in> set calls. fst call \<le> T" and "t0 \<le> T"
    and "1 / 300 \<le> key_rate (rate_limiter_new cfg) k"
  shows "real (length (filter (hits k) (admitted_requests calls
      (fold (\<lambda>(t, d, c) rl. snd (allow t d c rl)) earlier (rate_limiter_new cfg)))))
    \<le> max 1 (key_rate (rate_limiter_new cfg) k)
       + key_rate (rate_limiter_new cfg) k * as_secs_f64 (T - t0)"
proof -
  let ?rl = "fold (\<lambda>(t, d, c) rl. snd (allow t d c rl)) earlier (rate_limiter_new cfg)"
  have ttl: "rl_bucket_ttl (rate_limiter_new cfg) = from_secs 300"
    by (simp add: rate_limiter_new_def)
  have wf: "rl_wf ?rl" by (rule limiter.run_invar_total [OF rate_limiter_new_wf]) simp
  have bf: "before ?rl t0"
    by (rule before_run [of _ 0]) (use assms(1) in \<open>auto simp: before_def rate_limiter_new_def sorted_append\<close>)
  have "real (length (filter (hits k) (admitted_requests calls ?rl)))
      \<le> credit ?rl k t0 + key_rate ?rl k * as_secs_f64 (T - t0)"
    by (rule admitted_requests_credit [OF wf bf])
      (use assms ttl in \<open>auto simp: run_frame sorted_append\<close>)
  with credit_le [of ?rl k t0] show ?thesis by (simp add: run_frame)
qed

theorem request_admission_bound_witness:
  "real (length (filter (hits ''global'') (admitted_requests [(5, ''d'', ''c''), (7, ''d'', ''c'')]
      (fold (\<lambda>(t, d, c) rl. snd (allow t d c rl)) [(1, ''d'', ''c'')]
        (rate_limiter_new default_rate_limit_config)))))
    \<le> max 1 100000 + 100000 * as_secs_f64 (9 - 2)"
proof -
  have r: "key_rate (rate_limiter_new default_rate_limit_config) ''global'' = 100000"
    by (simp add: rate_limiter_new_def default_rate_limit_config_def)
  show ?thesis
    unfolding r [symmetric]
    by (rule request_admission_bound) (simp_all add: r del: key_rate_simps)
qed

text \<open>
  A controller whose rate is below one per second: its bucket never holds a whole token, so a
  request of it is granted only while it has no bucket, and a bucket goes only when nothing has
  touched it for 300 seconds.
\<close>

definition small_bucket :: "rate_limiter \<Rightarrow> string \<Rightarrow> bool" where
  "small_bucket rl c \<longleftrightarrow> (\<forall>b. map_of (rl_buckets rl) (controller_key c) = Some b \<longrightarrow> b_tokens b < 1)"

definition starved :: "rate_limiter \<Rightarrow> string \<Rightarrow> instant \<Rightarrow> instant \<Rightarrow> bool" where
  "starved rl c since t \<longleftrightarrow>
     (case map_of (rl_buckets rl) (controller_key c) of
        None \<Rightarrow> since + from_secs 300 \<le> t
      | Some b \<Rightarrow> b_tokens b < 1 \<and> since \<le> b_last b)"

lemma refill_last: "b_last b \<le> b_last (refill t rate b)"
  by (auto simp: refill_def Let_def saturating_duration_since_def)

lemma cleanup_bucket:
  assumes "rl_wf rl" "rl_bucket_ttl rl = from_secs 300"
  shows "map_of (rl_buckets (maybe_cleanup t rl)) k = map_of (rl_buckets rl) k
    \<or> map_of (rl_buckets (maybe_cleanup t rl)) k = None
      \<and> (\<exists>b. map_of (rl_buckets rl) k = Some b \<and> b_last b + from_secs 300 \<le> t)"
  using assms
  by (force simp: maybe_cleanup_def Let_def map_of_fold_delete saturating_duration_since_def from_secs_def
      rl_wf_def dm_wf_def split: if_splits)

lemma starved_cleanup:
  assumes "rl_wf rl" "rl_bucket_ttl rl = from_secs 300" "starved rl c since t0" "t0 \<le> t"
  shows "starved (maybe_cleanup t rl) c since t"
  using cleanup_bucket [OF assms(1,2), of t "controller_key c"] assms(3,4)
  by (auto simp: starved_def split: option.splits)

lemma small_cleanup: "small_bucket rl c \<Longrightarrow> small_bucket (maybe_cleanup t rl) c"
  by (auto simp: small_bucket_def dest: maybe_cleanup_map_of)

text \<open>What \<open>allow\<close> does to the buckets of the controllers: the clean-up and at most one check.\<close>

lemma allow_controller_bucket:
  obtains (refused) "\<not> fst (allow t d c' rl)" "\<And>c. map_of (rl_buckets (snd (allow t d c' rl))) (controller_key c) =
      map_of (rl_buckets (maybe_cleanup t rl)) (controller_key c)"
  | (checked) r where "allow t d c' rl = check_key t (controller_key c') (rl_controller_rate rl) r"
      "\<And>c. map_of (rl_buckets r) (controller_key c) = map_of (rl_buckets (maybe_cleanup t rl)) (controller_key c)"
proof -
  let ?r0 = "maybe_cleanup t rl"
  let ?g = "check_key t ''global'' (key_rate ?r0 ''global'') ?r0"
  let ?h = "check_key t (device_key d) (key_rate (snd ?g) (device_key d)) (snd ?g)"
  have same: "map_of (rl_buckets (snd ?h)) (controller_key c) = map_of (rl_buckets ?r0) (controller_key c)"
    "map_of (rl_buckets (snd ?g)) (controller_key c) = map_of (rl_buckets ?r0) (controller_key c)" for c
    by (simp_all add: check_key_other)
  show ?thesis
  proof (cases "fst ?g \<and> fst ?h")
    case True
    then have "allow t d c' rl = check_key t (controller_key c') (rl_controller_rate rl) (snd ?h)"
      by (simp add: allow_facts)
    then show ?thesis using same(1) by (rule checked)
  next
    case False
    then have "allow t d c' rl = (False, snd ?g) \<or> allow t d c' rl = (False, snd ?h)"
      unfolding allow_facts [of t d c' rl] by auto
    then show ?thesis using same by (intro refused) auto
  qed
qed

lemma starved_cong:
  "map_of (rl_buckets rl) (controller_key c) = map_of (rl_buckets rl') (controller_key c) \<Longrightarrow>
     starved rl c since t = starved rl' c since t"
  "map_of (rl_buckets rl) (controller_key c) = map_of (rl_buckets rl') (controller_key c) \<Longrightarrow>
     small_bucket rl c = small_bucket rl' c"
  by (simp_all add: starved_def small_bucket_def)

lemma starved_other:
  "c' \<noteq> c \<Longrightarrow> starved (snd (check_key t (controller_key c') rate rl)) c since t' = starved rl c since t'"
  "c' \<noteq> c \<Longrightarrow> small_bucket (snd (check_key t (controller_key c') rate rl)) c = small_bucket rl c"
  by (simp_all add: starved_def small_bucket_def check_key_other)

lemma starved_check:
  assumes "rate < 1" "starved rl c since t" "since \<le> t"
  shows "starved (snd (check_key t (controller_key c) rate rl)) c since t
    \<and> (fst (check_key t (controller_key c) rate rl) \<longrightarrow> since + from_secs 300 \<le> t)"
proof (cases "map_of (rl_buckets rl) (controller_key c)")
  case None
  then show ?thesis using assms by (auto simp: starved_def check_key_def)
next
  case (Some b)
  then have small: "b_tokens (refill t rate b) < 1" "since \<le> b_last (refill t rate b)"
    using assms refill_small [of b rate t] refill_last [of b t rate] by (auto simp: starved_def)
  with Some assms show ?thesis by (auto simp: starved_def check_key_def Let_def)
qed

lemma small_check:
  assumes "rate < 1" "small_bucket rl c"
  shows "small_bucket (snd (check_key t (controller_key c) rate rl)) c
    \<and> (fst (check_key t (controller_key c) rate rl) \<longrightarrow>
        starved (snd (check_key t (controller_key c) rate rl)) c t t)"
proof (cases "map_of (rl_buckets rl) (controller_key c)")
  case None
  then show ?thesis using assms by (auto simp: starved_def small_bucket_def check_key_def)
next
  case (Some b)
  then have "b_tokens (refill t rate b) < 1"
    using assms refill_small [of b rate t] by (auto simp: small_bucket_def)
  with Some assms show ?thesis by (auto simp: small_bucket_def check_key_def Let_def)
qed

lemma starved_allow:
  assumes "rl_wf rl" "rl_bucket_ttl rl = from_secs 300" "rl_controller_rate rl < 1"
    and "starved rl c since t0" "since \<le> t" "t0 \<le> t"
  shows "starved (snd (allow t d c' rl)) c since t
    \<and> (fst (allow t d c' rl) \<and> c' = c \<longrightarrow> since + from_secs 300 \<le> t)"
proof (cases rule: allow_controller_bucket [of t d c' rl])
  case refused
  with starved_cleanup [OF assms(1,2,4,6)] starved_cong(1) [OF refused(2), of c] show ?thesis by simp
next
  case (checked r)
  then have "starved r c since t"
    using starved_cleanup [OF assms(1,2,4,6)] starved_cong(1) [OF checked(2), of c] by simp
  with starved_check [OF assms(3) this assms(5)] starved_other(1) [of c' c t _ r since t] show ?thesis
    unfolding checked(1) by (cases "c' = c") simp_all
qed

lemma small_allow:
  assumes "rl_controller_rate rl < 1" "small_bucket rl c"
  shows "small_bucket (snd (allow t d c' rl)) c
    \<and> (fst (allow t d c' rl) \<and> c' = c \<longrightarrow> starved (snd (allow t d c' rl)) c t t)"
proof (cases rule: allow_controller_bucket [of t d c' rl])
  case refused
  with small_cleanup [OF assms(2)] starved_cong(2) [OF refused(2), of c] show ?thesis by simp
next
  case (checked r)
  then have "small_bucket r c"
    using small_cleanup [OF assms(2)] starved_cong(2) [OF checked(2), of c] by simp
  with small_check [OF assms(1) this] starved_other(2) [of c' c t _ r] show ?thesis
    unfolding checked(1) by (cases "c' = c") simp_all
qed

lemma admitted_after_starved:
  assumes "rl_wf rl" "rl_bucket_ttl rl = from_secs 300" "rl_controller_rate rl < 1"
    and "starved rl c since t0" "since \<le> t0" "sorted (t0 # map fst calls)"
    and "x \<in> set (admitted_requests calls rl)" "snd (snd x) = c"
  shows "since + from_secs 300 \<le> fst x"
  using assms
proof (induction calls arbitrary: rl t0)
  case Nil
  then show ?case by simp
next
  case (Cons call calls)
  obtain t d c' where call: "call = (t, d, c')" by (cases call)
  have t: "t0 \<le> t" "since \<le> t" using Cons.prems(5,6) by (auto simp: call)
  note step = starved_allow [OF Cons.prems(1-4) t(2,1), of d c']
  show ?case
  proof (cases "fst (allow t d c' rl) \<and> x = (t, d, c')")
    case True
    with step Cons.prems(8) show ?thesis by simp
  next
    case False
    with Cons.prems(7) have "x \<in> set (admitted_requests calls (snd (allow t d c' rl)))"
      by (auto simp: call case_prod_unfold Let_def split: if_splits)
    from Cons.IH [OF _ _ _ conjunct1 [OF step] t(2) _ this Cons.prems(8)] Cons.prems show ?thesis
      by (simp add: call allow_wf)
  qed
qed

lemma admitted_apart:
  assumes "rl_wf rl" "rl_bucket_ttl rl = from_secs 300" "rl_controller_rate rl < 1"
    and "small_bucket rl c" "sorted (map fst calls)"
  shows "sorted_wrt (\<lambda>a b. fst a + from_secs 300 \<le> fst b)
    (filter (\<lambda>x. snd (snd x) = c) (admitted_requests calls rl))"
  using assms
proof (induction calls arbitrary: rl)
  case Nil
  then show ?case by simp
next
  case (Cons call calls)
  obtain t d c' where call: "call = (t, d, c')" by (cases call)
  let ?rl = "snd (allow t d c' rl)"
  note step = small_allow [OF Cons.prems(3,4), of t d c']
  have later: "t + from_secs 300 \<le> fst x"
    if "fst (allow t d c' rl)" "c' = c" "x \<in> set (admitted_requests calls ?rl)" "snd (snd x) = c" for x
    using admitted_after_starved [OF _ _ _ _ _ _ that(3,4), of t t] step that(1,2) Cons.prems
    by (simp add: allow_wf call)
  have "sorted_wrt (\<lambda>a b. fst a + from_secs 300 \<le> fst b)
      (filter (\<lambda>x. snd (snd x) = c) (admitted_requests calls ?rl))"
    using Cons.IH [OF _ _ _ conjunct1 [OF step]] Cons.prems by (simp add: allow_wf call)
  with later show ?case by (auto simp: call case_prod_unfold Let_def)
qed

text \<open>
  C39. A controller limit below sixty requests per minute starves the controllers: whatever they
  and the others send, any two requests of one controller that the limiter admits are at least
  300 seconds apart (the time after which an idle bucket may be removed), instead of the
  configured number per minute.
\<close>

theorem slow_controller_starved:
  assumes "controller_requests_per_minute cfg < 60" "sorted (map fst calls)"
  shows "sorted_wrt (\<lambda>a b. fst a + from_secs 300 \<le> fst b)
    (filter (\<lambda>(t, d, c'). c' = c) (admitted_requests calls (rate_limiter_new cfg)))"
proof -
  have "rl_controller_rate (rate_limiter_new cfg) < 1" "rl_bucket_ttl (rate_limiter_new cfg) = from_secs 300"
    "small_bucket (rate_limiter_new cfg) c"
    using assms(1) by (simp_all add: rate_limiter_new_def small_bucket_def)
  from admitted_apart [OF rate_limiter_new_wf this(2,1,3) assms(2)] show ?thesis
    by (simp add: case_prod_unfold)
qed

definition sample_slow_limiter :: rate_limiter where
  "sample_slow_limiter = rate_limiter_new (default_rate_limit_config\<lparr>controller_requests_per_minute := 30\<rparr>)"

theorem slow_controller_starved_witness:
  "filter (\<lambda>(t, d, c'). c' = ''c'') (admitted_requests [(0, ''d'', ''c''), (from_secs 299, ''d'', ''c'')] sample_slow_limiter)
     = [(0, ''d'', ''c'')]"
proof -
  let ?calls = "[(0, ''d'', ''c''), (from_secs 299, ''d'', ''c'')]"
  have first: "fst (allow 0 ''d'' ''c'' sample_slow_limiter)"
    by (simp add: allow_def maybe_cleanup_def check_key_def sample_slow_limiter_def rate_limiter_new_def
        default_rate_limit_config_def Let_def CLEANUP_EVERY_def)
  have "sorted_wrt (\<lambda>a b. fst a + from_secs 300 \<le> fst b)
      (filter (\<lambda>(t, d, c'). c' = ''c'') (admitted_requests ?calls sample_slow_limiter))"
    unfolding sample_slow_limiter_def by (rule slow_controller_starved) (simp_all add: from_secs_def)
  with first show ?thesis
    by (auto simp: case_prod_unfold Let_def from_secs_def split: if_splits)
qed

text \<open>
  C31. In any window of sixty seconds the connection limiter admits at most
  \<open>device_connection_per_minute\<close> connections of a device, whatever other devices do.
\<close>

theorem device_connection_bound:
  assumes "sorted (map fst calls)"
  shows "length (filter (\<lambda>(t, e). e = d \<and> t \<le> T \<and> T - t < from_secs 60)
      (admitted_connections calls (connection_rate_limiter_new cfg)))
    \<le> device_connection_per_minute cfg"
proof -
  let ?cl = "connection_rate_limiter_new cfg"
  let ?P = "\<lambda>t. t \<le> T \<and> T - t < from_secs 60"
  let ?ts = "map fst (filter (\<lambda>(t, e). e = d) calls)"
  have "sorted ?ts" using assms by (simp add: sorted_map sorted_wrt_filter)
  then have "length (filter ?P (map fst (filter (\<lambda>(t, e). e = d) (admitted_connections calls ?cl))))
      \<le> cl_device_limit ?cl"
    using device_window.window_bound [of ?ts T "from_secs 60" "cl_device_limit ?cl"]
    by (simp add: admitted_for_device device_window_of_def connection_rate_limiter_new_def)
  then show ?thesis
    by (simp add: filter_map filter_filter o_def case_prod_unfold connection_rate_limiter_new_def
        conj_commute)
qed

theorem device_connection_bound_witness:
  "length (filter (\<lambda>(t, e). e = ''d'' \<and> t \<le> 3 \<and> 3 - t < from_secs 60)
      (admitted_connections [(1, ''d''), (2, ''e''), (3, ''d'')]
        (connection_rate_limiter_new (default_rate_limit_config\<lparr>device_connection_per_minute := 1\<rparr>))))
    \<le> 1"
  using device_connection_bound [of "[(1, ''d''), (2, ''e''), (3, ''d'')]" "''d''" 3
      "default_rate_limit_config\<lparr>device_connection_per_minute := 1\<rparr>"]
  by simp

text \<open>
  C32. The bandwidth windows of a key, however many there are: the transfers fall into windows,
  each starting with the first transfer a second or more after the start of the one before, and
  a transfer is accepted exactly when the bytes of its own window so far, this transfer and the
  refused ones included, are within the limit; nothing is carried over from one window to
  the next.
\<close>

theorem bandwidth_window_exact:
  assumes "map_of (bt_windows bt) key = None" and "\<forall>w \<in> set (windows_of calls). bytes_of w < 2 ^ 64"
  shows "fst (bandwidth_run key limit calls bt) = concat (map (window_answers limit) (windows_of calls))"
  by (rule bandwidth_run_windows) (use assms in \<open>auto simp: window_over_def\<close>)

theorem bandwidth_window_exact_witness:
  "fst (bandwidth_run ''global'' 100 [(0, 60), (1, 50), (2, 1), (1000000000, 60), (1000000001, 40), (1999999999, 1)]
      (bandwidth_tracker_new default_rate_limit_config))
    = [True, False, False, True, True, False]"
proof -
  let ?calls = "[(0, 60), (1, 50), (2, 1), (1000000000, 60), (1000000001, 40), (1999999999, 1)] :: (u64 \<times> u64) list"
  have w: "windows_of ?calls = [[(0, 60), (1, 50), (2, 1)], [(1000000000, 60), (1000000001, 40), (1999999999, 1)]]"
    by (simp add: in_window_def saturating_sub_u64_def)
  show ?thesis
    using bandwidth_window_exact [of "bandwidth_tracker_new default_rate_limit_config" "''global''" ?calls 100]
    unfolding w by (simp add: bandwidth_tracker_new_def window_answers_def bytes_of_def upt_conv_Cons del: upt_Suc)
qed

end
