(* ===== verification/Stream_Router.thy ===== *)
theory Stream_Router
  imports Relay_Config
begin

text \<open>
  \<^verbatim>\<open>crates/relay/src/stream.rs\<close>: the table of controller streams with its two indexes (streams
  of a device, streams of a controller), the caps on both, and the removal of idle streams.
  Every call of \<open>Instant::now()\<close> is an argument \<open>now\<close>; each operation is one atomic step. The
  lemmas show that the indexes always agree with the table and respect the caps.
\<close>

section \<open>Data\<close>

record stream_mapping =
  sm_stream_id :: string
  sm_device_id :: string
  sm_controller_id :: string
  sm_method_name :: string
  sm_created_at :: instant
  sm_last_activity :: instant
  sm_active_requests :: nat
  sm_controller_tx :: chan

datatype stream_router_error_kind = MaxStreamsExceeded | DeviceOffline | Internal

record stream_router_error =
  sre_kind :: stream_router_error_kind
  sre_message :: string

fun stream_router_error_kind_display :: "stream_router_error_kind \<Rightarrow> string" where
  "stream_router_error_kind_display MaxStreamsExceeded = ''max streams exceeded''"
| "stream_router_error_kind_display DeviceOffline = ''device offline''"
| "stream_router_error_kind_display Internal = ''internal error''"

definition stream_router_error_display :: "stream_router_error \<Rightarrow> string" where
  "stream_router_error_display e =
     stream_router_error_kind_display (sre_kind e) @ '': '' @ sre_message e"

record stream_router =
  sr_counter :: u64
  sr_mappings :: "(string, stream_mapping) dashmap"
  sr_device_to_streams :: "(string, string hashset) dashmap"
  sr_controller_to_streams :: "(string, string hashset) dashmap"
  sr_max_active_streams :: nat
  sr_max_concurrent_streams_per_controller :: nat
  sr_idle_timeout :: duration

definition stream_router_new :: "stream_config \<Rightarrow> stream_router" where
  "stream_router_new config =
     \<lparr>sr_counter = 1, sr_mappings = [], sr_device_to_streams = [], sr_controller_to_streams = [],
      sr_max_active_streams = max_active_streams config,
      sr_max_concurrent_streams_per_controller = max_concurrent_streams_per_controller config,
      sr_idle_timeout = from_secs (idle_timeout_seconds config)\<rparr>"

definition cleanup_interval :: "stream_router \<Rightarrow> duration" where
  "cleanup_interval r = max (sr_idle_timeout r) (from_secs 1)"

section \<open>Operations\<close>

definition stream_id_of :: "u64 \<Rightarrow> string" where
  "stream_id_of n = ''strm-'' @ dec_string (unat n)"

definition generate_stream_id :: "stream_router \<Rightarrow> string \<times> stream_router" where
  "generate_stream_id r = (stream_id_of (sr_counter r), r\<lparr>sr_counter := sr_counter r + 1\<rparr>)"

text \<open>
  Taking a stream out of an index entry: the entry goes away with its last stream. The code
  spells these lines out in the roll-back of \<open>create_mapping\<close>, in \<open>remove_mapping\<close> (twice) and
  in \<open>remove_all_for_device\<close>.
\<close>

definition index_remove ::
  "string \<Rightarrow> string \<Rightarrow> (string, string hashset) dashmap \<Rightarrow> (string, string hashset) dashmap" where
  "index_remove k sid idx =
     (case map_of idx k of
        None \<Rightarrow> idx
      | Some ids \<Rightarrow>
          (let ids1 = hs_remove sid ids
           in if ids1 = [] then AList.delete k idx else AList.update k ids1 idx))"

definition max_streams_error :: "string \<Rightarrow> string \<Rightarrow> nat \<Rightarrow> nat \<Rightarrow> stream_router_error" where
  "max_streams_error who name current cap =
     \<lparr>sre_kind = MaxStreamsExceeded,
      sre_message = who @ '' '' @ name @ '' has '' @ dec_string current
        @ '' active streams (max: '' @ dec_string cap @ '')''\<rparr>"

definition create_mapping ::
  "instant \<Rightarrow> string \<Rightarrow> string \<Rightarrow> string \<Rightarrow> chan \<Rightarrow> stream_router
     \<Rightarrow> (stream_router_error + string) \<times> stream_router" where
  "create_mapping now device_id controller_id method_name controller_tx r =
     (let (stream_id, r0) = generate_stream_id r;
          mapping = \<lparr>sm_stream_id = stream_id, sm_device_id = device_id,
             sm_controller_id = controller_id, sm_method_name = method_name,
             sm_created_at = now, sm_last_activity = now, sm_active_requests = 0,
             sm_controller_tx = controller_tx\<rparr>;
          dev_ids = (case map_of (sr_device_to_streams r0) device_id of
                       Some ids \<Rightarrow>
                         if sr_max_active_streams r0 \<le> length ids then Inl (length ids)
                         else Inr (List.insert stream_id ids)
                     | None \<Rightarrow> Inr [stream_id])
      in case dev_ids of
           Inl current \<Rightarrow>
             (Inl (max_streams_error ''device'' device_id current (sr_max_active_streams r0)), r0)
         | Inr ids1 \<Rightarrow>
             (let r1 = r0\<lparr>sr_device_to_streams :=
                         AList.update device_id ids1 (sr_device_to_streams r0)\<rparr>;
                  ctrl_ids = (case map_of (sr_controller_to_streams r1) controller_id of
                                Some ids \<Rightarrow>
                                  if sr_max_concurrent_streams_per_controller r1 \<le> length ids
                                  then Inl (length ids) else Inr (List.insert stream_id ids)
                              | None \<Rightarrow> Inr [stream_id])
              in case ctrl_ids of
                   Inl current \<Rightarrow>
                     (Inl (max_streams_error ''controller'' controller_id current
                             (sr_max_concurrent_streams_per_controller r1)),
                      r1\<lparr>sr_device_to_streams :=
                         index_remove device_id stream_id (sr_device_to_streams r1)\<rparr>)
                 | Inr ids2 \<Rightarrow>
                     (Inr stream_id,
                      r1\<lparr>sr_controller_to_streams :=
                           AList.update controller_id ids2 (sr_controller_to_streams r1),
                         sr_mappings := AList.update stream_id mapping (sr_mappings r1)\<rparr>)))"

definition remove_mapping :: "string \<Rightarrow> stream_router \<Rightarrow> stream_mapping option \<times> stream_router" where
  "remove_mapping stream_id r =
     (case map_of (sr_mappings r) stream_id of
        None \<Rightarrow> (None, r)
      | Some mapping \<Rightarrow>
          (Some mapping,
           r\<lparr>sr_mappings := AList.delete stream_id (sr_mappings r),
             sr_device_to_streams :=
               index_remove (sm_device_id mapping) stream_id (sr_device_to_streams r),
             sr_controller_to_streams :=
               index_remove (sm_controller_id mapping) stream_id (sr_controller_to_streams r)\<rparr>))"

fun remove_streams :: "string list \<Rightarrow> stream_router \<Rightarrow> stream_mapping list \<times> stream_router" where
  "remove_streams [] r = ([], r)"
| "remove_streams (sid # sids) r =
     (case map_of (sr_mappings r) sid of
        None \<Rightarrow> remove_streams sids r
      | Some mapping \<Rightarrow>
          (let (removed, r1) = remove_streams sids
             (r\<lparr>sr_mappings := AList.delete sid (sr_mappings r),
                sr_controller_to_streams :=
                  index_remove (sm_controller_id mapping) sid (sr_controller_to_streams r)\<rparr>)
           in (mapping # removed, r1)))"

definition remove_all_for_device :: "string \<Rightarrow> stream_router \<Rightarrow> stream_mapping list \<times> stream_router" where
  "remove_all_for_device device_id r =
     (case map_of (sr_device_to_streams r) device_id of
        None \<Rightarrow> ([], r)
      | Some stream_ids \<Rightarrow>
          remove_streams stream_ids
            (r\<lparr>sr_device_to_streams := AList.delete device_id (sr_device_to_streams r)\<rparr>))"

definition get_mappings_for_device :: "string \<Rightarrow> stream_router \<Rightarrow> stream_mapping list" where
  "get_mappings_for_device device_id r =
     (case map_of (sr_device_to_streams r) device_id of
        None \<Rightarrow> []
      | Some ids \<Rightarrow> List.map_filter (map_of (sr_mappings r)) ids)"

definition device_stream_count :: "string \<Rightarrow> stream_router \<Rightarrow> nat" where
  "device_stream_count device_id r =
     (case map_of (sr_device_to_streams r) device_id of None \<Rightarrow> 0 | Some ids \<Rightarrow> length ids)"

definition total_active_streams :: "stream_router \<Rightarrow> nat" where
  "total_active_streams r = length (sr_mappings r)"

definition has_active_streams :: "string \<Rightarrow> stream_router \<Rightarrow> bool" where
  "has_active_streams device_id r \<longleftrightarrow> device_stream_count device_id r > 0"

text \<open>\<open>get_mut\<close> of a mapping followed by an update in place.\<close>

definition update_mapping ::
  "string \<Rightarrow> (stream_mapping \<Rightarrow> stream_mapping) \<Rightarrow> stream_router \<Rightarrow> stream_router" where
  "update_mapping stream_id f r =
     (case map_of (sr_mappings r) stream_id of
        None \<Rightarrow> r
      | Some m \<Rightarrow> r\<lparr>sr_mappings := AList.update stream_id (f m) (sr_mappings r)\<rparr>)"

definition touch_stream :: "instant \<Rightarrow> string \<Rightarrow> stream_router \<Rightarrow> stream_router" where
  "touch_stream now stream_id r = update_mapping stream_id (\<lambda>m. m\<lparr>sm_last_activity := now\<rparr>) r"

definition begin_request :: "instant \<Rightarrow> string \<Rightarrow> stream_router \<Rightarrow> stream_router" where
  "begin_request now stream_id r =
     update_mapping stream_id
       (\<lambda>m. m\<lparr>sm_last_activity := now, sm_active_requests := sm_active_requests m + 1\<rparr>) r"

definition finish_request :: "instant \<Rightarrow> string \<Rightarrow> stream_router \<Rightarrow> stream_router" where
  "finish_request now stream_id r =
     update_mapping stream_id
       (\<lambda>m. m\<lparr>sm_last_activity := now, sm_active_requests := sm_active_requests m - 1\<rparr>) r"

definition stream_is_stale :: "instant \<Rightarrow> stream_router \<Rightarrow> stream_mapping \<Rightarrow> bool" where
  "stream_is_stale now r m \<longleftrightarrow>
     sm_active_requests m = 0
     \<and> sr_idle_timeout r \<le> saturating_duration_since now (sm_last_activity m)"

fun remove_mappings :: "string list \<Rightarrow> stream_router \<Rightarrow> stream_mapping list \<times> stream_router" where
  "remove_mappings [] r = ([], r)"
| "remove_mappings (sid # sids) r =
     (let (m, r1) = remove_mapping sid r; (removed, r2) = remove_mappings sids r1
      in (case m of None \<Rightarrow> removed | Some mapping \<Rightarrow> mapping # removed, r2))"

definition cleanup_stale :: "instant \<Rightarrow> stream_router \<Rightarrow> stream_mapping list \<times> stream_router" where
  "cleanup_stale now r =
     (let stale = map (\<lambda>e. sm_stream_id (snd e))
        (filter (\<lambda>e. stream_is_stale now r (snd e)) (sr_mappings r))
      in remove_mappings stale r)"

section \<open>Operations as events\<close>

datatype router_op =
    CreateOp instant string string string chan
  | RemoveOp string
  | RemoveAllOp string
  | TouchOp instant string
  | BeginOp instant string
  | FinishOp instant string
  | CleanupOp instant

fun router_step :: "router_op \<Rightarrow> stream_router \<Rightarrow> stream_router" where
  "router_step (CreateOp now d c m tx) r = snd (create_mapping now d c m tx r)"
| "router_step (RemoveOp sid) r = snd (remove_mapping sid r)"
| "router_step (RemoveAllOp d) r = snd (remove_all_for_device d r)"
| "router_step (TouchOp now sid) r = touch_stream now sid r"
| "router_step (BeginOp now sid) r = begin_request now sid r"
| "router_step (FinishOp now sid) r = finish_request now sid r"
| "router_step (CleanupOp now) r = snd (cleanup_stale now r)"

section \<open>The invariant\<close>

definition streams_of :: "(string, string hashset) dashmap \<Rightarrow> string \<Rightarrow> string list" where
  "streams_of idx k = (case map_of idx k of None \<Rightarrow> [] | Some ids \<Rightarrow> ids)"

text \<open>
  An index agrees with the table when its entry for a key lists, without repetition, exactly
  the streams whose mapping has that key, and no entry is empty.
\<close>

definition index_ok ::
  "(stream_mapping \<Rightarrow> string) \<Rightarrow> (string \<rightharpoonup> stream_mapping) \<Rightarrow> (string, string hashset) dashmap \<Rightarrow> bool" where
  "index_ok key ms idx \<longleftrightarrow> dm_wf idx \<and>
     (\<forall>k. map_of idx k \<noteq> Some [] \<and> distinct (streams_of idx k)
        \<and> (\<forall>sid. sid \<in> set (streams_of idx k) \<longleftrightarrow> (\<exists>m. ms sid = Some m \<and> key m = k)))"

definition ids_below :: "u64 \<Rightarrow> (string \<rightharpoonup> stream_mapping) \<Rightarrow> bool" where
  "ids_below n ms \<longleftrightarrow>
     (\<forall>sid m. ms sid = Some m \<longrightarrow> sm_stream_id m = sid \<and> (\<exists>i. sid = stream_id_of i \<and> i < n))"

definition router_wf :: "stream_router \<Rightarrow> bool" where
  "router_wf r \<longleftrightarrow> dm_wf (sr_mappings r)
     \<and> ids_below (sr_counter r) (map_of (sr_mappings r))
     \<and> index_ok sm_device_id (map_of (sr_mappings r)) (sr_device_to_streams r)
     \<and> index_ok sm_controller_id (map_of (sr_mappings r)) (sr_controller_to_streams r)"

definition router_caps :: "stream_router \<Rightarrow> bool" where
  "router_caps r \<longleftrightarrow>
     (\<forall>k. length (streams_of (sr_device_to_streams r) k) \<le> max 1 (sr_max_active_streams r))
     \<and> (\<forall>k. length (streams_of (sr_controller_to_streams r) k)
            \<le> max 1 (sr_max_concurrent_streams_per_controller r))"

definition router_inv :: "stream_router \<Rightarrow> bool" where
  "router_inv r \<longleftrightarrow> router_wf r \<and> router_caps r"

text \<open>The stream counter has not gone all the way round.\<close>

definition counter_room :: "stream_router \<Rightarrow> bool" where
  "counter_room r \<longleftrightarrow> unat (sr_counter r) < 2 ^ 64 - 1"

section \<open>Facts about the indexes\<close>

lemma stream_id_of_inj [simp]: "stream_id_of a = stream_id_of b \<longleftrightarrow> a = b"
  by (simp add: stream_id_of_def word_unat_eq_iff)

lemma streams_of_update [simp]:
  "streams_of (AList.update k ids idx) k' = (if k' = k then ids else streams_of idx k')"
  by (simp add: streams_of_def)

lemma streams_of_delete [simp]:
  "streams_of (AList.delete k idx) k' = (if k' = k then [] else streams_of idx k')"
  by (simp add: streams_of_def)

lemma streams_of_index_remove [simp]:
  "streams_of (index_remove k sid idx) k' =
     (if k' = k then hs_remove sid (streams_of idx k) else streams_of idx k')"
  by (auto simp: index_remove_def streams_of_def Let_def hs_remove_def split: option.splits)

lemma dm_wf_index_remove [simp]: "dm_wf idx \<Longrightarrow> dm_wf (index_remove k sid idx)"
  by (auto simp: index_remove_def Let_def split: option.splits)

lemma index_remove_nonempty:
  "(\<And>k. map_of idx k \<noteq> Some []) \<Longrightarrow> map_of (index_remove k' sid idx) k \<noteq> Some []"
  by (auto simp: index_remove_def Let_def split: option.splits)

lemma index_ok_Nil [simp]: "index_ok key Map.empty []"
  by (simp add: index_ok_def streams_of_def)

lemma index_ok_insert:
  assumes "index_ok key ms idx" "ms sid = None" "ids = sid # streams_of idx (key m)"
  shows "index_ok key (ms(sid \<mapsto> m)) (AList.update (key m) ids idx)"
  using assms by (auto simp: index_ok_def)

lemma index_ok_remove:
  assumes "index_ok key ms idx" "ms sid = Some m"
  shows "index_ok key (ms(sid := None)) (index_remove (key m) sid idx)"
  using assms index_remove_nonempty [of idx] by (auto simp: index_ok_def)

lemma index_ok_same_key:
  assumes "index_ok key ms idx" "ms sid = Some m" "key m' = key m"
  shows "index_ok key (ms(sid \<mapsto> m')) idx"
  using assms by (auto simp: index_ok_def)

lemma ids_below_mono: "ids_below n ms \<Longrightarrow> n \<le> n' \<Longrightarrow> ids_below n' ms"
  unfolding ids_below_def by (meson order_less_le_trans)

lemma ids_below_remove: "ids_below n ms \<Longrightarrow> ids_below n (ms(sid := None))"
  by (simp add: ids_below_def)

lemma ids_below_fresh: "ids_below n ms \<Longrightarrow> ms (stream_id_of n) = None"
  unfolding ids_below_def by (metis less_irrefl not_None_eq stream_id_of_inj)

lemmas router_defs = router_wf_def ids_below_def

section \<open>Every operation keeps the invariant\<close>

text \<open>The three outcomes of \<open>create_mapping\<close>.\<close>

definition device_full :: "string \<Rightarrow> stream_router \<Rightarrow> bool" where
  "device_full d r \<longleftrightarrow> map_of (sr_device_to_streams r) d \<noteq> None
     \<and> sr_max_active_streams r \<le> length (streams_of (sr_device_to_streams r) d)"

definition controller_full :: "string \<Rightarrow> stream_router \<Rightarrow> bool" where
  "controller_full c r \<longleftrightarrow> map_of (sr_controller_to_streams r) c \<noteq> None
     \<and> sr_max_concurrent_streams_per_controller r
         \<le> length (streams_of (sr_controller_to_streams r) c)"

definition new_mapping :: "instant \<Rightarrow> string \<Rightarrow> string \<Rightarrow> string \<Rightarrow> chan \<Rightarrow> u64 \<Rightarrow> stream_mapping" where
  "new_mapping now d c m tx n =
     \<lparr>sm_stream_id = stream_id_of n, sm_device_id = d, sm_controller_id = c, sm_method_name = m,
      sm_created_at = now, sm_last_activity = now, sm_active_requests = 0, sm_controller_tx = tx\<rparr>"

lemma create_device_full:
  "device_full d r \<Longrightarrow>
     create_mapping now d c m tx r =
       (Inl (max_streams_error ''device'' d (length (streams_of (sr_device_to_streams r) d))
               (sr_max_active_streams r)),
        r\<lparr>sr_counter := sr_counter r + 1\<rparr>)"
  by (auto simp: create_mapping_def generate_stream_id_def device_full_def streams_of_def Let_def)

lemma create_controller_full:
  assumes "\<not> device_full d r" "controller_full c r"
  shows "create_mapping now d c m tx r =
    (Inl (max_streams_error ''controller'' c (length (streams_of (sr_controller_to_streams r) c))
            (sr_max_concurrent_streams_per_controller r)),
     r\<lparr>sr_counter := sr_counter r + 1,
       sr_device_to_streams := index_remove d (stream_id_of (sr_counter r))
         (AList.update d (List.insert (stream_id_of (sr_counter r)) (streams_of (sr_device_to_streams r) d))
           (sr_device_to_streams r))\<rparr>)"
  using assms
  by (auto simp: create_mapping_def generate_stream_id_def device_full_def controller_full_def
      streams_of_def Let_def split: option.splits)

lemma create_ok:
  assumes "\<not> device_full d r" "\<not> controller_full c r"
  shows "create_mapping now d c m tx r =
    (Inr (stream_id_of (sr_counter r)),
     r\<lparr>sr_counter := sr_counter r + 1,
       sr_device_to_streams := AList.update d
         (List.insert (stream_id_of (sr_counter r)) (streams_of (sr_device_to_streams r) d))
         (sr_device_to_streams r),
       sr_controller_to_streams := AList.update c
         (List.insert (stream_id_of (sr_counter r)) (streams_of (sr_controller_to_streams r) c))
         (sr_controller_to_streams r),
       sr_mappings := AList.update (stream_id_of (sr_counter r))
         (new_mapping now d c m tx (sr_counter r)) (sr_mappings r)\<rparr>)"
  using assms
  by (auto simp: create_mapping_def generate_stream_id_def device_full_def controller_full_def
      streams_of_def new_mapping_def Let_def split: option.splits)

lemma fresh_not_indexed:
  assumes "router_wf r"
  shows "stream_id_of (sr_counter r) \<notin> set (streams_of (sr_device_to_streams r) d)"
    and "stream_id_of (sr_counter r) \<notin> set (streams_of (sr_controller_to_streams r) c)"
    and "map_of (sr_mappings r) (stream_id_of (sr_counter r)) = None"
  using assms ids_below_fresh [of "sr_counter r" "map_of (sr_mappings r)"]
  by (auto simp: router_wf_def index_ok_def)

lemma create_caps: "router_caps r \<Longrightarrow> router_caps (snd (create_mapping now d c m tx r))"
proof -
  assume caps: "router_caps r"
  have len: "length (hs_remove s (List.insert s ids)) \<le> length ids" for s :: string and ids
    by (simp add: hs_remove_def List.insert_def length_removeAll_less_eq)
  have ins: "length (List.insert s ids) \<le> Suc (length ids)" for s :: string and ids
    by (simp add: List.insert_def)
  consider "device_full d r" | "\<not> device_full d r" "controller_full c r"
    | "\<not> device_full d r" "\<not> controller_full c r" by blast
  then show ?thesis
  proof cases
    case 1
    with caps show ?thesis by (simp add: create_device_full router_caps_def)
  next
    case 2
    with caps show ?thesis
      using len [of "stream_id_of (sr_counter r)" "streams_of (sr_device_to_streams r) d"]
      by (auto simp: create_controller_full router_caps_def intro: le_trans)
  next
    case 3
    then have "Suc (length (streams_of (sr_device_to_streams r) d)) \<le> max 1 (sr_max_active_streams r)"
      "Suc (length (streams_of (sr_controller_to_streams r) c))
         \<le> max 1 (sr_max_concurrent_streams_per_controller r)"
      by (auto simp: device_full_def controller_full_def streams_of_def split: option.splits)
    with 3 caps ins show ?thesis
      by (auto simp: create_ok router_caps_def intro: le_trans)
  qed
qed

lemma index_ok_rollback:
  assumes "index_ok key ms idx" "sid \<notin> set (streams_of idx k)"
  shows "index_ok key ms (index_remove k sid (AList.update k (List.insert sid (streams_of idx k)) idx))"
proof -
  have "hs_remove sid (List.insert sid (streams_of idx k)) = streams_of idx k"
    using assms(2) by (simp add: hs_remove_def)
  then have "streams_of (index_remove k sid (AList.update k (List.insert sid (streams_of idx k)) idx)) k'
      = streams_of idx k'" for k'
    by simp
  moreover have "map_of (index_remove k sid (AList.update k (List.insert sid (streams_of idx k)) idx)) k'
      \<noteq> Some []" for k'
    using assms by (intro index_remove_nonempty) (auto simp: index_ok_def)
  ultimately show ?thesis using assms(1) by (simp add: index_ok_def)
qed

lemma create_wf:
  assumes "router_wf r" "counter_room r"
  shows "router_wf (snd (create_mapping now d c m tx r))"
proof -
  note fresh = fresh_not_indexed [OF assms(1)]
  have up: "sr_counter r < sr_counter r + 1" using assms(2) by (simp add: counter_room_def less_inc_u64)
  then have ids: "ids_below (sr_counter r + 1) (map_of (sr_mappings r))"
    using assms(1) by (auto simp: router_wf_def intro: ids_below_mono)
  consider "device_full d r" | "\<not> device_full d r" "controller_full c r"
    | "\<not> device_full d r" "\<not> controller_full c r" by blast
  then show ?thesis
  proof cases
    case 1
    with assms(1) ids show ?thesis by (simp add: create_device_full router_wf_def)
  next
    case 2
    with assms(1) ids fresh(1) show ?thesis
      by (simp add: create_controller_full router_wf_def index_ok_rollback del: not_in_set_insert)
  next
    case 3
    let ?m = "new_mapping now d c m tx (sr_counter r)"
    have key: "sm_device_id ?m = d" "sm_controller_id ?m = c" "sm_stream_id ?m = stream_id_of (sr_counter r)"
      by (simp_all add: new_mapping_def)
    have "ids_below (sr_counter r + 1) ((map_of (sr_mappings r))(stream_id_of (sr_counter r) \<mapsto> ?m))"
      using ids up key by (auto simp: ids_below_def)
    moreover have "index_ok sm_device_id ((map_of (sr_mappings r))(stream_id_of (sr_counter r) \<mapsto> ?m))
        (AList.update d (List.insert (stream_id_of (sr_counter r)) (streams_of (sr_device_to_streams r) d))
          (sr_device_to_streams r))"
      using index_ok_insert [of sm_device_id _ "sr_device_to_streams r" "stream_id_of (sr_counter r)" _ ?m]
        assms(1) fresh key by (simp add: router_wf_def)
    moreover have "index_ok sm_controller_id ((map_of (sr_mappings r))(stream_id_of (sr_counter r) \<mapsto> ?m))
        (AList.update c (List.insert (stream_id_of (sr_counter r)) (streams_of (sr_controller_to_streams r) c))
          (sr_controller_to_streams r))"
      using index_ok_insert [of sm_controller_id _ "sr_controller_to_streams r" "stream_id_of (sr_counter r)" _ ?m]
        assms(1) fresh key by (simp add: router_wf_def)
    ultimately show ?thesis using 3 assms(1) by (simp add: create_ok router_wf_def)
  qed
qed

lemma remove_mapping_wf: "router_wf r \<Longrightarrow> router_wf (snd (remove_mapping sid r))"
  by (auto simp: remove_mapping_def router_wf_def ids_below_remove index_ok_remove split: option.splits)

lemma length_hs_remove: "length (hs_remove x xs) \<le> length xs"
  by (simp add: hs_remove_def)

lemma remove_mapping_caps: "router_caps r \<Longrightarrow> router_caps (snd (remove_mapping sid r))"
  by (auto simp: remove_mapping_def router_caps_def split: option.splits
      intro: le_trans [OF length_hs_remove])

lemma remove_mapping_frame [frame_simps, simp]:
  "sr_counter (snd (remove_mapping sid r)) = sr_counter r"
  "sr_max_active_streams (snd (remove_mapping sid r)) = sr_max_active_streams r"
  "sr_max_concurrent_streams_per_controller (snd (remove_mapping sid r)) =
     sr_max_concurrent_streams_per_controller r"
  "sr_idle_timeout (snd (remove_mapping sid r)) = sr_idle_timeout r"
  by (simp_all add: remove_mapping_def split: option.split)

lemma remove_mapping_lookup:
  "map_of (sr_mappings (snd (remove_mapping sid r))) = (map_of (sr_mappings r))(sid := None)"
  by (auto simp: remove_mapping_def fun_eq_iff split: option.split)

lemma remove_mapping_result: "fst (remove_mapping sid r) = map_of (sr_mappings r) sid"
  by (simp add: remove_mapping_def split: option.split)

text \<open>
  \<open>remove_all_for_device\<close> drops the device's index entry first and then the streams one by one:
  in between, the device index agrees with the table except for the streams still to go. The
  outcome is the same as removing the streams one by one with \<open>remove_mapping\<close>.
\<close>

lemma remove_streams_facts:
  assumes "distinct sids"
  shows "map_of (sr_mappings (snd (remove_streams sids r))) sid =
      (if sid \<in> set sids then None else map_of (sr_mappings r) sid)"
    and "sr_device_to_streams (snd (remove_streams sids r)) = sr_device_to_streams r"
    and "fst (remove_streams sids r) = List.map_filter (map_of (sr_mappings r)) sids"
    and "sr_counter (snd (remove_streams sids r)) = sr_counter r"
    and "sr_max_active_streams (snd (remove_streams sids r)) = sr_max_active_streams r"
    and "sr_max_concurrent_streams_per_controller (snd (remove_streams sids r)) =
      sr_max_concurrent_streams_per_controller r"
    and "dm_wf (sr_mappings r) \<Longrightarrow> dm_wf (sr_mappings (snd (remove_streams sids r)))"
  using assms
proof (induction sids arbitrary: r)
  case (Cons s sids)
  {
    case 1
    with Cons.IH(1) show ?case by (auto simp: Let_def case_prod_unfold split: option.split)
  next
    case 2
    with Cons.IH(2) show ?case by (auto simp: Let_def case_prod_unfold split: option.split)
  next
    case 3
    have "List.map_filter ((map_of (sr_mappings r))(s := None)) sids
        = List.map_filter (map_of (sr_mappings r)) sids"
      using 3 by (auto simp: List.map_filter_def intro!: map_cong filter_cong)
    with 3 Cons.IH(3) show ?case
      by (auto simp: Let_def case_prod_unfold List.map_filter_simps split: option.split)
  next
    case 4
    with Cons.IH(4) show ?case by (auto simp: Let_def case_prod_unfold split: option.split)
  next
    case 5
    with Cons.IH(5) show ?case by (auto simp: Let_def case_prod_unfold split: option.split)
  next
    case 6
    with Cons.IH(6) show ?case by (auto simp: Let_def case_prod_unfold split: option.split)
  next
    case 7
    with Cons.IH(7) show ?case by (auto simp: Let_def case_prod_unfold split: option.split)
  }
qed (simp_all add: List.map_filter_simps)

lemma remove_streams_controller:
  assumes "index_ok sm_controller_id (map_of (sr_mappings r)) (sr_controller_to_streams r)"
  shows "index_ok sm_controller_id (map_of (sr_mappings (snd (remove_streams sids r))))
    (sr_controller_to_streams (snd (remove_streams sids r)))"
  using assms
proof (induction sids arbitrary: r)
  case (Cons s sids)
  show ?case
  proof (cases "map_of (sr_mappings r) s")
    case (Some m)
    with Cons.prems have "index_ok sm_controller_id ((map_of (sr_mappings r))(s := None))
        (index_remove (sm_controller_id m) s (sr_controller_to_streams r))"
      by (rule index_ok_remove [of sm_controller_id])
    with Some show ?thesis
      by (simp add: Let_def case_prod_unfold) (rule Cons.IH, simp add: fun_upd_def)
  qed (simp add: Cons)
qed simp

lemma remove_streams_caps:
  assumes "router_caps r"
  shows "router_caps (snd (remove_streams sids r))"
  using assms
proof (induction sids arbitrary: r)
  case (Cons s sids)
  have "router_caps (r\<lparr>sr_mappings := AList.delete s (sr_mappings r),
      sr_controller_to_streams := index_remove (sm_controller_id m) s (sr_controller_to_streams r)\<rparr>)" for m
    using Cons.prems by (auto simp: router_caps_def intro: le_trans [OF length_hs_remove])
  with Cons show ?case by (auto simp: Let_def case_prod_unfold split: option.split)
qed simp

lemma remove_all_lookup:
  assumes "router_wf r"
  shows "map_of (sr_mappings (snd (remove_all_for_device d r))) sid =
    (case map_of (sr_mappings r) sid of
       Some m \<Rightarrow> if sm_device_id m = d then None else Some m
     | None \<Rightarrow> None)"
proof -
  have ix: "sid \<in> set (streams_of (sr_device_to_streams r) d)
      \<longleftrightarrow> (\<exists>m. map_of (sr_mappings r) sid = Some m \<and> sm_device_id m = d)"
    and dist: "distinct (streams_of (sr_device_to_streams r) d)"
    using assms by (auto simp: router_wf_def index_ok_def)
  show ?thesis
  proof (cases "map_of (sr_device_to_streams r) d")
    case None
    with ix show ?thesis
      by (auto simp: remove_all_for_device_def streams_of_def split: option.split)
  next
    case (Some ids)
    with ix dist show ?thesis
      by (auto simp: remove_all_for_device_def streams_of_def remove_streams_facts(1) split: option.split)
  qed
qed

lemma remove_all_wf:
  assumes "router_wf r"
  shows "router_wf (snd (remove_all_for_device d r))"
proof (cases "map_of (sr_device_to_streams r) d")
  case None
  with assms show ?thesis by (simp add: remove_all_for_device_def)
next
  case (Some ids)
  let ?r0 = "r\<lparr>sr_device_to_streams := AList.delete d (sr_device_to_streams r)\<rparr>"
  have out: "snd (remove_all_for_device d r) = snd (remove_streams ids ?r0)"
    using Some by (simp add: remove_all_for_device_def)
  have ids: "streams_of (sr_device_to_streams r) d = ids" using Some by (simp add: streams_of_def)
  have dist: "distinct ids" and dwf: "dm_wf (sr_device_to_streams r)"
    using assms unfolding router_wf_def index_ok_def ids [symmetric] by blast+
  note rs = remove_streams_facts [OF dist, of ?r0]
  have "ids_below (sr_counter r) (map_of (sr_mappings (snd (remove_all_for_device d r))))"
    using assms unfolding router_wf_def ids_below_def remove_all_lookup [OF assms]
    by (auto split: option.splits if_splits)
  moreover have "index_ok sm_device_id (map_of (sr_mappings (snd (remove_all_for_device d r))))
      (AList.delete d (sr_device_to_streams r))"
    using assms dwf unfolding router_wf_def index_ok_def remove_all_lookup [OF assms]
    by (auto split: option.splits if_splits)
  moreover have "index_ok sm_controller_id (map_of (sr_mappings (snd (remove_streams ids ?r0))))
      (sr_controller_to_streams (snd (remove_streams ids ?r0)))"
    using assms by (intro remove_streams_controller) (simp add: router_wf_def)
  moreover have "dm_wf (sr_mappings (snd (remove_streams ids ?r0)))"
    using assms by (intro rs(7)) (simp add: router_wf_def)
  ultimately show ?thesis unfolding router_wf_def by (simp add: out rs)
qed

lemma remove_all_caps:
  assumes "router_caps r"
  shows "router_caps (snd (remove_all_for_device d r))"
proof -
  have "router_caps (r\<lparr>sr_device_to_streams := AList.delete d (sr_device_to_streams r)\<rparr>)"
    using assms by (simp add: router_caps_def)
  with assms show ?thesis
    by (auto simp: remove_all_for_device_def remove_streams_caps split: option.split)
qed

lemma update_mapping_wf:
  assumes "router_wf r" "\<And>m. sm_stream_id (f m) = sm_stream_id m"
    "\<And>m. sm_device_id (f m) = sm_device_id m" "\<And>m. sm_controller_id (f m) = sm_controller_id m"
  shows "router_wf (update_mapping sid f r)"
  using assms
  by (auto simp: update_mapping_def router_wf_def ids_below_def intro!: index_ok_same_key split: option.splits)

lemma update_mapping_caps: "router_caps r \<Longrightarrow> router_caps (update_mapping sid f r)"
  by (auto simp: update_mapping_def router_caps_def split: option.splits)

lemma remove_mappings_inv: "router_inv r \<Longrightarrow> router_inv (snd (remove_mappings sids r))"
  by (induction sids arbitrary: r)
    (auto simp: router_inv_def Let_def case_prod_unfold remove_mapping_wf remove_mapping_caps)

lemma cleanup_inv: "router_inv r \<Longrightarrow> router_inv (snd (cleanup_stale now r))"
  by (simp add: cleanup_stale_def Let_def remove_mappings_inv)

lemma router_step_inv:
  "router_inv r \<Longrightarrow> counter_room r \<Longrightarrow> router_inv (router_step e r)"
  by (cases e)
    (auto simp: router_inv_def create_wf create_caps remove_mapping_wf remove_mapping_caps
      remove_all_wf remove_all_caps touch_stream_def begin_request_def finish_request_def
      update_mapping_wf update_mapping_caps dest: cleanup_inv [unfolded router_inv_def, OF conjI])

lemma router_new_inv: "router_inv (stream_router_new cfg)"
  by (simp add: router_inv_def router_wf_def router_caps_def stream_router_new_def ids_below_def
      streams_of_def)

interpretation router: invariant_machine router_step "\<lambda>_. counter_room" router_inv
  by unfold_locales (rule router_step_inv)

interpretation stream_ids: id_generator generate_stream_id sr_counter stream_id_of
  by unfold_locales (simp_all add: generate_stream_id_def)

section \<open>What the operations return\<close>

lemma remove_mappings_lookup:
  "map_of (sr_mappings (snd (remove_mappings sids r))) sid =
     (if sid \<in> set sids then None else map_of (sr_mappings r) sid)"
  by (induction sids arbitrary: r) (auto simp: Let_def case_prod_unfold remove_mapping_lookup)

lemma remove_mappings_result:
  "distinct sids \<Longrightarrow> fst (remove_mappings sids r) = List.map_filter (map_of (sr_mappings r)) sids"
proof (induction sids arbitrary: r)
  case (Cons s sids)
  have "List.map_filter ((map_of (sr_mappings r))(s := None)) sids
      = List.map_filter (map_of (sr_mappings r)) sids"
    using Cons.prems by (auto simp: List.map_filter_def intro!: map_cong filter_cong)
  with Cons show ?case
    by (auto simp: Let_def case_prod_unfold remove_mapping_lookup remove_mapping_result
        List.map_filter_simps split: option.split)
qed (simp add: List.map_filter_simps)

text \<open>The identifiers of the streams that are stale: distinct, and exactly those of the table.\<close>

definition stale_ids :: "instant \<Rightarrow> stream_router \<Rightarrow> string list" where
  "stale_ids now r = map (\<lambda>e. sm_stream_id (snd e))
     (filter (\<lambda>e. stream_is_stale now r (snd e)) (sr_mappings r))"

lemma stale_ids_eq:
  assumes "router_wf r"
  shows "stale_ids now r = map fst (filter (\<lambda>e. stream_is_stale now r (snd e)) (sr_mappings r))"
  unfolding stale_ids_def
proof (rule map_cong [OF refl])
  fix e
  assume "e \<in> set (filter (\<lambda>e. stream_is_stale now r (snd e)) (sr_mappings r))"
  then have "(fst e, snd e) \<in> set (sr_mappings r)" by simp
  then have "map_of (sr_mappings r) (fst e) = Some (snd e)"
    using assms by (simp add: router_wf_def dm_entry_iff del: prod.collapse)
  with assms show "sm_stream_id (snd e) = fst e" by (auto simp: router_wf_def ids_below_def)
qed

lemma stale_ids_distinct: "router_wf r \<Longrightarrow> distinct (stale_ids now r)"
  by (simp add: stale_ids_eq router_wf_def dm_wf_def distinct_map_filter)

lemma stale_ids_member:
  "router_wf r \<Longrightarrow> sid \<in> set (stale_ids now r) \<longleftrightarrow>
     (\<exists>m. map_of (sr_mappings r) sid = Some m \<and> stream_is_stale now r m)"
  unfolding stale_ids_eq using dm_entry_iff [of "sr_mappings r"]
  by (fastforce simp: router_wf_def image_iff)

lemma cleanup_stale_lookup:
  assumes "router_wf r"
  shows "map_of (sr_mappings (snd (cleanup_stale now r))) sid =
    (case map_of (sr_mappings r) sid of
       Some m \<Rightarrow> if stream_is_stale now r m then None else Some m
     | None \<Rightarrow> None)"
  using stale_ids_member [OF assms, of sid now]
  by (auto simp: cleanup_stale_def stale_ids_def [symmetric] remove_mappings_lookup split: option.split)

lemma set_map_filter_iff: "x \<in> set (List.map_filter f xs) \<longleftrightarrow> (\<exists>a \<in> set xs. f a = Some x)"
  by (force simp: List.map_filter_def)

lemma cleanup_stale_result:
  assumes "router_wf r"
  shows "m \<in> set (fst (cleanup_stale now r)) \<longleftrightarrow>
    map_of (sr_mappings r) (sm_stream_id m) = Some m \<and> stream_is_stale now r m"
proof -
  have "m \<in> set (fst (cleanup_stale now r)) \<longleftrightarrow>
      (\<exists>sid \<in> set (stale_ids now r). map_of (sr_mappings r) sid = Some m)"
    using stale_ids_distinct [OF assms, of now]
    by (simp add: cleanup_stale_def stale_ids_def [symmetric] Let_def remove_mappings_result set_map_filter_iff)
  also have "\<dots> \<longleftrightarrow> map_of (sr_mappings r) (sm_stream_id m) = Some m \<and> stream_is_stale now r m"
    using assms stale_ids_member [OF assms, of _ now] by (auto simp: router_wf_def ids_below_def)
  finally show ?thesis .
qed

lemma remove_all_result:
  assumes "router_wf r"
  shows "m \<in> set (fst (remove_all_for_device d r)) \<longleftrightarrow>
    map_of (sr_mappings r) (sm_stream_id m) = Some m \<and> sm_device_id m = d"
proof -
  have ix: "\<And>sid. sid \<in> set (streams_of (sr_device_to_streams r) d)
      \<longleftrightarrow> (\<exists>m. map_of (sr_mappings r) sid = Some m \<and> sm_device_id m = d)"
    and dist: "distinct (streams_of (sr_device_to_streams r) d)"
    and ids: "\<And>sid m. map_of (sr_mappings r) sid = Some m \<Longrightarrow> sm_stream_id m = sid"
    using assms by (auto simp: router_wf_def index_ok_def ids_below_def)
  have "m \<in> set (fst (remove_all_for_device d r)) \<longleftrightarrow>
      (\<exists>sid \<in> set (streams_of (sr_device_to_streams r) d). map_of (sr_mappings r) sid = Some m)"
    using dist by (auto simp: remove_all_for_device_def streams_of_def remove_streams_facts(3)
        set_map_filter_iff split: option.splits)
  with ix ids show ?thesis by auto
qed

lemma create_rollback:
  assumes "router_wf r" "create_mapping now d c m tx r = (Inl e, r')"
  shows "sr_mappings r' = sr_mappings r \<and> sr_controller_to_streams r' = sr_controller_to_streams r
    \<and> streams_of (sr_device_to_streams r') = streams_of (sr_device_to_streams r)"
proof -
  have "device_full d r \<or> \<not> device_full d r \<and> controller_full c r"
    using assms(2) create_ok [of d r c] by fastforce
  then show ?thesis
    using assms(2) fresh_not_indexed(1) [OF assms(1), of d]
    by (auto simp: create_device_full create_controller_full fun_eq_iff hs_remove_def)
qed

section \<open>Properties\<close>

lemma remove_streams_counter: "sr_counter (snd (remove_streams sids r)) = sr_counter r"
  by (induction sids arbitrary: r) (auto simp: Let_def case_prod_unfold split: option.split)

lemma remove_mappings_frame:
  "sr_counter (snd (remove_mappings sids r)) = sr_counter r"
  "sr_max_active_streams (snd (remove_mappings sids r)) = sr_max_active_streams r"
  "sr_max_concurrent_streams_per_controller (snd (remove_mappings sids r)) =
     sr_max_concurrent_streams_per_controller r"
  by (induction sids arbitrary: r) (auto simp: Let_def case_prod_unfold)

lemma create_counter: "sr_counter (snd (create_mapping now d c m tx r)) = sr_counter r + 1"
  by (cases "device_full d r"; cases "controller_full c r")
    (simp_all add: create_device_full create_controller_full create_ok)

lemma create_caps_frame:
  "sr_max_active_streams (snd (create_mapping now d c m tx r)) = sr_max_active_streams r"
  "sr_max_concurrent_streams_per_controller (snd (create_mapping now d c m tx r)) =
     sr_max_concurrent_streams_per_controller r"
  by (cases "device_full d r"; cases "controller_full c r";
      simp add: create_device_full create_controller_full create_ok)+

lemma remove_streams_caps_frame:
  "sr_max_active_streams (snd (remove_streams sids r)) = sr_max_active_streams r"
  "sr_max_concurrent_streams_per_controller (snd (remove_streams sids r)) =
     sr_max_concurrent_streams_per_controller r"
  by (induction sids arbitrary: r) (auto simp: Let_def case_prod_unfold split: option.split)

lemma router_step_caps_frame:
  "sr_max_active_streams (router_step e r) = sr_max_active_streams r \<and>
   sr_max_concurrent_streams_per_controller (router_step e r) =
     sr_max_concurrent_streams_per_controller r"
  by (cases e)
    (auto simp: create_caps_frame remove_all_for_device_def remove_streams_caps_frame
      touch_stream_def begin_request_def finish_request_def update_mapping_def cleanup_stale_def
      remove_mappings_frame split: option.split)

lemma router_run_caps_frame:
  "sr_max_active_streams (fold router_step es r) = sr_max_active_streams r \<and>
   sr_max_concurrent_streams_per_controller (fold router_step es r) =
     sr_max_concurrent_streams_per_controller r"
  by (induction es arbitrary: r) (auto simp: router_step_caps_frame)

lemma router_step_counter:
  "sr_counter (router_step e r) = sr_counter r \<or> sr_counter (router_step e r) = sr_counter r + 1"
  by (cases e)
    (auto simp: create_counter remove_all_for_device_def remove_streams_counter
      touch_stream_def begin_request_def finish_request_def update_mapping_def cleanup_stale_def
      remove_mappings_frame split: option.split)

lemma router_run_room:
  "unat (sr_counter r) + length es < 2 ^ 64 \<Longrightarrow> router.run_allowed es r"
proof (induction es arbitrary: r)
  case (Cons e es)
  have "unat (sr_counter r) < 2 ^ 64 - 1" using Cons.prems by simp
  moreover from this have "unat (sr_counter (router_step e r)) \<le> unat (sr_counter r) + 1"
    using router_step_counter [of e r] unat_inc_u64 by auto
  ultimately have "router.run_allowed es (router_step e r)" "counter_room r"
    using Cons.prems by (auto intro: Cons.IH simp: counter_room_def)
  then show ?case by (simp only: router.run_allowed.simps)
qed (simp only: router.run_allowed.simps)

text \<open>A router with one stream, for the concrete instances below.\<close>

definition sample_router :: stream_router where
  "sample_router = snd (create_mapping 0 ''d'' ''c'' ''m'' 1 (stream_router_new default_stream_config))"

lemma sample_router_wf: "router_wf sample_router"
  unfolding sample_router_def
  by (rule create_wf)
    (use router_new_inv in \<open>auto simp: router_inv_def counter_room_def stream_router_new_def\<close>)

lemma sample_router_simps:
  "sr_mappings sample_router =
     [(''strm-1'', \<lparr>sm_stream_id = ''strm-1'', sm_device_id = ''d'', sm_controller_id = ''c'',
        sm_method_name = ''m'', sm_created_at = 0, sm_last_activity = 0, sm_active_requests = 0,
        sm_controller_tx = 1\<rparr>)]"
  "sr_idle_timeout sample_router = from_secs 300"
  by (simp_all add: sample_router_def create_mapping_def generate_stream_id_def stream_router_new_def
      stream_id_of_def dec_string.simps default_stream_config_def)

text \<open>
  C25. After any sequence of fewer than \<open>2^64 - 1\<close> router operations the two indexes list exactly
  the streams of the table, every stream is found under its own id, and no device and no
  controller has more streams than its cap (at least one, see the next property).
\<close>

theorem router_consistent:
  fixes es :: "router_op list" and cfg :: stream_config and d c :: string
  assumes "length es < 2 ^ 64 - 1"
  defines "r \<equiv> fold router_step es (stream_router_new cfg)"
  shows "router_inv r \<and> device_stream_count d r \<le> max 1 (max_active_streams cfg)
    \<and> length (streams_of (sr_controller_to_streams r) c)
        \<le> max 1 (max_concurrent_streams_per_controller cfg)"
proof -
  have "router_inv r"
    unfolding r_def using assms(1)
    by (intro router.run_invar router_new_inv router_run_room) (simp add: stream_router_new_def)
  then have "length (streams_of (sr_device_to_streams r) d) \<le> max 1 (sr_max_active_streams r)"
    "length (streams_of (sr_controller_to_streams r) c)
       \<le> max 1 (sr_max_concurrent_streams_per_controller r)"
    by (auto simp: router_inv_def router_caps_def)
  moreover have "device_stream_count d r = length (streams_of (sr_device_to_streams r) d)"
    by (simp add: device_stream_count_def streams_of_def split: option.split)
  moreover have "sr_max_active_streams r = max_active_streams cfg"
    "sr_max_concurrent_streams_per_controller r = max_concurrent_streams_per_controller cfg"
    unfolding r_def router_run_caps_frame by (simp_all add: stream_router_new_def router_run_caps_frame)
  ultimately show ?thesis using \<open>router_inv r\<close> by simp
qed

theorem router_consistent_witness:
  "device_stream_count ''d'' (fold router_step
      [CreateOp 0 ''d'' ''c'' ''m'' 1, CreateOp 1 ''d'' ''c'' ''m'' 2]
      (stream_router_new (default_stream_config\<lparr>max_active_streams := 1\<rparr>))) \<le> 1"
  using router_consistent [of "[CreateOp 0 ''d'' ''c'' ''m'' 1, CreateOp 1 ''d'' ''c'' ''m'' 2]"
      "default_stream_config\<lparr>max_active_streams := 1\<rparr>" "''d''" "''c''"]
  by simp

text \<open>
  The device cap is not tested for the first stream of a device: with
  \<open>max_active_streams = 0\<close> the router still admits one stream per device (and the
  \<open>debug_assert!\<close> that follows would fail).
\<close>

theorem zero_cap_admits_one:
  "fst (create_mapping now d c m tx
      (stream_router_new (cfg\<lparr>max_active_streams := 0\<rparr>))) = Inr ''strm-1''
   \<and> device_stream_count d (snd (create_mapping now d c m tx
      (stream_router_new (cfg\<lparr>max_active_streams := 0\<rparr>)))) = 1"
  by (simp add: create_mapping_def generate_stream_id_def stream_router_new_def stream_id_of_def
      device_stream_count_def dec_string.simps)

text \<open>
  \<open>create_mapping\<close> on a consistent router either returns a fresh stream id under which the
  new mapping is then found, all other mappings staying as they were, or fails and leaves the
  mappings and both indexes as they were: the entry made in the device index before the
  controller cap is tested is rolled back.
\<close>

theorem create_mapping_atomic:
  assumes "router_wf r"
  shows "case create_mapping now d c m tx r of
    (Inr sid, r') \<Rightarrow> map_of (sr_mappings r) sid = None
       \<and> map_of (sr_mappings r') =
           (map_of (sr_mappings r))(sid \<mapsto> new_mapping now d c m tx (sr_counter r))
       \<and> set (streams_of (sr_device_to_streams r') d) = insert sid (set (streams_of (sr_device_to_streams r) d))
       \<and> device_stream_count d r' = device_stream_count d r + 1
  | (Inl e, r') \<Rightarrow> sre_kind e = MaxStreamsExceeded \<and> sr_mappings r' = sr_mappings r
       \<and> sr_controller_to_streams r' = sr_controller_to_streams r
       \<and> streams_of (sr_device_to_streams r') = streams_of (sr_device_to_streams r)"
proof -
  note fresh = fresh_not_indexed [OF assms]
  have cnt: "device_stream_count d r = length (streams_of (sr_device_to_streams r) d)" for r
    by (simp add: device_stream_count_def streams_of_def split: option.split)
  consider "device_full d r" | "\<not> device_full d r" "controller_full c r"
    | "\<not> device_full d r" "\<not> controller_full c r" by blast
  then show ?thesis
  proof cases
    case 1
    then show ?thesis by (simp add: create_device_full max_streams_error_def)
  next
    case 2
    then show ?thesis
      using create_rollback [OF assms create_controller_full [OF 2]]
      by (simp add: create_controller_full max_streams_error_def)
  next
    case 3
    then show ?thesis using fresh by (simp add: create_ok cnt)
  qed
qed

theorem create_mapping_atomic_witness:
  "case create_mapping 7 ''d'' ''c'' ''m'' 1 (stream_router_new default_stream_config) of
     (Inr sid, r') \<Rightarrow> map_of (sr_mappings (stream_router_new default_stream_config)) sid = None
   | (Inl e, r') \<Rightarrow> sre_kind e = MaxStreamsExceeded"
  using create_mapping_atomic [of "stream_router_new default_stream_config" 7 "''d''" "''c''" "''m''" 1]
    router_new_inv [of default_stream_config]
  by (auto simp: router_inv_def split: prod.splits sum.splits)

text \<open>
  C28. Idle clean-up removes exactly the streams that have no request running and have been idle
  for the configured time, returns exactly those, and leaves every other stream untouched.
\<close>

theorem cleanup_stale_exact:
  assumes "router_wf r"
  shows "map_of (sr_mappings (snd (cleanup_stale now r))) sid =
      (case map_of (sr_mappings r) sid of
         Some m \<Rightarrow> if sm_active_requests m = 0 \<and> sr_idle_timeout r \<le> now - sm_last_activity m
                   then None else Some m
       | None \<Rightarrow> None)
    \<and> set (fst (cleanup_stale now r)) =
        {m. map_of (sr_mappings r) (sm_stream_id m) = Some m
            \<and> sm_active_requests m = 0 \<and> sr_idle_timeout r \<le> now - sm_last_activity m}"
  using cleanup_stale_lookup [OF assms, of now sid] cleanup_stale_result [OF assms, of _ now]
  by (auto simp: stream_is_stale_def saturating_duration_since_def split: option.splits)

theorem cleanup_stale_exact_witness:
  "map_of (sr_mappings (snd (cleanup_stale (from_secs 300) sample_router))) ''strm-1'' = None
   \<and> map_of (sr_mappings (snd (cleanup_stale (from_secs 299) sample_router))) ''strm-1'' \<noteq> None"
  using cleanup_stale_exact [OF sample_router_wf, of "from_secs 300" "''strm-1''"]
    cleanup_stale_exact [OF sample_router_wf, of "from_secs 299" "''strm-1''"]
  by (simp add: sample_router_simps from_secs_def)

text \<open>
  When a device goes away, \<open>remove_all_for_device\<close> removes exactly its streams, returns
  exactly those, and leaves the streams of other devices untouched.
\<close>

theorem remove_all_exact:
  assumes "router_wf r"
  shows "map_of (sr_mappings (snd (remove_all_for_device d r))) sid =
      (case map_of (sr_mappings r) sid of
         Some m \<Rightarrow> if sm_device_id m = d then None else Some m
       | None \<Rightarrow> None)
    \<and> set (fst (remove_all_for_device d r)) =
        {m. map_of (sr_mappings r) (sm_stream_id m) = Some m \<and> sm_device_id m = d}
    \<and> router_wf (snd (remove_all_for_device d r))"
  using remove_all_lookup [OF assms, of d sid] remove_all_result [OF assms, of _ d]
    remove_all_wf [OF assms, of d]
  by auto

theorem remove_all_exact_witness:
  "map_of (sr_mappings (snd (remove_all_for_device ''d'' sample_router))) ''strm-1'' = None
   \<and> map_of (sr_mappings (snd (remove_all_for_device ''e'' sample_router))) ''strm-1'' \<noteq> None"
  using remove_all_exact [OF sample_router_wf, of "''d''" "''strm-1''"]
    remove_all_exact [OF sample_router_wf, of "''e''" "''strm-1''"]
  by (simp add: sample_router_simps)

end
