(* ===== verification/Relay_State.thy ===== *)
theory Relay_State
  imports Relay_Proto
begin

text \<open>
  \<^verbatim>\<open>crates/relay/src/state.rs\<close> and \<^verbatim>\<open>session.rs\<close>: the device sessions with their two lookup
  tables, the requests in flight with the controllers that wait for each, and the counters. A
  oneshot channel is a number; the state remembers which value was sent on which. The lemmas
  show that the two session tables are inverse to each other, that connection ids do not
  repeat, and that no waiter is lost: every one is either registered with exactly one request
  in flight or has been answered.
\<close>

section \<open>Data\<close>

text \<open>A oneshot channel is known by a number.\<close>

type_synonym oneshot = nat

record device_session =
  ds_device_id :: string
  ds_connection_id :: string
  ds_metadata :: metadata
  ds_outbound_tx :: chan

record in_flight =
  if_device_id :: string
  if_waiters :: "oneshot list"

definition in_flight_new :: "string \<Rightarrow> in_flight" where
  "in_flight_new device_id = \<lparr>if_device_id = device_id, if_waiters = []\<rparr>"

definition push_waiter :: "oneshot \<Rightarrow> in_flight \<Rightarrow> in_flight" where
  "push_waiter tx fl = fl\<lparr>if_waiters := if_waiters fl @ [tx]\<rparr>"

text \<open>
  \<open>next_oneshot\<close> and \<open>oneshot_sent\<close> stand for the oneshot channels that
  \<open>ensure_inflight_waiter\<close> makes: how many there are and what was sent on each.
\<close>

record relay_state =
  sessions_by_device_id :: "(string, device_session) dashmap"
  connection_to_device_id :: "(string, string) dashmap"
  inflight_by_sequence :: "(string \<times> int, in_flight) dashmap"
  device_last_seen :: "(string, instant) dashmap"
  connection_id_counter :: u64
  controller_connection_count :: u64
  next_oneshot :: oneshot
  oneshot_sent :: "(oneshot, device_response) dashmap"

definition relay_state_new :: relay_state where
  "relay_state_new =
     \<lparr>sessions_by_device_id = [], connection_to_device_id = [], inflight_by_sequence = [],
      device_last_seen = [], connection_id_counter = 1, controller_connection_count = 0,
      next_oneshot = 0, oneshot_sent = []\<rparr>"

section \<open>Operations\<close>

definition connection_id_of :: "u64 \<Rightarrow> string" where
  "connection_id_of n = ''conn-'' @ dec_string (unat n)"

definition next_connection_id :: "relay_state \<Rightarrow> string \<times> relay_state" where
  "next_connection_id st =
     (connection_id_of (connection_id_counter st),
      st\<lparr>connection_id_counter := connection_id_counter st + 1\<rparr>)"

definition state_list_online_devices :: "relay_state \<Rightarrow> device_info list" where
  "state_list_online_devices st =
     map (\<lambda>e. \<lparr>di_device_id = ds_device_id (snd e), di_connection_id = ds_connection_id (snd e),
               di_relay_address = [], di_connected_at = 0, di_metadata = ds_metadata (snd e)\<rparr>)
       (sessions_by_device_id st)"

definition oneshot_channel :: "relay_state \<Rightarrow> oneshot \<times> relay_state" where
  "oneshot_channel st = (next_oneshot st, st\<lparr>next_oneshot := next_oneshot st + 1\<rparr>)"

definition ensure_inflight_waiter ::
  "int \<Rightarrow> string \<Rightarrow> relay_state \<Rightarrow> (oneshot \<times> bool) \<times> relay_state" where
  "ensure_inflight_waiter sequence_number device_id st =
     (let key = (device_id, sequence_number)
      in case map_of (inflight_by_sequence st) key of
           Some fl \<Rightarrow>
             (let (tx, st1) = oneshot_channel st
              in ((tx, False),
                  st1\<lparr>inflight_by_sequence :=
                    AList.update key (push_waiter tx fl) (inflight_by_sequence st1)\<rparr>))
         | None \<Rightarrow>
             (let fl = in_flight_new device_id; (tx, st1) = oneshot_channel st
              in ((tx, True),
                  st1\<lparr>inflight_by_sequence :=
                    AList.update key (push_waiter tx fl) (inflight_by_sequence st1)\<rparr>)))"

text \<open>\<open>InFlight::complete\<close>: every waiter gets the response.\<close>

definition complete :: "device_response \<Rightarrow> in_flight \<Rightarrow> relay_state \<Rightarrow> relay_state" where
  "complete resp fl st =
     fold (\<lambda>w st. st\<lparr>oneshot_sent := AList.update w resp (oneshot_sent st)\<rparr>) (if_waiters fl) st"

definition take_inflight :: "string \<Rightarrow> int \<Rightarrow> relay_state \<Rightarrow> in_flight option \<times> relay_state" where
  "take_inflight device_id sequence_number st =
     (map_of (inflight_by_sequence st) (device_id, sequence_number),
      st\<lparr>inflight_by_sequence :=
        AList.delete (device_id, sequence_number) (inflight_by_sequence st)\<rparr>)"

definition device_id_for_connection :: "string \<Rightarrow> relay_state \<Rightarrow> string option" where
  "device_id_for_connection connection_id st = map_of (connection_to_device_id st) connection_id"

definition has_active_device_connection :: "string \<Rightarrow> string \<Rightarrow> relay_state \<Rightarrow> bool" where
  "has_active_device_connection device_id connection_id st =
     (case map_of (sessions_by_device_id st) device_id of
        Some session \<Rightarrow> ds_connection_id session = connection_id
      | None \<Rightarrow> False)"

definition touch_device :: "instant \<Rightarrow> string \<Rightarrow> relay_state \<Rightarrow> relay_state" where
  "touch_device now device_id st =
     st\<lparr>device_last_seen := AList.update device_id now (device_last_seen st)\<rparr>"

definition device_last_seen_seconds :: "instant \<Rightarrow> string \<Rightarrow> relay_state \<Rightarrow> nat option" where
  "device_last_seen_seconds now device_id st =
     map_option (\<lambda>t. saturating_duration_since now t div 1000000000)
       (map_of (device_last_seen st) device_id)"

text \<open>
  The registration of a session by \<open>run_device_connect_stream\<close>: the session table first, then
  the connection of the session it replaced goes and the new one comes.
\<close>

definition insert_device_session :: "device_session \<Rightarrow> relay_state \<Rightarrow> relay_state" where
  "insert_device_session session st =
     (let dev_id = ds_device_id session;
          previous = map_of (sessions_by_device_id st) dev_id;
          st1 = st\<lparr>sessions_by_device_id := AList.update dev_id session (sessions_by_device_id st)\<rparr>;
          st2 = (case previous of
                   Some previous_session \<Rightarrow>
                     st1\<lparr>connection_to_device_id :=
                       AList.delete (ds_connection_id previous_session) (connection_to_device_id st1)\<rparr>
                 | None \<Rightarrow> st1)
      in st2\<lparr>connection_to_device_id :=
           AList.update (ds_connection_id session) dev_id (connection_to_device_id st2)\<rparr>)"

definition remove_device_session :: "string \<Rightarrow> relay_state \<Rightarrow> device_session option \<times> relay_state" where
  "remove_device_session device_id st =
     (case map_of (sessions_by_device_id st) device_id of
        None \<Rightarrow> (None, st)
      | Some session \<Rightarrow>
          (Some session,
           st\<lparr>sessions_by_device_id := AList.delete device_id (sessions_by_device_id st),
              connection_to_device_id :=
                AList.delete (ds_connection_id session) (connection_to_device_id st),
              device_last_seen := AList.delete device_id (device_last_seen st)\<rparr>))"

fun take_inflight_keys ::
  "(string \<times> int) list \<Rightarrow> relay_state \<Rightarrow> (int \<times> in_flight) list \<times> relay_state" where
  "take_inflight_keys [] st = ([], st)"
| "take_inflight_keys ((device_id, seq) # keys) st =
     (let (taken, st1) = take_inflight device_id seq st;
          (rest, st2) = take_inflight_keys keys st1
      in (case taken of None \<Rightarrow> rest | Some fl \<Rightarrow> (seq, fl) # rest, st2))"

definition take_inflight_for_device ::
  "string \<Rightarrow> relay_state \<Rightarrow> (int \<times> in_flight) list \<times> relay_state" where
  "take_inflight_for_device device_id st =
     take_inflight_keys
       (map fst (filter (\<lambda>e. if_device_id (snd e) = device_id) (inflight_by_sequence st))) st"

definition increment_controller_connections :: "relay_state \<Rightarrow> relay_state" where
  "increment_controller_connections st =
     st\<lparr>controller_connection_count := controller_connection_count st + 1\<rparr>"

definition decrement_controller_connections :: "relay_state \<Rightarrow> relay_state" where
  "decrement_controller_connections st =
     st\<lparr>controller_connection_count := saturating_sub_u64 (controller_connection_count st) 1\<rparr>"

section \<open>Session registry\<close>

definition get_device_session :: "string \<Rightarrow> relay_state \<Rightarrow> device_session option" where
  "get_device_session device_id st = map_of (sessions_by_device_id st) device_id"

definition is_device_online :: "string \<Rightarrow> relay_state \<Rightarrow> bool" where
  "is_device_online device_id st \<longleftrightarrow> map_of (sessions_by_device_id st) device_id \<noteq> None"

definition online_device_count :: "relay_state \<Rightarrow> nat" where
  "online_device_count st = length (sessions_by_device_id st)"

definition registry_list_online_devices :: "string \<Rightarrow> relay_state \<Rightarrow> device_info list" where
  "registry_list_online_devices relay_addr st =
     map (\<lambda>e. \<lparr>di_device_id = ds_device_id (snd e), di_connection_id = ds_connection_id (snd e),
               di_relay_address = relay_addr, di_connected_at = 0,
               di_metadata = ds_metadata (snd e)\<rparr>)
       (sessions_by_device_id st)"

section \<open>Composites of the handlers\<close>

text \<open>
  \<open>if let Some(inflight) = state.take_inflight(..) { inflight.complete(..).await }\<close>, and the
  loop that answers all the requests taken for a device that went away.
\<close>

definition take_and_complete :: "string \<Rightarrow> int \<Rightarrow> device_response \<Rightarrow> relay_state \<Rightarrow> relay_state" where
  "take_and_complete device_id seq resp st =
     (let (taken, st1) = take_inflight device_id seq st
      in case taken of None \<Rightarrow> st1 | Some fl \<Rightarrow> complete resp fl st1)"

definition complete_all ::
  "(int \<Rightarrow> device_response) \<Rightarrow> (int \<times> in_flight) list \<Rightarrow> relay_state \<Rightarrow> relay_state" where
  "complete_all resp taken st = fold (\<lambda>(seq, fl). complete (resp seq) fl) taken st"

section \<open>Invariants\<close>

text \<open>The two session tables are inverse to each other and connection ids are below the counter.\<close>

definition sessions_wf :: "relay_state \<Rightarrow> bool" where
  "sessions_wf st \<longleftrightarrow>
     dm_wf (sessions_by_device_id st) \<and> dm_wf (connection_to_device_id st)
     \<and> (\<forall>d s. map_of (sessions_by_device_id st) d = Some s \<longrightarrow>
          ds_device_id s = d \<and> map_of (connection_to_device_id st) (ds_connection_id s) = Some d)
     \<and> (\<forall>c d. map_of (connection_to_device_id st) c = Some d \<longrightarrow>
          (\<exists>s. map_of (sessions_by_device_id st) d = Some s \<and> ds_connection_id s = c)
          \<and> (\<exists>n. c = connection_id_of n \<and> n < connection_id_counter st))"

text \<open>
  No waiter is lost: a request in flight is filed under its own device, the waiters of the
  requests in flight are distinct, and a oneshot that was made is either among them or has been
  answered, never both.
\<close>

definition waiting :: "relay_state \<Rightarrow> oneshot \<Rightarrow> string \<times> int \<Rightarrow> bool" where
  "waiting st w k \<longleftrightarrow>
     (\<exists>fl. map_of (inflight_by_sequence st) k = Some fl \<and> w \<in> set (if_waiters fl))"

definition waiters_wf :: "relay_state \<Rightarrow> bool" where
  "waiters_wf st \<longleftrightarrow>
     dm_wf (inflight_by_sequence st)
     \<and> (\<forall>k fl. map_of (inflight_by_sequence st) k = Some fl \<longrightarrow>
          if_device_id fl = fst k \<and> distinct (if_waiters fl) \<and> if_waiters fl \<noteq> [])
     \<and> (\<forall>w k k'. waiting st w k \<longrightarrow> waiting st w k' \<longrightarrow> k = k')
     \<and> (\<forall>w k. waiting st w k \<longrightarrow> map_of (oneshot_sent st) w = None)
     \<and> (\<forall>w. w < next_oneshot st \<longleftrightarrow> (\<exists>k. waiting st w k) \<or> map_of (oneshot_sent st) w \<noteq> None)"

definition state_wf :: "relay_state \<Rightarrow> bool" where
  "state_wf st \<longleftrightarrow> sessions_wf st \<and> waiters_wf st"

definition conn_room :: "relay_state \<Rightarrow> bool" where
  "conn_room st \<longleftrightarrow> unat (connection_id_counter st) < 2 ^ 64 - 1"

section \<open>Facts about sessions\<close>

lemma connection_id_of_inj [simp]: "connection_id_of a = connection_id_of b \<longleftrightarrow> a = b"
  by (simp add: connection_id_of_def word_unat_eq_iff)

interpretation connection_ids: id_generator next_connection_id connection_id_counter connection_id_of
  by unfold_locales (simp_all add: next_connection_id_def)

interpretation controller_gauge: gauge_counter
  increment_controller_connections decrement_controller_connections controller_connection_count
  by unfold_locales
    (simp_all add: increment_controller_connections_def decrement_controller_connections_def)

lemma sessions_wf_new: "sessions_wf relay_state_new"
  by (simp add: sessions_wf_def relay_state_new_def)

lemma sessions_wf_counter:
  assumes "sessions_wf st" "conn_room st"
  shows "sessions_wf (snd (next_connection_id st))"
proof -
  have "connection_id_counter st < connection_id_counter st + 1"
    using assms(2) by (simp add: conn_room_def less_inc_u64)
  then have "n < connection_id_counter st \<Longrightarrow> n < connection_id_counter st + 1" for n
    by (blast intro: less_trans)
  with assms(1) show ?thesis
    unfolding sessions_wf_def next_connection_id_def by simp blast
qed

text \<open>Registering a session under the connection id that was just issued.\<close>

lemma sessions_wf_insert:
  assumes "sessions_wf st" "ds_connection_id s = connection_id_of n" "n < connection_id_counter st"
    and "map_of (connection_to_device_id st) (connection_id_of n) = None"
  shows "sessions_wf (insert_device_session s st)"
proof (cases "map_of (sessions_by_device_id st) (ds_device_id s)")
  case None
  with assms show ?thesis
    unfolding sessions_wf_def insert_device_session_def Let_def by (auto 4 3)
next
  case (Some p)
  have other: "ds_connection_id q \<noteq> ds_connection_id p"
    if "map_of (sessions_by_device_id st) d = Some q" "d \<noteq> ds_device_id s" for d q
    using that Some assms(1) unfolding sessions_wf_def by (metis option.inject)
  show ?thesis
    using assms Some other
    unfolding sessions_wf_def insert_device_session_def Let_def by (auto 4 3)
qed

lemma sessions_wf_remove: "sessions_wf st \<Longrightarrow> sessions_wf (snd (remove_device_session d st))"
proof (cases "map_of (sessions_by_device_id st) d")
  case (Some p)
  assume wf: "sessions_wf st"
  have other: "ds_connection_id q \<noteq> ds_connection_id p"
    if "map_of (sessions_by_device_id st) e = Some q" "e \<noteq> d" for e q
    using that Some wf unfolding sessions_wf_def by (metis option.inject)
  show ?thesis
    using wf Some other unfolding sessions_wf_def remove_device_session_def by (auto 4 3)
qed (simp add: remove_device_session_def)

section \<open>Facts about the requests in flight\<close>

lemma complete_sent:
  "map_of (oneshot_sent (complete resp fl st)) w =
     (if w \<in> set (if_waiters fl) then Some resp else map_of (oneshot_sent st) w)"
proof -
  have "map_of (oneshot_sent (fold (\<lambda>w st. st\<lparr>oneshot_sent := AList.update w resp (oneshot_sent st)\<rparr>) ws st)) w
      = (if w \<in> set ws then Some resp else map_of (oneshot_sent st) w)" for ws
    by (induction ws arbitrary: st) auto
  then show ?thesis by (simp add: complete_def)
qed

lemma fold_sent_frame:
  "\<exists>x. fold (\<lambda>w st. st\<lparr>oneshot_sent := AList.update w resp (oneshot_sent st)\<rparr>) ws st
     = st\<lparr>oneshot_sent := x\<rparr>"
proof (induction ws arbitrary: st)
  case Nil
  have "st = st\<lparr>oneshot_sent := oneshot_sent st\<rparr>" by simp
  then show ?case by (metis fold_simps(1))
next
  case (Cons w ws)
  from Cons [of "st\<lparr>oneshot_sent := AList.update w resp (oneshot_sent st)\<rparr>"]
  show ?case by auto
qed

lemma complete_frame [frame_simps, simp]:
  "sessions_by_device_id (complete resp fl st) = sessions_by_device_id st"
  "connection_to_device_id (complete resp fl st) = connection_to_device_id st"
  "inflight_by_sequence (complete resp fl st) = inflight_by_sequence st"
  "device_last_seen (complete resp fl st) = device_last_seen st"
  "connection_id_counter (complete resp fl st) = connection_id_counter st"
  "controller_connection_count (complete resp fl st) = controller_connection_count st"
  "next_oneshot (complete resp fl st) = next_oneshot st"
  using fold_sent_frame [of resp "if_waiters fl" st] by (auto simp: complete_def)

lemma waiters_wf_new: "waiters_wf relay_state_new"
  by (simp add: waiters_wf_def waiting_def relay_state_new_def)

lemma waiters_below: "waiters_wf st \<Longrightarrow> waiting st w k \<Longrightarrow> w < next_oneshot st"
  unfolding waiters_wf_def by blast

lemma waiters_wf_entry:
  "waiters_wf st \<Longrightarrow> map_of (inflight_by_sequence st) k = Some fl \<Longrightarrow>
     if_device_id fl = fst k \<and> distinct (if_waiters fl) \<and> if_waiters fl \<noteq> []"
  unfolding waiters_wf_def by blast

lemma waiters_wfD:
  assumes "waiters_wf st"
  shows "waiting st w k \<Longrightarrow> waiting st w k' \<Longrightarrow> k = k'"
    and "waiting st w k \<Longrightarrow> map_of (oneshot_sent st) w = None"
    and "w < next_oneshot st \<longleftrightarrow> (\<exists>k. waiting st w k) \<or> map_of (oneshot_sent st) w \<noteq> None"
  using assms unfolding waiters_wf_def by blast+

lemma waiters_wf_cong:
  assumes "inflight_by_sequence st' = inflight_by_sequence st" "oneshot_sent st' = oneshot_sent st"
    "next_oneshot st' = next_oneshot st"
  shows "waiters_wf st' \<longleftrightarrow> waiters_wf st"
  using assms by (simp add: waiters_wf_def waiting_def)

text \<open>The result of \<open>ensure_inflight_waiter\<close>, with both branches of the source in one.\<close>

definition inflight_or_new :: "string \<Rightarrow> int \<Rightarrow> relay_state \<Rightarrow> in_flight" where
  "inflight_or_new d seq st =
     (case map_of (inflight_by_sequence st) (d, seq) of Some fl \<Rightarrow> fl | None \<Rightarrow> in_flight_new d)"

lemma ensure_inflight_eq:
  "ensure_inflight_waiter seq d st =
     ((next_oneshot st, map_of (inflight_by_sequence st) (d, seq) = None),
      st\<lparr>next_oneshot := next_oneshot st + 1,
         inflight_by_sequence := AList.update (d, seq)
           (push_waiter (next_oneshot st) (inflight_or_new d seq st)) (inflight_by_sequence st)\<rparr>)"
  by (simp add: ensure_inflight_waiter_def oneshot_channel_def inflight_or_new_def Let_def
      split: option.split)

lemma ensure_waiting:
  "waiting (snd (ensure_inflight_waiter seq d st)) w k \<longleftrightarrow>
     waiting st w k \<or> (w = next_oneshot st \<and> k = (d, seq))"
  by (auto simp: ensure_inflight_eq waiting_def inflight_or_new_def push_waiter_def in_flight_new_def
      split: option.splits)

lemma waiters_wf_ensure:
  assumes "waiters_wf st"
  shows "waiters_wf (snd (ensure_inflight_waiter seq d st))"
proof -
  let ?st = "snd (ensure_inflight_waiter seq d st)"
  have fresh: "\<not> waiting st (next_oneshot st) k" for k
    using waiters_below [OF assms, of "next_oneshot st" k] by blast
  have unsent: "map_of (oneshot_sent st) (next_oneshot st) = None"
    using assms unfolding waiters_wf_def by (metis less_irrefl)
  have fl: "if_device_id fl = fst k \<and> distinct (if_waiters fl) \<and> if_waiters fl \<noteq> []"
    if "map_of (inflight_by_sequence ?st) k = Some fl" for k fl
  proof (cases "k = (d, seq)")
    case True
    with that fresh [of "(d, seq)"] waiters_wf_entry [OF assms, of "(d, seq)"] show ?thesis
      by (auto simp: ensure_inflight_eq inflight_or_new_def push_waiter_def in_flight_new_def
          waiting_def split: option.splits)
  next
    case False
    with that show ?thesis
      by (intro waiters_wf_entry [OF assms]) (simp add: ensure_inflight_eq)
  qed
  have "dm_wf (inflight_by_sequence ?st)" "oneshot_sent ?st = oneshot_sent st"
    "next_oneshot ?st = Suc (next_oneshot st)"
    using assms by (simp_all add: ensure_inflight_eq waiters_wf_def)
  moreover have "w < Suc (next_oneshot st) \<longleftrightarrow>
      (\<exists>k. waiting st w k \<or> w = next_oneshot st \<and> k = (d, seq)) \<or> map_of (oneshot_sent st) w \<noteq> None" for w
    unfolding less_Suc_eq waiters_wfD(3) [OF assms] by blast
  moreover have "waiting st w k \<or> w = next_oneshot st \<and> k = (d, seq) \<Longrightarrow> map_of (oneshot_sent st) w = None" for w k
    using waiters_wfD(2) [OF assms] unsent by blast
  moreover have "waiting st w k \<or> w = next_oneshot st \<and> k = (d, seq) \<Longrightarrow>
      waiting st w k' \<or> w = next_oneshot st \<and> k' = (d, seq) \<Longrightarrow> k = k'" for w k k'
    using waiters_wfD(1) [OF assms] fresh by blast
  ultimately show ?thesis
    using fl unfolding waiters_wf_def ensure_waiting by presburger
qed

lemma take_and_complete_eq:
  "take_and_complete d seq resp st =
     (case map_of (inflight_by_sequence st) (d, seq) of
        None \<Rightarrow> st\<lparr>inflight_by_sequence := AList.delete (d, seq) (inflight_by_sequence st)\<rparr>
      | Some fl \<Rightarrow> complete resp fl
          (st\<lparr>inflight_by_sequence := AList.delete (d, seq) (inflight_by_sequence st)\<rparr>))"
  by (simp add: take_and_complete_def take_inflight_def)

lemma take_and_complete_frame [frame_simps, simp]:
  "sessions_by_device_id (take_and_complete d seq resp st) = sessions_by_device_id st"
  "connection_to_device_id (take_and_complete d seq resp st) = connection_to_device_id st"
  "device_last_seen (take_and_complete d seq resp st) = device_last_seen st"
  "connection_id_counter (take_and_complete d seq resp st) = connection_id_counter st"
  "controller_connection_count (take_and_complete d seq resp st) = controller_connection_count st"
  "next_oneshot (take_and_complete d seq resp st) = next_oneshot st"
  "map_of (inflight_by_sequence (take_and_complete d seq resp st)) =
     (map_of (inflight_by_sequence st))((d, seq) := None)"
  by (simp_all add: take_and_complete_eq split: option.split)

lemma take_and_complete_sent:
  "map_of (oneshot_sent (take_and_complete d seq resp st)) w =
     (if waiting st w (d, seq) then Some resp else map_of (oneshot_sent st) w)"
  by (simp add: take_and_complete_eq waiting_def complete_sent split: option.split)

lemma take_and_complete_waiting:
  "waiting (take_and_complete d seq resp st) w k \<longleftrightarrow> waiting st w k \<and> k \<noteq> (d, seq)"
  by (auto simp: waiting_def)

lemma waiters_wf_take_and_complete:
  assumes "waiters_wf st"
  shows "waiters_wf (take_and_complete d seq resp st)"
proof -
  have "dm_wf (inflight_by_sequence (take_and_complete d seq resp st))"
    using assms by (simp add: take_and_complete_eq waiters_wf_def split: option.split)
  with assms show ?thesis
    unfolding waiters_wf_def take_and_complete_waiting take_and_complete_sent take_and_complete_frame
    by (auto 4 3)
qed

lemma map_of_fold_dm_delete:
  "map_of (fold AList.delete ks m) k = (if k \<in> set ks then None else map_of m k)"
  by (induction ks arbitrary: m) auto

lemma dm_wf_fold_dm_delete: "dm_wf m \<Longrightarrow> dm_wf (fold AList.delete ks m)"
  by (induction ks arbitrary: m) auto

lemma take_inflight_keys_state:
  "snd (take_inflight_keys keys st) =
     st\<lparr>inflight_by_sequence := fold AList.delete keys (inflight_by_sequence st)\<rparr>"
proof (induction keys arbitrary: st)
  case (Cons k keys)
  then show ?case by (cases k) (simp add: take_inflight_def Let_def case_prod_unfold)
qed simp

lemma take_inflight_keys_result:
  assumes "distinct keys"
  shows "(seq, fl) \<in> set (fst (take_inflight_keys keys st)) \<longleftrightarrow>
    (\<exists>d. (d, seq) \<in> set keys \<and> map_of (inflight_by_sequence st) (d, seq) = Some fl)"
  using assms
proof (induction keys arbitrary: st)
  case (Cons k keys)
  obtain d0 s0 where k: "k = (d0, s0)" by (cases k)
  have "(seq, fl) \<in> set (fst (take_inflight_keys keys (snd (take_inflight d0 s0 st)))) \<longleftrightarrow>
      (\<exists>d. (d, seq) \<in> set keys \<and> map_of (inflight_by_sequence st) (d, seq) = Some fl)"
    using Cons.prems by (subst Cons.IH) (auto simp: take_inflight_def k)
  then show ?case
    by (auto simp: k case_prod_unfold Let_def take_inflight_def split: option.splits)
qed simp

lemma complete_all_Cons [simp]:
  "complete_all resp ((a, b) # taken) st = complete_all resp taken (complete (resp a) b st)"
  by (simp add: complete_all_def)

lemma complete_all_frame [frame_simps, simp]:
  "sessions_by_device_id (complete_all resp taken st) = sessions_by_device_id st"
  "connection_to_device_id (complete_all resp taken st) = connection_to_device_id st"
  "inflight_by_sequence (complete_all resp taken st) = inflight_by_sequence st"
  "device_last_seen (complete_all resp taken st) = device_last_seen st"
  "connection_id_counter (complete_all resp taken st) = connection_id_counter st"
  "controller_connection_count (complete_all resp taken st) = controller_connection_count st"
  "next_oneshot (complete_all resp taken st) = next_oneshot st"
  unfolding complete_all_def by (induction taken arbitrary: st) auto

lemma complete_all_unsent:
  "(\<And>seq fl. (seq, fl) \<in> set taken \<Longrightarrow> w \<notin> set (if_waiters fl)) \<Longrightarrow>
     map_of (oneshot_sent (complete_all resp taken st)) w = map_of (oneshot_sent st) w"
proof (induction taken arbitrary: st)
  case (Cons x taken)
  obtain a b where x: "x = (a, b)" by (cases x)
  have "w \<notin> set (if_waiters b)" using Cons.prems by (auto simp: x)
  moreover have "map_of (oneshot_sent (complete_all resp taken (complete (resp a) b st))) w
      = map_of (oneshot_sent (complete (resp a) b st)) w"
    using Cons.prems by (intro Cons.IH) auto
  ultimately show ?case by (simp add: x complete_sent)
qed (simp add: complete_all_def)

lemma complete_all_sent:
  assumes "\<And>seq fl. (seq, fl) \<in> set taken \<Longrightarrow> w \<in> set (if_waiters fl) \<Longrightarrow> seq = s"
    and "(s, fl0) \<in> set taken" "w \<in> set (if_waiters fl0)"
  shows "map_of (oneshot_sent (complete_all resp taken st)) w = Some (resp s)"
  using assms
proof (induction taken arbitrary: st fl0)
  case (Cons x taken)
  obtain a b where x: "x = (a, b)" by (cases x)
  show ?case
  proof (cases "\<exists>seq fl. (seq, fl) \<in> set taken \<and> w \<in> set (if_waiters fl)")
    case True
    then obtain fl where "(s, fl) \<in> set taken" "w \<in> set (if_waiters fl)"
      using Cons.prems(1) by auto
    then have "map_of (oneshot_sent (complete_all resp taken (complete (resp a) b st))) w = Some (resp s)"
      using Cons.prems(1) by (intro Cons.IH [of fl]) auto
    then show ?thesis by (simp add: x)
  next
    case False
    then have "(s, fl0) = (a, b)" using Cons.prems(2,3) x by auto
    then have ab: "a = s" "b = fl0" by auto
    have "map_of (oneshot_sent (complete_all resp taken (complete (resp a) b st))) w
        = map_of (oneshot_sent (complete (resp a) b st)) w"
      by (rule complete_all_unsent) (use False in blast)
    then show ?thesis using Cons.prems(3) by (simp add: x ab complete_sent)
  qed
qed simp

text \<open>All requests in flight to one device end with the given response.\<close>

definition fail_inflight :: "string \<Rightarrow> (int \<Rightarrow> device_response) \<Rightarrow> relay_state \<Rightarrow> relay_state" where
  "fail_inflight d resp st =
     (let (taken, st1) = take_inflight_for_device d st in complete_all resp taken st1)"

lemma fail_inflight_frame [frame_simps, simp]:
  "sessions_by_device_id (fail_inflight d resp st) = sessions_by_device_id st"
  "connection_to_device_id (fail_inflight d resp st) = connection_to_device_id st"
  "device_last_seen (fail_inflight d resp st) = device_last_seen st"
  "connection_id_counter (fail_inflight d resp st) = connection_id_counter st"
  "controller_connection_count (fail_inflight d resp st) = controller_connection_count st"
  "next_oneshot (fail_inflight d resp st) = next_oneshot st"
  by (simp_all add: fail_inflight_def case_prod_unfold Let_def take_inflight_for_device_def
      take_inflight_keys_state)

lemma device_keys:
  assumes "waiters_wf st"
  shows "distinct (map fst (filter (\<lambda>e. if_device_id (snd e) = d) (inflight_by_sequence st)))"
    and "k \<in> set (map fst (filter (\<lambda>e. if_device_id (snd e) = d) (inflight_by_sequence st)))
      \<longleftrightarrow> fst k = d \<and> map_of (inflight_by_sequence st) k \<noteq> None"
proof -
  have wf: "dm_wf (inflight_by_sequence st)" using assms by (simp add: waiters_wf_def)
  then show "distinct (map fst (filter (\<lambda>e. if_device_id (snd e) = d) (inflight_by_sequence st)))"
    by (simp add: dm_wf_def distinct_map_filter)
  have "k \<in> set (map fst (filter (\<lambda>e. if_device_id (snd e) = d) (inflight_by_sequence st)))
      \<longleftrightarrow> (\<exists>fl. map_of (inflight_by_sequence st) k = Some fl \<and> if_device_id fl = d)"
    unfolding dm_entry_iff [OF wf, symmetric]
    by (simp only: set_map set_filter image_iff mem_Collect_eq bex_simps) (metis fst_conv snd_conv prod.collapse)
  moreover have "map_of (inflight_by_sequence st) k = Some fl \<Longrightarrow> if_device_id fl = fst k" for fl
    using waiters_wf_entry [OF assms, of k] by simp
  ultimately show "k \<in> set (map fst (filter (\<lambda>e. if_device_id (snd e) = d) (inflight_by_sequence st)))
      \<longleftrightarrow> fst k = d \<and> map_of (inflight_by_sequence st) k \<noteq> None"
    by (metis not_None_eq)
qed

lemma fail_inflight_lookup:
  assumes "waiters_wf st"
  shows "map_of (inflight_by_sequence (fail_inflight d resp st)) k =
    (if fst k = d then None else map_of (inflight_by_sequence st) k)"
  using device_keys(2) [OF assms, of k d]
  by (simp add: fail_inflight_def case_prod_unfold Let_def take_inflight_for_device_def
      take_inflight_keys_state map_of_fold_dm_delete)

lemma fail_inflight_waiting:
  assumes "waiters_wf st"
  shows "waiting (fail_inflight d resp st) w k \<longleftrightarrow> waiting st w k \<and> fst k \<noteq> d"
  by (auto simp: waiting_def fail_inflight_lookup [OF assms])

lemma fail_inflight_taken:
  assumes "waiters_wf st"
  shows "(seq, fl) \<in> set (fst (take_inflight_for_device d st)) \<longleftrightarrow>
    map_of (inflight_by_sequence st) (d, seq) = Some fl"
  unfolding take_inflight_for_device_def take_inflight_keys_result [OF device_keys(1) [OF assms]]
    device_keys(2) [OF assms] by auto

lemma fail_inflight_sent:
  assumes "waiters_wf st"
  shows "waiting st w (d, seq) \<Longrightarrow> map_of (oneshot_sent (fail_inflight d resp st)) w = Some (resp seq)"
    and "(\<And>seq. \<not> waiting st w (d, seq)) \<Longrightarrow>
      map_of (oneshot_sent (fail_inflight d resp st)) w = map_of (oneshot_sent st) w"
proof -
  have eq: "fail_inflight d resp st =
      complete_all resp (fst (take_inflight_for_device d st)) (snd (take_inflight_for_device d st))"
    by (simp add: fail_inflight_def case_prod_unfold Let_def)
  have sent: "oneshot_sent (snd (take_inflight_for_device d st)) = oneshot_sent st"
    by (simp add: take_inflight_for_device_def take_inflight_keys_state)
  {
    assume w: "waiting st w (d, seq)"
    then obtain fl0 where "map_of (inflight_by_sequence st) (d, seq) = Some fl0" "w \<in> set (if_waiters fl0)"
      by (auto simp: waiting_def)
    then show "map_of (oneshot_sent (fail_inflight d resp st)) w = Some (resp seq)"
      unfolding eq using waiters_wfD(1) [OF assms w] fail_inflight_taken [OF assms]
      by (intro complete_all_sent [of _ _ _ fl0]) (auto simp: waiting_def)
  }
  {
    assume "\<And>seq. \<not> waiting st w (d, seq)"
    then show "map_of (oneshot_sent (fail_inflight d resp st)) w = map_of (oneshot_sent st) w"
      unfolding eq sent [symmetric] using fail_inflight_taken [OF assms]
      by (intro complete_all_unsent) (auto simp: waiting_def)
  }
qed

lemma waiters_wf_fail:
  assumes "waiters_wf st"
  shows "waiters_wf (fail_inflight d resp st)"
proof -
  let ?st = "fail_inflight d resp st"
  have dm: "dm_wf (inflight_by_sequence ?st)"
    using assms by (simp add: fail_inflight_def case_prod_unfold Let_def take_inflight_for_device_def
        take_inflight_keys_state dm_wf_fold_dm_delete waiters_wf_def)
  have fl: "if_device_id fl = fst k \<and> distinct (if_waiters fl) \<and> if_waiters fl \<noteq> []"
    if "map_of (inflight_by_sequence ?st) k = Some fl" for k fl
    using that waiters_wf_entry [OF assms] by (auto simp: fail_inflight_lookup [OF assms] split: if_splits)
  have sent: "map_of (oneshot_sent ?st) w \<noteq> None
      \<longleftrightarrow> map_of (oneshot_sent st) w \<noteq> None \<or> (\<exists>seq. waiting st w (d, seq))" for w
    using fail_inflight_sent [OF assms, of w d] waiters_wfD(2) [OF assms, of w] by (cases "\<exists>seq. waiting st w (d, seq)") auto
  have 1: "map_of (oneshot_sent ?st) w = None" if "waiting st w k \<and> fst k \<noteq> d" for w k
    using that sent [of w] waiters_wfD(1,2) [OF assms, of w k] by force
  have 2: "w < next_oneshot st \<longleftrightarrow>
      (\<exists>k. waiting st w k \<and> fst k \<noteq> d) \<or> map_of (oneshot_sent ?st) w \<noteq> None" for w
    unfolding sent waiters_wfD(3) [OF assms] by (metis prod.collapse)
  have 3: "k = k'" if "waiting st w k \<and> fst k \<noteq> d" "waiting st w k' \<and> fst k' \<noteq> d" for w k k'
    using that waiters_wfD(1) [OF assms] by blast
  show ?thesis
    unfolding waiters_wf_def fail_inflight_waiting [OF assms] fail_inflight_frame
    using dm fl 1 2 3 by presburger
qed

end
