(* ===== verification/Relay_Metrics.thy ===== *)
theory Relay_Metrics
  imports Relay_Config
begin

text \<open>
  \<^verbatim>\<open>crates/relay/src/security_metrics.rs\<close>, the metric families of \<^verbatim>\<open>relay_metrics.rs\<close> and the
  thresholds of \<^verbatim>\<open>resource_monitor.rs\<close>. \<open>SecurityMetrics\<close> holds its own counters and, once
  \<open>attach_relay_metrics\<close> has run, a handle on the relay's Prometheus counters; the handle and
  the service share one registry, so both live in one record here and attaching is a flag. The
  readings of \<open>sysinfo\<close> are arguments.
\<close>

section \<open>Prometheus families\<close>

record relay_metrics =
  rm_auth_success_total :: u64
  rm_auth_failure_total :: u64
  rm_authorization_denied_total :: u64
  rm_rate_limit_hits_total :: u64
  rm_revoked_tokens_total :: u64
  rm_active_device_connections :: int
  rm_active_controller_connections :: int
  rm_active_streams :: int
  rm_cpu_usage_percent :: real
  rm_memory_usage_percent :: real
  rm_memory_used_bytes :: real
  rm_mqtt_connected :: int
  rm_mqtt_reconnect_count :: int
  rm_mqtt_dropped_count :: int
  rm_mqtt_queue_pending :: int
  rm_health_status :: int
  rm_component_health :: "(string list, real) dashmap"
  rm_request_latency_seconds :: "(string list \<times> real) list"
  rm_requests_total :: "(string list, u64) dashmap"
  rm_bytes_transferred_total :: "(string list, u64) dashmap"

definition relay_metrics_new :: relay_metrics where
  "relay_metrics_new =
     \<lparr>rm_auth_success_total = 0, rm_auth_failure_total = 0, rm_authorization_denied_total = 0,
      rm_rate_limit_hits_total = 0, rm_revoked_tokens_total = 0, rm_active_device_connections = 0,
      rm_active_controller_connections = 0, rm_active_streams = 0, rm_cpu_usage_percent = 0,
      rm_memory_usage_percent = 0, rm_memory_used_bytes = 0, rm_mqtt_connected = 0,
      rm_mqtt_reconnect_count = 0, rm_mqtt_dropped_count = 0, rm_mqtt_queue_pending = 0,
      rm_health_status = 0, rm_component_health = [], rm_request_latency_seconds = [],
      rm_requests_total = [], rm_bytes_transferred_total = []\<rparr>"

text \<open>\<open>with_label_values(..).inc()\<close>, \<open>inc_by(n)\<close> and \<open>observe(x)\<close> as the handlers use them.\<close>

definition counter_vec_add :: "string list \<Rightarrow> u64 \<Rightarrow> (string list, u64) dashmap \<Rightarrow> (string list, u64) dashmap" where
  "counter_vec_add labels n m =
     AList.update labels ((case map_of m labels of Some v \<Rightarrow> v | None \<Rightarrow> 0) + n) m"

definition requests_total_inc :: "string \<Rightarrow> string \<Rightarrow> relay_metrics \<Rightarrow> relay_metrics" where
  "requests_total_inc method_name status rm =
     rm\<lparr>rm_requests_total := counter_vec_add [method_name, status] 1 (rm_requests_total rm)\<rparr>"

definition bytes_transferred_inc_by :: "string \<Rightarrow> u64 \<Rightarrow> relay_metrics \<Rightarrow> relay_metrics" where
  "bytes_transferred_inc_by direction n rm =
     rm\<lparr>rm_bytes_transferred_total := counter_vec_add [direction] n (rm_bytes_transferred_total rm)\<rparr>"

definition request_latency_observe :: "string \<Rightarrow> string \<Rightarrow> real \<Rightarrow> relay_metrics \<Rightarrow> relay_metrics" where
  "request_latency_observe method_name status x rm =
     rm\<lparr>rm_request_latency_seconds := rm_request_latency_seconds rm @ [([method_name, status], x)]\<rparr>"

section \<open>Security metrics\<close>

record metrics =
  sx_auth_success_total :: u64
  sx_auth_failure_total :: u64
  sx_authorization_denied_total :: u64
  sx_rate_limit_total :: u64
  sx_revoked_tokens_total :: u64
  sx_relay_metrics_attached :: bool
  m_relay :: relay_metrics

definition metrics_new :: metrics where
  "metrics_new =
     \<lparr>sx_auth_success_total = 0, sx_auth_failure_total = 0, sx_authorization_denied_total = 0,
      sx_rate_limit_total = 0, sx_revoked_tokens_total = 0, sx_relay_metrics_attached = False,
      m_relay = relay_metrics_new\<rparr>"

definition attach_relay_metrics :: "metrics \<Rightarrow> metrics" where
  "attach_relay_metrics mx = mx\<lparr>sx_relay_metrics_attached := True\<rparr>"

definition if_attached :: "(relay_metrics \<Rightarrow> relay_metrics) \<Rightarrow> metrics \<Rightarrow> metrics" where
  "if_attached f mx = (if sx_relay_metrics_attached mx then mx\<lparr>m_relay := f (m_relay mx)\<rparr> else mx)"

definition record_auth_success :: "metrics \<Rightarrow> metrics" where
  "record_auth_success mx =
     if_attached (\<lambda>rm. rm\<lparr>rm_auth_success_total := rm_auth_success_total rm + 1\<rparr>)
       (mx\<lparr>sx_auth_success_total := sx_auth_success_total mx + 1\<rparr>)"

definition record_auth_failure :: "metrics \<Rightarrow> metrics" where
  "record_auth_failure mx =
     if_attached (\<lambda>rm. rm\<lparr>rm_auth_failure_total := rm_auth_failure_total rm + 1\<rparr>)
       (mx\<lparr>sx_auth_failure_total := sx_auth_failure_total mx + 1\<rparr>)"

definition record_authorization_denied :: "metrics \<Rightarrow> metrics" where
  "record_authorization_denied mx =
     if_attached (\<lambda>rm. rm\<lparr>rm_authorization_denied_total := rm_authorization_denied_total rm + 1\<rparr>)
       (mx\<lparr>sx_authorization_denied_total := sx_authorization_denied_total mx + 1\<rparr>)"

definition record_rate_limit :: "metrics \<Rightarrow> metrics" where
  "record_rate_limit mx =
     if_attached (\<lambda>rm. rm\<lparr>rm_rate_limit_hits_total := rm_rate_limit_hits_total rm + 1\<rparr>)
       (mx\<lparr>sx_rate_limit_total := sx_rate_limit_total mx + 1\<rparr>)"

definition record_revoked_token :: "metrics \<Rightarrow> metrics" where
  "record_revoked_token mx =
     if_attached (\<lambda>rm. rm\<lparr>rm_revoked_tokens_total := rm_revoked_tokens_total rm + 1\<rparr>)
       (mx\<lparr>sx_revoked_tokens_total := sx_revoked_tokens_total mx + 1\<rparr>)"

definition ratio :: "u64 \<Rightarrow> u64 \<Rightarrow> real" where
  "ratio v all = (if all = 0 then 0 else real (unat v) / real (unat all))"

record security_metrics_snapshot =
  snap_auth_success_total :: u64
  snap_auth_failure_total :: u64
  snap_authorization_denied_total :: u64
  snap_rate_limit_total :: u64
  snap_revoked_tokens_total :: u64
  snap_auth_failure_ratio :: real
  snap_authorization_denied_ratio :: real
  snap_rate_limit_ratio :: real

definition security_snapshot :: "metrics \<Rightarrow> security_metrics_snapshot" where
  "security_snapshot mx =
     (let auth_total = sx_auth_success_total mx + sx_auth_failure_total mx
      in \<lparr>snap_auth_success_total = sx_auth_success_total mx,
          snap_auth_failure_total = sx_auth_failure_total mx,
          snap_authorization_denied_total = sx_authorization_denied_total mx,
          snap_rate_limit_total = sx_rate_limit_total mx,
          snap_revoked_tokens_total = sx_revoked_tokens_total mx,
          snap_auth_failure_ratio = ratio (sx_auth_failure_total mx) auth_total,
          snap_authorization_denied_ratio = ratio (sx_authorization_denied_total mx) auth_total,
          snap_rate_limit_ratio = ratio (sx_rate_limit_total mx) auth_total\<rparr>)"

section \<open>Resource monitor\<close>

record resource_monitor =
  mon_cpu_threshold :: real
  mon_memory_threshold_mb :: u64

definition resource_monitor_new :: "rate_limit_config \<Rightarrow> resource_monitor" where
  "resource_monitor_new config =
     \<lparr>mon_cpu_threshold = cpu_threshold_percent config,
      mon_memory_threshold_mb = memory_threshold_mb config\<rparr>"

text \<open>What \<open>sysinfo\<close> reports after a refresh.\<close>

record sys_reading =
  global_cpu_usage :: real
  used_memory :: u64
  total_memory :: u64

definition is_healthy :: "sys_reading \<Rightarrow> resource_monitor \<Rightarrow> bool" where
  "is_healthy sys mon =
     (if global_cpu_usage sys > mon_cpu_threshold mon then False
      else if used_memory sys div (1024 * 1024) > mon_memory_threshold_mb mon then False
      else True)"

definition memory_usage_percent :: "sys_reading \<Rightarrow> real" where
  "memory_usage_percent sys =
     (if total_memory sys = 0 then 0
      else real (unat (used_memory sys)) / real (unat (total_memory sys)) * 100)"

definition used_memory_mb :: "sys_reading \<Rightarrow> u64" where
  "used_memory_mb sys = used_memory sys div (1024 * 1024)"

section \<open>Facts\<close>

lemmas security_record_defs =
  record_auth_success_def record_auth_failure_def record_authorization_denied_def
  record_rate_limit_def record_revoked_token_def if_attached_def

text \<open>
  While the relay's counters are attached from the start, they agree with the service's own:
  the two are advanced together.
\<close>

definition metrics_mirrored :: "metrics \<Rightarrow> bool" where
  "metrics_mirrored mx \<longleftrightarrow> sx_relay_metrics_attached mx
     \<and> rm_auth_success_total (m_relay mx) = sx_auth_success_total mx
     \<and> rm_auth_failure_total (m_relay mx) = sx_auth_failure_total mx
     \<and> rm_authorization_denied_total (m_relay mx) = sx_authorization_denied_total mx
     \<and> rm_rate_limit_hits_total (m_relay mx) = sx_rate_limit_total mx
     \<and> rm_revoked_tokens_total (m_relay mx) = sx_revoked_tokens_total mx"

lemma mirrored_records [inv_intros]:
  "metrics_mirrored mx \<Longrightarrow> metrics_mirrored (record_auth_success mx)"
  "metrics_mirrored mx \<Longrightarrow> metrics_mirrored (record_auth_failure mx)"
  "metrics_mirrored mx \<Longrightarrow> metrics_mirrored (record_authorization_denied mx)"
  "metrics_mirrored mx \<Longrightarrow> metrics_mirrored (record_rate_limit mx)"
  "metrics_mirrored mx \<Longrightarrow> metrics_mirrored (record_revoked_token mx)"
  by (simp_all add: metrics_mirrored_def security_record_defs)

lemma mirrored_new: "metrics_mirrored (attach_relay_metrics metrics_new)"
  by (simp add: metrics_mirrored_def attach_relay_metrics_def metrics_new_def relay_metrics_new_def)

lemma failure_ratio_bounds:
  assumes "unat (sx_auth_success_total mx) + unat (sx_auth_failure_total mx) < 2 ^ 64"
  shows "0 \<le> snap_auth_failure_ratio (security_snapshot mx)"
    and "snap_auth_failure_ratio (security_snapshot mx) \<le> 1"
proof -
  have eq: "unat (sx_auth_success_total mx + sx_auth_failure_total mx)
      = unat (sx_auth_success_total mx) + unat (sx_auth_failure_total mx)"
    using assms by (simp add: unat_word_ariths)
  show "0 \<le> snap_auth_failure_ratio (security_snapshot mx)"
    unfolding security_snapshot_def ratio_def Let_def by (simp del: of_nat_unat)
  show "snap_auth_failure_ratio (security_snapshot mx) \<le> 1"
    unfolding security_snapshot_def ratio_def Let_def by (simp add: eq divide_le_eq_1 del: of_nat_unat) linarith
qed

end
