(* ===== verification/Audit_Log.thy ===== *)
theory Audit_Log
  imports Relay_Config
begin

text \<open>
  \<^verbatim>\<open>crates/relay/src/audit.rs\<close>: the audit events, the bounded queue between the handlers and the
  writer task with its drop counter, the filter on event types, and the file writer with its
  rotation and retention. Serialising an event (\<open>serde_json::to_string\<close>) and the RFC 3339 text of
  the clock are arguments, bundled as \<open>audit_io\<close>. The file system is the family of files the
  writer names: number 0 is the active file, number \<open>i\<close> the backup with extension \<open>log.i\<close>; which
  of its operations fail (rename, remove, open, write, flush, metadata) is an argument.
\<close>

section \<open>Events\<close>

text \<open>The values of \<open>serde_json::Value\<close> that the sources build.\<close>

datatype json =
    JNull
  | JBool bool
  | JNumber int
  | JFloat real
  | JString string
  | JArray "json list"
  | JObject "(string \<times> json) list"

datatype audit_event =
    DeviceConnect string string string string string "json option"
      \<comment> \<open>timestamp, relay_id, device_id, connection_id, source_ip, metadata\<close>
  | DeviceDisconnect string string string string string string
      \<comment> \<open>timestamp, relay_id, device_id, connection_id, reason, source_ip\<close>
  | DeviceRegister string string string string "string option" bool string
      \<comment> \<open>timestamp, relay_id, device_id, connection_id, previous_connection_id,
          session_resumed, source_ip\<close>
  | ControllerConnect string string string string "string option"
      \<comment> \<open>timestamp, relay_id, controller_id, source_ip, user_agent\<close>
  | ControllerDisconnect string string string
      \<comment> \<open>timestamp, relay_id, controller_id\<close>
  | ControllerRequest string string string string string string int string "string option" "real
      option" "u64 option" string "string option" "json option"
      \<comment> \<open>timestamp, relay_id, controller_id, device_id, connection_id,
          method_name, sequence_number, result, error_code, latency_ms, bytes_transferred,
              source_ip, user_agent, metadata\<close>
  | StreamCreated string string string string string string string
      \<comment> \<open>timestamp, relay_id, stream_id, device_id, controller_id, method_name,
          source_ip\<close>
  | StreamClosed string string string string string string "u64 option"
      \<comment> \<open>timestamp, relay_id, stream_id, device_id, controller_id, reason,
          bytes_transferred\<close>
  | AuthFailure string string string string string string "string option"
      \<comment> \<open>timestamp, relay_id, entity_type, entity_id, reason, source_ip,
          token_prefix\<close>
  | AuthSuccess string string string string string
      \<comment> \<open>timestamp, relay_id, entity_type, entity_id, source_ip\<close>
  | AuthorizationDenied string string string string string string string
      \<comment> \<open>timestamp, relay_id, controller_id, device_id, method_name, reason,
          source_ip\<close>
  | RateLimit string string string string string string
      \<comment> \<open>timestamp, relay_id, entity_type, entity_id, limit_kind, source_ip\<close>
  | SessionResumed string string string string string string
      \<comment> \<open>timestamp, relay_id, device_id, old_connection_id, new_connection_id,
          source_ip\<close>
  | SessionExpired string string string string string
      \<comment> \<open>timestamp, relay_id, device_id, connection_id, source_ip\<close>
  | Error string string string string "json option"
      \<comment> \<open>timestamp, relay_id, message, error_code, context\<close>

text \<open>The \<open>event_type\<close> tag of the serialised event (\<open>serde(rename)\<close>).\<close>

fun event_type :: "audit_event \<Rightarrow> string" where
  "event_type (DeviceConnect _ _ _ _ _ _) = ''device_connect''"
| "event_type (DeviceDisconnect _ _ _ _ _ _) = ''device_disconnect''"
| "event_type (DeviceRegister _ _ _ _ _ _ _) = ''device_register''"
| "event_type (ControllerConnect _ _ _ _ _) = ''controller_connect''"
| "event_type (ControllerDisconnect _ _ _) = ''controller_disconnect''"
| "event_type (ControllerRequest _ _ _ _ _ _ _ _ _ _ _ _ _ _) = ''controller_request''"
| "event_type (StreamCreated _ _ _ _ _ _ _) = ''stream_created''"
| "event_type (StreamClosed _ _ _ _ _ _ _) = ''stream_closed''"
| "event_type (AuthFailure _ _ _ _ _ _ _) = ''auth_failure''"
| "event_type (AuthSuccess _ _ _ _ _) = ''auth_success''"
| "event_type (AuthorizationDenied _ _ _ _ _ _ _) = ''authorization_denied''"
| "event_type (RateLimit _ _ _ _ _ _) = ''rate_limit''"
| "event_type (SessionResumed _ _ _ _ _ _) = ''session_resumed''"
| "event_type (SessionExpired _ _ _ _ _) = ''session_expired''"
| "event_type (Error _ _ _ _ _) = ''error''"

section \<open>The logger and its queue\<close>

record audit_io =
  io_now_text :: "string option"
  io_to_string :: "audit_event \<Rightarrow> string option"

record audit_logger =
  al_queue :: "string list"
  al_relay_id :: string
  al_enabled_events :: "string hashset option"
  al_dropped_events :: u64

definition AUDIT_QUEUE_CAPACITY :: nat where
  "AUDIT_QUEUE_CAPACITY = 4096"

definition audit_logger_new :: "audit_config \<Rightarrow> string \<Rightarrow> audit_logger option" where
  "audit_logger_new config relay_id_text =
     (if \<not> audit_enabled config then None
      else Some \<lparr>al_queue = [], al_relay_id = relay_id_text,
                 al_enabled_events = (if audit_events config = [] then None
                                      else Some (remdups (audit_events config))),
                 al_dropped_events = 0\<rparr>)"

definition should_log :: "audit_logger \<Rightarrow> string \<Rightarrow> bool" where
  "should_log lg ty =
     (case al_enabled_events lg of None \<Rightarrow> True | Some events \<Rightarrow> List.member events ty)"

definition audit_now :: "audit_io \<Rightarrow> string" where
  "audit_now io = (case io_now_text io of Some t \<Rightarrow> t | None \<Rightarrow> ''1970-01-01T00:00:00Z'')"

definition audit_send :: "audit_io \<Rightarrow> audit_event \<Rightarrow> audit_logger \<Rightarrow> audit_logger" where
  "audit_send io event lg =
     (case io_to_string io event of
        None \<Rightarrow> lg
      | Some line \<Rightarrow>
          (if length (al_queue lg) < AUDIT_QUEUE_CAPACITY
           then lg\<lparr>al_queue := al_queue lg @ [line]\<rparr>
           else lg\<lparr>al_dropped_events := al_dropped_events lg + 1\<rparr>))"

section \<open>Convenience methods\<close>

definition audit_device_connect ::
  "audit_io \<Rightarrow> string \<Rightarrow> string \<Rightarrow> string \<Rightarrow> json
      option \<Rightarrow> audit_logger \<Rightarrow> audit_logger" where
  "audit_device_connect io device_id connection_id source_ip meta lg =
     (if \<not> should_log lg ''device_connect'' then lg
      else audit_send io (DeviceConnect (audit_now io) (al_relay_id lg) device_id connection_id
          source_ip meta) lg)"

definition audit_device_disconnect ::
  "audit_io \<Rightarrow> string \<Rightarrow> string \<Rightarrow> string \<Rightarrow> string
      \<Rightarrow> audit_logger \<Rightarrow> audit_logger" where
  "audit_device_disconnect io device_id connection_id reason source_ip lg =
     (if \<not> should_log lg ''device_disconnect'' then lg
      else audit_send io (DeviceDisconnect (audit_now io) (al_relay_id lg) device_id
          connection_id reason source_ip) lg)"

definition audit_device_register ::
  "audit_io \<Rightarrow> string \<Rightarrow> string \<Rightarrow> string option \<Rightarrow>
      bool \<Rightarrow> string \<Rightarrow> audit_logger \<Rightarrow> audit_logger" where
  "audit_device_register io device_id connection_id previous session_resumed source_ip lg =
     (if \<not> should_log lg ''device_register'' then lg
      else audit_send io (DeviceRegister (audit_now io) (al_relay_id lg) device_id connection_id
          previous session_resumed source_ip) lg)"

definition audit_controller_connect ::
  "audit_io \<Rightarrow> string \<Rightarrow> string \<Rightarrow> string option \<Rightarrow>
      audit_logger \<Rightarrow> audit_logger" where
  "audit_controller_connect io controller_id source_ip user_agent lg =
     (if \<not> should_log lg ''controller_connect'' then lg
      else audit_send io (ControllerConnect (audit_now io) (al_relay_id lg) controller_id
          source_ip user_agent) lg)"

definition audit_controller_disconnect ::
  "audit_io \<Rightarrow> string \<Rightarrow> audit_logger \<Rightarrow> audit_logger" where
  "audit_controller_disconnect io controller_id lg =
     (if \<not> should_log lg ''controller_disconnect'' then lg
      else audit_send io (ControllerDisconnect (audit_now io) (al_relay_id lg) controller_id) lg)"

definition audit_controller_request ::
  "audit_io \<Rightarrow> string \<Rightarrow> string \<Rightarrow> string \<Rightarrow> string
      \<Rightarrow> int \<Rightarrow> string \<Rightarrow> string option \<Rightarrow> real
          option \<Rightarrow> u64 option \<Rightarrow> string \<Rightarrow> string option
              \<Rightarrow> json option \<Rightarrow> audit_logger \<Rightarrow> audit_logger" where
  "audit_controller_request io controller_id device_id connection_id method_name sequence_number
      result error_code latency_ms bytes_transferred source_ip user_agent meta lg =
     (if \<not> should_log lg ''controller_request'' then lg
      else audit_send io (ControllerRequest (audit_now io) (al_relay_id lg) controller_id
          device_id connection_id method_name sequence_number result error_code latency_ms
              bytes_transferred source_ip user_agent meta) lg)"

definition audit_stream_created ::
  "audit_io \<Rightarrow> string \<Rightarrow> string \<Rightarrow> string \<Rightarrow> string
      \<Rightarrow> string \<Rightarrow> audit_logger \<Rightarrow> audit_logger" where
  "audit_stream_created io stream_id device_id controller_id method_name source_ip lg =
     (if \<not> should_log lg ''stream_created'' then lg
      else audit_send io (StreamCreated (audit_now io) (al_relay_id lg) stream_id device_id
          controller_id method_name source_ip) lg)"

definition audit_stream_closed ::
  "audit_io \<Rightarrow> string \<Rightarrow> string \<Rightarrow> string \<Rightarrow> string
      \<Rightarrow> u64 option \<Rightarrow> audit_logger \<Rightarrow> audit_logger" where
  "audit_stream_closed io stream_id device_id controller_id reason bytes_transferred lg =
     (if \<not> should_log lg ''stream_closed'' then lg
      else audit_send io (StreamClosed (audit_now io) (al_relay_id lg) stream_id device_id
          controller_id reason bytes_transferred) lg)"

definition audit_auth_failure ::
  "audit_io \<Rightarrow> string \<Rightarrow> string \<Rightarrow> string \<Rightarrow> string
      \<Rightarrow> string option \<Rightarrow> audit_logger \<Rightarrow> audit_logger" where
  "audit_auth_failure io entity_type entity_id reason source_ip token_prefix lg =
     (if \<not> should_log lg ''auth_failure'' then lg
      else audit_send io (AuthFailure (audit_now io) (al_relay_id lg) entity_type entity_id
          reason source_ip token_prefix) lg)"

definition audit_auth_success ::
  "audit_io \<Rightarrow> string \<Rightarrow> string \<Rightarrow> string \<Rightarrow>
      audit_logger \<Rightarrow> audit_logger" where
  "audit_auth_success io entity_type entity_id source_ip lg =
     (if \<not> should_log lg ''auth_success'' then lg
      else audit_send io (AuthSuccess (audit_now io) (al_relay_id lg) entity_type entity_id
          source_ip) lg)"

definition audit_authorization_denied ::
  "audit_io \<Rightarrow> string \<Rightarrow> string \<Rightarrow> string \<Rightarrow> string
      \<Rightarrow> string \<Rightarrow> audit_logger \<Rightarrow> audit_logger" where
  "audit_authorization_denied io controller_id device_id method_name reason source_ip lg =
     (if \<not> should_log lg ''authorization_denied'' then lg
      else audit_send io (AuthorizationDenied (audit_now io) (al_relay_id lg) controller_id
          device_id method_name reason source_ip) lg)"

definition audit_rate_limit ::
  "audit_io \<Rightarrow> string \<Rightarrow> string \<Rightarrow> string \<Rightarrow> string
      \<Rightarrow> audit_logger \<Rightarrow> audit_logger" where
  "audit_rate_limit io entity_type entity_id limit_kind source_ip lg =
     (if \<not> should_log lg ''rate_limit'' then lg
      else audit_send io (RateLimit (audit_now io) (al_relay_id lg) entity_type entity_id
          limit_kind source_ip) lg)"

definition audit_session_resumed ::
  "audit_io \<Rightarrow> string \<Rightarrow> string \<Rightarrow> string \<Rightarrow> string
      \<Rightarrow> audit_logger \<Rightarrow> audit_logger" where
  "audit_session_resumed io device_id old_connection_id new_connection_id source_ip lg =
     (if \<not> should_log lg ''session_resumed'' then lg
      else audit_send io (SessionResumed (audit_now io) (al_relay_id lg) device_id
          old_connection_id new_connection_id source_ip) lg)"

definition audit_session_expired ::
  "audit_io \<Rightarrow> string \<Rightarrow> string \<Rightarrow> string \<Rightarrow>
      audit_logger \<Rightarrow> audit_logger" where
  "audit_session_expired io device_id connection_id source_ip lg =
     (if \<not> should_log lg ''session_expired'' then lg
      else audit_send io (SessionExpired (audit_now io) (al_relay_id lg) device_id connection_id
          source_ip) lg)"

definition audit_error ::
  "audit_io \<Rightarrow> string \<Rightarrow> string \<Rightarrow> json option \<Rightarrow>
      audit_logger \<Rightarrow> audit_logger" where
  "audit_error io message error_code ctx lg =
     (if \<not> should_log lg ''error'' then lg
      else audit_send io (Error (audit_now io) (al_relay_id lg) message error_code ctx) lg)"

section \<open>File writer\<close>

record audit_file =
  af_lines :: "string list"
  af_modified :: nat

text \<open>\<open>fw_handle\<close> is the file the open handle points to; \<open>None\<close> when that file has been unlinked.\<close>

record file_audit_writer =
  fw_files :: "(nat, audit_file) dashmap"
  fw_handle :: "nat option"
  fw_max_size :: u64
  fw_max_backups :: nat
  fw_retention_days :: nat
  fw_bytes_written :: u64

datatype fs_op = Rename nat | Remove nat | OpenActive | WriteLine | Flush | Metadata nat

type_synonym fs_faults = "fs_op \<Rightarrow> bool"

text \<open>The loop over the backups; metadata that cannot be read counts as the time 0.\<close>

fun cleanup_backups_from ::
  "fs_faults \<Rightarrow> nat \<Rightarrow> nat \<Rightarrow> nat \<Rightarrow> file_audit_writer \<Rightarrow> file_audit_writer" where
  "cleanup_backups_from fails cutoff i 0 w = w"
| "cleanup_backups_from fails cutoff i (Suc n) w =
     (case map_of (fw_files w) i of
        None \<Rightarrow> w
      | Some f \<Rightarrow>
          cleanup_backups_from fails cutoff (Suc i) n
            (if (if fails (Metadata i) then 0 else af_modified f) < cutoff \<and> \<not> fails (Remove i)
             then w\<lparr>fw_files := AList.delete i (fw_files w),
                    fw_handle := (if fw_handle w = Some i then None else fw_handle w)\<rparr>
             else w))"

definition cleanup_old_backups :: "fs_faults \<Rightarrow> nat \<Rightarrow> file_audit_writer \<Rightarrow> file_audit_writer" where
  "cleanup_old_backups fails now_secs w =
     (if fw_retention_days w = 0 then w
      else cleanup_backups_from fails (now_secs - fw_retention_days w * 24 * 3600) 1
             (fw_max_backups w) w)"

text \<open>\<open>fs::rename\<close> from file \<open>i\<close> to file \<open>j\<close>: the handle follows its file.\<close>

definition rename_file :: "nat \<Rightarrow> nat \<Rightarrow> file_audit_writer \<Rightarrow> file_audit_writer" where
  "rename_file i j w =
     (case map_of (fw_files w) i of
        None \<Rightarrow> w
      | Some f \<Rightarrow>
          w\<lparr>fw_files := AList.update j f (AList.delete i (fw_files w)),
            fw_handle := (if fw_handle w = Some i then Some j
                          else if fw_handle w = Some j then None else fw_handle w)\<rparr>)"

fun shift_backups :: "fs_faults \<Rightarrow> nat \<Rightarrow> file_audit_writer \<Rightarrow> file_audit_writer" where
  "shift_backups fails 0 w = w"
| "shift_backups fails (Suc i) w =
     shift_backups fails i
       (if map_of (fw_files w) (Suc i) \<noteq> None \<and> \<not> fails (Rename (Suc i))
        then rename_file (Suc i) (Suc (Suc i)) w else w)"

definition rotate :: "fs_faults \<Rightarrow> nat \<Rightarrow> file_audit_writer \<Rightarrow> (unit + unit) \<times> file_audit_writer" where
  "rotate fails now_secs w =
     (if fails Flush then (Inl (), w) else
      let w1 = shift_backups fails (fw_max_backups w - 1) w
      in if fails (Rename 0) \<or> map_of (fw_files w1) 0 = None then (Inl (), w1)
         else
           let w2 = rename_file 0 1 w1
           in if fails OpenActive then (Inl (), w2)
              else
                let w3 = w2\<lparr>fw_files := AList.update 0 \<lparr>af_lines = [], af_modified = now_secs\<rparr> (fw_files w2),
                            fw_handle := Some 0, fw_bytes_written := 0\<rparr>
                in (Inr (), cleanup_old_backups fails now_secs w3))"

definition append_line :: "nat \<Rightarrow> string \<Rightarrow> file_audit_writer \<Rightarrow> file_audit_writer" where
  "append_line now_secs line w =
     (case fw_handle w of
        None \<Rightarrow> w
      | Some i \<Rightarrow>
          (case map_of (fw_files w) i of
             None \<Rightarrow> w
           | Some f \<Rightarrow>
               w\<lparr>fw_files := AList.update i
                   \<lparr>af_lines = af_lines f @ [line], af_modified = now_secs\<rparr> (fw_files w)\<rparr>))"

definition write_event ::
  "fs_faults \<Rightarrow> nat \<Rightarrow> string \<Rightarrow> file_audit_writer \<Rightarrow> (unit + unit) \<times> file_audit_writer" where
  "write_event fails now_secs line w =
     (if fails WriteLine then (Inl (), w)
      else
        let new_total = fw_bytes_written w + of_nat (length line) + 1;
            w1 = (append_line now_secs line w)\<lparr>fw_bytes_written := new_total\<rparr>
        in if fw_max_size w1 \<le> new_total then rotate fails now_secs w1 else (Inr (), w1))"

text \<open>
  \<open>FileAuditWriter::new\<close> once the directory exists and the file is open for appending: \<open>len\<close> is
  the length of the active file.
\<close>

definition file_audit_writer_new ::
  "fs_faults \<Rightarrow> nat \<Rightarrow> u64 \<Rightarrow> (nat, audit_file) dashmap \<Rightarrow> audit_config \<Rightarrow> file_audit_writer option" where
  "file_audit_writer_new fails now_secs len files config =
     (if fails OpenActive then None
      else
        let files1 = (case map_of files 0 of
                        Some _ \<Rightarrow> files
                      | None \<Rightarrow> AList.update 0 \<lparr>af_lines = [], af_modified = now_secs\<rparr> files)
        in Some (cleanup_old_backups fails now_secs
             \<lparr>fw_files = files1, fw_handle = Some 0,
              fw_max_size = of_nat (max_size_mb config) * 1024 * 1024,
              fw_max_backups = max_backups config, fw_retention_days = retention_days config,
              fw_bytes_written = len\<rparr>))"

datatype audit_writer = StdoutAuditWriter | FileAuditWriter file_audit_writer

definition audit_writer_new ::
  "fs_faults \<Rightarrow> nat \<Rightarrow> u64 \<Rightarrow> (nat, audit_file) dashmap \<Rightarrow> audit_config \<Rightarrow> audit_writer" where
  "audit_writer_new fails now_secs len files config =
     (if audit_output config = ''stdout'' then StdoutAuditWriter
      else case file_audit_writer_new fails now_secs len files config of
             Some w \<Rightarrow> FileAuditWriter w
           | None \<Rightarrow> StdoutAuditWriter)"

text \<open>One turn of the writer task: a line leaves the queue and is written.\<close>

definition audit_writer_step ::
  "fs_faults \<Rightarrow> nat \<Rightarrow> audit_logger \<times> audit_writer \<Rightarrow> audit_logger \<times> audit_writer" where
  "audit_writer_step fails now_secs s =
     (case al_queue (fst s) of
        [] \<Rightarrow> s
      | line # rest \<Rightarrow>
          ((fst s)\<lparr>al_queue := rest\<rparr>,
           case snd s of
             StdoutAuditWriter \<Rightarrow> StdoutAuditWriter
           | FileAuditWriter w \<Rightarrow> FileAuditWriter (snd (write_event fails now_secs line w))))"

section \<open>Facts\<close>

lemmas audit_method_defs =
  audit_device_connect_def audit_device_disconnect_def audit_device_register_def
  audit_controller_connect_def audit_controller_disconnect_def audit_controller_request_def
  audit_stream_created_def audit_stream_closed_def audit_auth_failure_def
  audit_auth_success_def audit_authorization_denied_def audit_rate_limit_def
  audit_session_resumed_def audit_session_expired_def audit_error_def

text \<open>The queue never holds more than its capacity, and a send queues the line or counts a drop.\<close>

definition audit_bounded :: "audit_logger \<Rightarrow> bool" where
  "audit_bounded lg \<longleftrightarrow> length (al_queue lg) \<le> AUDIT_QUEUE_CAPACITY"

lemma audit_send_bounded [inv_intros]: "audit_bounded lg \<Longrightarrow> audit_bounded (audit_send io e lg)"
  by (simp add: audit_bounded_def audit_send_def split: option.split)

lemma audit_writer_step_bounded [inv_intros]:
  "audit_bounded (fst s) \<Longrightarrow> audit_bounded (fst (audit_writer_step fails t s))"
  by (auto simp: audit_bounded_def audit_writer_step_def split: list.split)

interpretation audit_queue: invariant_machine "\<lambda>(io, e) lg. audit_send io e lg" "\<lambda>_ _. True" audit_bounded
  by unfold_locales (auto intro: audit_send_bounded)

lemma shift_backups_frame [simp]:
  "fw_max_backups (shift_backups fails n w) = fw_max_backups w"
  "fw_retention_days (shift_backups fails n w) = fw_retention_days w"
  by (induction n arbitrary: w) (simp_all add: rename_file_def split: option.split)

lemma rename_file_lookup:
  "i \<noteq> j \<Longrightarrow> map_of (fw_files (rename_file i j w)) k =
     (if map_of (fw_files w) i = None then map_of (fw_files w) k
      else if k = j then map_of (fw_files w) i else if k = i then None else map_of (fw_files w) k)"
  by (auto simp: rename_file_def split: option.split)

definition no_faults :: fs_faults where
  "no_faults op = False"

text \<open>Shifting the backups 1 to \<open>n\<close> up by one, when no operation fails.\<close>

lemma shift_backups_lookup:
  "map_of (fw_files (shift_backups no_faults n w)) k =
    (if 2 \<le> k \<and> k \<le> Suc n \<and> map_of (fw_files w) (k - 1) \<noteq> None then map_of (fw_files w) (k - 1)
     else if 1 \<le> k \<and> k \<le> n then None else map_of (fw_files w) k)"
proof (induction n arbitrary: w)
  case (Suc n)
  show ?case
  proof (cases "map_of (fw_files w) (Suc n)")
    case None
    then have "shift_backups no_faults (Suc n) w = shift_backups no_faults n w" by simp
    with None show ?thesis by (auto simp: Suc.IH le_Suc_eq)
  next
    case (Some f)
    then have "shift_backups no_faults (Suc n) w
        = shift_backups no_faults n (rename_file (Suc n) (Suc (Suc n)) w)"
      by (simp add: no_faults_def)
    with Some show ?thesis by (auto simp: Suc.IH rename_file_lookup le_Suc_eq)
  qed
qed auto

section \<open>Properties\<close>

text \<open>
  What rotation makes of the files, before the retention: the active file is empty, the previous
  one is backup 1, and the backups below \<open>max_backups\<close> are shifted up by one. The backup with the
  number \<open>max_backups\<close> is overwritten when there is one below it.
\<close>

definition rotated :: "nat \<Rightarrow> file_audit_writer \<Rightarrow> nat \<Rightarrow> audit_file option" where
  "rotated now_secs w k =
     (if k = 0 then Some \<lparr>af_lines = [], af_modified = now_secs\<rparr>
      else if k = 1 then map_of (fw_files w) 0
      else if k \<le> fw_max_backups w then
        (case map_of (fw_files w) (k - 1) of
           Some g \<Rightarrow> Some g
         | None \<Rightarrow> if k = fw_max_backups w then map_of (fw_files w) k else None)
      else map_of (fw_files w) k)"

text \<open>
  What the retention then removes: the backups up to \<open>max_backups\<close> that are too old, as far as the
  numbers are used without a gap.
\<close>

definition expired :: "nat \<Rightarrow> file_audit_writer \<Rightarrow> (nat \<Rightarrow> audit_file option) \<Rightarrow> nat \<Rightarrow> bool" where
  "expired now_secs w files k \<longleftrightarrow>
     fw_retention_days w \<noteq> 0 \<and> 1 \<le> k \<and> k \<le> fw_max_backups w
     \<and> (\<forall>j \<in> {1..k}. files j \<noteq> None)
     \<and> (case files k of Some g \<Rightarrow> af_modified g < now_secs - 86400 * fw_retention_days w | None \<Rightarrow> False)"

lemma cleanup_from_lookup:
  "map_of (fw_files (cleanup_backups_from no_faults cutoff i n w)) k =
     (if i \<le> k \<and> k < i + n \<and> (\<forall>j \<in> {i..k}. map_of (fw_files w) j \<noteq> None)
         \<and> (case map_of (fw_files w) k of Some g \<Rightarrow> af_modified g < cutoff | None \<Rightarrow> False)
      then None else map_of (fw_files w) k)"
proof (induction n arbitrary: i w k)
  case (Suc n)
  show ?case
  proof (cases "map_of (fw_files w) i")
    case None
    then have "\<not> (\<forall>j \<in> {i..k}. map_of (fw_files w) j \<noteq> None)" if "i \<le> k" using that by force
    moreover have "cleanup_backups_from no_faults cutoff i (Suc n) w = w" using None by simp
    ultimately show ?thesis by (metis (no_types, lifting))
  next
    case (Some f)
    have range: "(\<forall>j \<in> {i..k}. P j) \<longleftrightarrow> P i \<and> (\<forall>j \<in> {Suc i..k}. P j)" if "i \<le> k" for P
      using that by (auto simp: le_eq_less_or_eq [of i] Suc_le_eq)
    consider "k < i" | "k = i" | "Suc i \<le> k" by linarith
    then show ?thesis
    proof cases
      case 3
      then have "map_of (fw_files (if af_modified f < cutoff then w\<lparr>fw_files := AList.delete i (fw_files w),
          fw_handle := (if fw_handle w = Some i then None else fw_handle w)\<rparr> else w)) j = map_of (fw_files w) j"
        if "Suc i \<le> j" for j using that by auto
      with 3 Some show ?thesis by (simp add: no_faults_def [of "Metadata i"] no_faults_def [of "Remove i"] Suc.IH range)
          (metis option.distinct(1))
    qed (use Some in \<open>auto simp: no_faults_def [of "Metadata i"] no_faults_def [of "Remove i"] Suc.IH\<close>)
  qed
qed auto

lemma cleanup_from_frame [simp]:
  "fw_bytes_written (cleanup_backups_from fails cutoff i n w) = fw_bytes_written w"
  "0 < i \<Longrightarrow> fw_handle w = Some 0 \<Longrightarrow> fw_handle (cleanup_backups_from fails cutoff i n w) = Some 0"
  by (induction n arbitrary: i w) (auto split: option.split)

lemma rename_file_frame [simp]:
  "fw_max_backups (rename_file i j w) = fw_max_backups w"
  "fw_retention_days (rename_file i j w) = fw_retention_days w"
  by (simp_all add: rename_file_def split: option.split)

text \<open>Rotation up to the retention.\<close>

lemma rotate_renames:
  assumes "map_of (fw_files w) 0 = Some f" "0 < fw_max_backups w"
  obtains w3 where "rotate no_faults now_secs w = (Inr (), cleanup_old_backups no_faults now_secs w3)"
    "\<And>k. map_of (fw_files w3) k = rotated now_secs w k" "fw_handle w3 = Some 0" "fw_bytes_written w3 = 0"
    "fw_max_backups w3 = fw_max_backups w" "fw_retention_days w3 = fw_retention_days w"
proof -
  let ?w1 = "shift_backups no_faults (fw_max_backups w - 1) w"
  let ?w2 = "rename_file 0 1 ?w1"
  let ?w3 = "?w2\<lparr>fw_files := AList.update 0 \<lparr>af_lines = [], af_modified = now_secs\<rparr> (fw_files ?w2),
    fw_handle := Some 0, fw_bytes_written := 0\<rparr>"
  have active: "map_of (fw_files ?w1) 0 = Some f" using assms(1) by (simp add: shift_backups_lookup)
  then have "rotate no_faults now_secs w = (Inr (), cleanup_old_backups no_faults now_secs ?w3)"
    by (simp add: rotate_def Let_def no_faults_def [of "Rename 0"] no_faults_def [of OpenActive] no_faults_def [of Flush])
  moreover have "map_of (fw_files ?w3) k = rotated now_secs w k" for k
  proof -
    have "map_of (fw_files ?w2) k = (if k = 1 then Some f else if k = 0 then None else map_of (fw_files ?w1) k)"
      using active by (subst rename_file_lookup) auto
    moreover have "Suc (fw_max_backups w - 1) = fw_max_backups w" using assms(2) by simp
    ultimately show ?thesis
      using assms by (auto simp: rotated_def shift_backups_lookup simp del: One_nat_def split: option.split)
  qed
  ultimately show ?thesis by (rule that) simp_all
qed

text \<open>
  C33. Rotation of the audit file, when no file operation fails and backups are kept: the active
  file becomes backup 1 and is empty again, backup \<open>i\<close> becomes backup \<open>i + 1\<close> for every
  \<open>i < max_backups\<close>, and files beyond \<open>max_backups\<close> are left alone; of the result the retention
  removes exactly the backups that are older than the configured days, as far as the
  backups are numbered without a gap, and nothing when the days are 0. The writer goes on with
  the new file.
\<close>

theorem rotate_shifts_backups:
  assumes "map_of (fw_files w) 0 = Some f" "0 < fw_max_backups w"
  shows "fst (rotate no_faults now_secs w) = Inr ()
    \<and> fw_handle (snd (rotate no_faults now_secs w)) = Some 0
    \<and> fw_bytes_written (snd (rotate no_faults now_secs w)) = 0
    \<and> map_of (fw_files (snd (rotate no_faults now_secs w))) k =
        (if expired now_secs w (rotated now_secs w) k then None else rotated now_secs w k)"
proof -
  obtain w3 where w3: "rotate no_faults now_secs w = (Inr (), cleanup_old_backups no_faults now_secs w3)"
    "\<And>k. map_of (fw_files w3) k = rotated now_secs w k" "fw_handle w3 = Some 0" "fw_bytes_written w3 = 0"
    "fw_max_backups w3 = fw_max_backups w" "fw_retention_days w3 = fw_retention_days w"
    using rotate_renames [OF assms, of now_secs] by blast
  have "map_of (fw_files (cleanup_old_backups no_faults now_secs w3)) k =
      (if expired now_secs w (rotated now_secs w) k then None else rotated now_secs w k)"
    unfolding cleanup_old_backups_def expired_def by (simp add: w3 cleanup_from_lookup less_Suc_eq_le cong: conj_cong)
      (metis option.distinct(1))
  then show ?thesis by (simp add: w3 cleanup_old_backups_def)
qed

definition sample_writer :: "nat \<Rightarrow> file_audit_writer" where
  "sample_writer days =
     \<lparr>fw_files = [(0, \<lparr>af_lines = [''b''], af_modified = 90000\<rparr>), (1, \<lparr>af_lines = [''a''], af_modified = 3\<rparr>)],
      fw_handle = Some 0, fw_max_size = 10, fw_max_backups = 2, fw_retention_days = days,
      fw_bytes_written = 12\<rparr>"

theorem rotate_shifts_backups_witness:
  "map_of (fw_files (snd (rotate no_faults 90000 (sample_writer 0)))) 2 = Some \<lparr>af_lines = [''a''], af_modified = 3\<rparr>
   \<and> map_of (fw_files (snd (rotate no_faults 90000 (sample_writer 1)))) 2 = None
   \<and> map_of (fw_files (snd (rotate no_faults 90000 (sample_writer 1)))) 1 = Some \<lparr>af_lines = [''b''], af_modified = 90000\<rparr>"
proof -
  have w: "map_of (fw_files (sample_writer d)) 0 = Some \<lparr>af_lines = [''b''], af_modified = 90000\<rparr>"
    "0 < fw_max_backups (sample_writer d)" for d by (simp_all add: sample_writer_def)
  have "{1..2 :: nat} = {1, 2}" by auto
  then show ?thesis
    using rotate_shifts_backups [OF w, of 90000 0 2] rotate_shifts_backups [OF w, of 90000 1 2]
      rotate_shifts_backups [OF w, of 90000 1 1]
    by (simp add: rotated_def expired_def sample_writer_def)
qed

text \<open>
  \<open>max_backups = 0\<close> does not switch backups off: rotation still keeps the previous file as
  backup 1 (and the retention loop, which runs from 1 to \<open>max_backups\<close>, never removes it).
\<close>

theorem rotate_keeps_one_backup:
  "map_of (fw_files (snd (rotate no_faults t
      \<lparr>fw_files = [(0, f)], fw_handle = Some 0, fw_max_size = m, fw_max_backups = 0,
       fw_retention_days = d, fw_bytes_written = n\<rparr>))) 1 = Some f"
  by (simp add: rotate_def Let_def no_faults_def rename_file_def cleanup_old_backups_def)

text \<open>
  However many events are logged, the audit queue holds at most 4096 lines: a full queue
  drops the event and counts it instead of blocking the handler.
\<close>

theorem audit_queue_bounded:
  "case audit_logger_new config rid of
     None \<Rightarrow> \<not> audit_enabled config
   | Some lg \<Rightarrow> length (al_queue (fold (\<lambda>(io, e). audit_send io e) events lg)) \<le> 4096"
proof (cases "audit_logger_new config rid")
  case (Some lg)
  then have "audit_bounded lg"
    by (auto simp: audit_logger_new_def audit_bounded_def split: if_splits)
  then have "audit_bounded (fold (\<lambda>(io, e). audit_send io e) events lg)"
    by (rule audit_queue.run_invar_total) simp
  with Some show ?thesis by (simp add: audit_bounded_def AUDIT_QUEUE_CAPACITY_def)
qed (simp add: audit_logger_new_def split: if_splits)

end
