(* ===== verification/Mqtt_Runtime.thy ===== *)
theory Mqtt_Runtime
  imports Relay_State Relay_Metrics Audit_Log
begin

text \<open>
  \<^verbatim>\<open>crates/relay/src/mqtt.rs\<close>: the publisher handle with its bounded queue and counters, the
  session loop as a step function on the events its \<open>select!\<close> waits for, the worker that runs one
  session after the other with the reconnect backoff, the parser of the broker address and the
  payloads. A \<open>try_send\<close> and its count are one step here. The MQTT client (\<open>rumqttc\<close>) is an argument:
  whether a publication succeeds, and what its event loop reports.
\<close>

section \<open>Publisher\<close>

definition MQTT_PUBLISH_QUEUE_CAPACITY :: nat where
  "MQTT_PUBLISH_QUEUE_CAPACITY = 256"

datatype mqtt_publish_request =
    MqttDeviceOnline string string string metadata
      \<comment> \<open>device_id, connection_id, relay_address, metadata\<close>
  | MqttDeviceOffline string string string
      \<comment> \<open>device_id, connection_id, reason\<close>

record mqtt_runtime_state =
  mq_enabled :: bool
  mq_connected :: bool
  mq_reconnect_count :: u64
  mq_dropped_total :: u64
  mq_queue_pending :: u64

definition mqtt_runtime_state_new :: "bool \<Rightarrow> mqtt_runtime_state" where
  "mqtt_runtime_state_new enabled =
     \<lparr>mq_enabled = enabled, mq_connected = False, mq_reconnect_count = 0, mq_dropped_total = 0,
      mq_queue_pending = 0\<rparr>"

definition set_connected :: "bool \<Rightarrow> mqtt_runtime_state \<Rightarrow> mqtt_runtime_state" where
  "set_connected v rt = rt\<lparr>mq_connected := v\<rparr>"

definition increment_reconnect_count :: "mqtt_runtime_state \<Rightarrow> mqtt_runtime_state" where
  "increment_reconnect_count rt = rt\<lparr>mq_reconnect_count := mq_reconnect_count rt + 1\<rparr>"

definition increment_dropped_total :: "mqtt_runtime_state \<Rightarrow> mqtt_runtime_state" where
  "increment_dropped_total rt = rt\<lparr>mq_dropped_total := mq_dropped_total rt + 1\<rparr>"

definition increment_queue_pending :: "mqtt_runtime_state \<Rightarrow> mqtt_runtime_state" where
  "increment_queue_pending rt = rt\<lparr>mq_queue_pending := mq_queue_pending rt + 1\<rparr>"

definition decrement_queue_pending :: "mqtt_runtime_state \<Rightarrow> mqtt_runtime_state" where
  "decrement_queue_pending rt = rt\<lparr>mq_queue_pending := saturating_sub_u64 (mq_queue_pending rt) 1\<rparr>"

text \<open>The channel between the handle and the worker, with the counters both share.\<close>

record mqtt_publisher =
  mp_queue :: "mqtt_publish_request list"
  mp_runtime :: mqtt_runtime_state

definition mqtt_try_send :: "mqtt_publish_request \<Rightarrow> mqtt_publisher \<Rightarrow> mqtt_publisher" where
  "mqtt_try_send req p =
     (if length (mp_queue p) < MQTT_PUBLISH_QUEUE_CAPACITY
      then p\<lparr>mp_queue := mp_queue p @ [req], mp_runtime := increment_queue_pending (mp_runtime p)\<rparr>
      else p\<lparr>mp_runtime := increment_dropped_total (mp_runtime p)\<rparr>)"

definition publish_device_online ::
  "string \<Rightarrow> string \<Rightarrow> string \<Rightarrow> metadata \<Rightarrow> mqtt_publisher \<Rightarrow> mqtt_publisher" where
  "publish_device_online device_id connection_id relay_addr meta p =
     mqtt_try_send (MqttDeviceOnline device_id connection_id relay_addr meta) p"

definition publish_device_offline ::
  "string \<Rightarrow> string \<Rightarrow> string \<Rightarrow> mqtt_publisher \<Rightarrow> mqtt_publisher" where
  "publish_device_offline device_id connection_id reason p =
     mqtt_try_send (MqttDeviceOffline device_id connection_id reason) p"

section \<open>Reconnect backoff\<close>

definition checked_pow2 :: "nat \<Rightarrow> u64" where
  "checked_pow2 attempt = (if attempt < 64 then 2 ^ attempt else - 1)"

definition mqtt_backoff_secs :: "mqtt_config \<Rightarrow> 32 word \<Rightarrow> u64" where
  "mqtt_backoff_secs cfg attempt =
     (let initial = max 1 (reconnect_initial_seconds cfg);
          most = max initial (reconnect_max_seconds cfg);
          exp_pow = checked_pow2 (min (unat attempt) 20)
      in min most (saturating_mul_u64 initial exp_pow))"

definition next_attempt :: "32 word \<Rightarrow> 32 word" where
  "next_attempt attempt = (if attempt = - 1 then attempt else attempt + 1)"

section \<open>Broker address\<close>

text \<open>\<open>parse::<u16>()\<close>: a leading plus sign is accepted, overflow is an error.\<close>

definition parse_u16 :: "string \<Rightarrow> nat option" where
  "parse_u16 s =
     (case parse_digits (case s of c # r \<Rightarrow> if c = CHR ''+'' then r else s | [] \<Rightarrow> []) of
        Some n \<Rightarrow> if n < 65536 then Some n else None
      | None \<Rightarrow> None)"

definition parse_host_port :: "string \<Rightarrow> string + string \<times> nat" where
  "parse_host_port broker =
     (let authority0 = before_first (CHR ''/'')
            (case split_once_str ''://'' broker of Some (_, rest) \<Rightarrow> rest | None \<Rightarrow> broker);
          authority = after_last (CHR ''@'') authority0
      in if authority = [] then Inl ''broker_address missing host''
         else if hd authority = CHR ''['' then
           (case split_once_char (CHR '']'') (tl authority) of
              None \<Rightarrow> Inl ''broker_address has invalid IPv6 format''
            | Some (host, suffix) \<Rightarrow>
                (case suffix of
                   [] \<Rightarrow> Inl ''broker_address missing port''
                 | c # port_str \<Rightarrow>
                     (if c \<noteq> CHR '':'' then Inl ''broker_address missing port''
                      else case parse_u16 port_str of
                             None \<Rightarrow> Inl ''broker_address port must be a number''
                           | Some port \<Rightarrow> Inr (host, port))))
         else
           (case rsplit_once_char (CHR '':'') authority of
              None \<Rightarrow> Inl ''broker_address missing port''
            | Some (host, port_str) \<Rightarrow>
                (if host = [] then Inl ''broker_address missing host''
                 else if List.member host (CHR '':'')
                 then Inl ''IPv6 broker_address must use [host]:port format''
                 else case parse_u16 port_str of
                        None \<Rightarrow> Inl ''broker_address port must be a number''
                      | Some port \<Rightarrow> Inr (host, port))))"

section \<open>Payloads\<close>

record mqtt_message =
  mm_topic :: string
  mm_at_least_once :: bool
  mm_retain :: bool
  mm_payload :: json

definition metadata_json :: "metadata \<Rightarrow> json" where
  "metadata_json m = JObject (map (\<lambda>(k, v). (k, JString v)) m)"

fun device_event_message :: "string \<Rightarrow> mqtt_publish_request \<Rightarrow> mqtt_message" where
  "device_event_message timestamp (MqttDeviceOnline device_id connection_id relay_addr meta) =
     \<lparr>mm_topic = ''relay/device/online'', mm_at_least_once = True, mm_retain = True,
      mm_payload = JObject [(''device_id'', JString device_id),
        (''connection_id'', JString connection_id), (''relay_address'', JString relay_addr),
        (''timestamp'', JString timestamp), (''metadata'', metadata_json meta)]\<rparr>"
| "device_event_message timestamp (MqttDeviceOffline device_id connection_id reason) =
     \<lparr>mm_topic = ''relay/device/offline'', mm_at_least_once = True, mm_retain = False,
      mm_payload = JObject [(''device_id'', JString device_id),
        (''connection_id'', JString connection_id), (''timestamp'', JString timestamp),
        (''reason'', JString reason)]\<rparr>"

definition online_session_snapshot :: "string \<Rightarrow> relay_state \<Rightarrow> mqtt_publish_request list" where
  "online_session_snapshot relay_addr st =
     map (\<lambda>e. MqttDeviceOnline (ds_device_id (snd e)) (ds_connection_id (snd e)) relay_addr
                (ds_metadata (snd e)))
       (sessions_by_device_id st)"

definition build_relay_telemetry_payload ::
  "string \<Rightarrow> string \<Rightarrow> string \<Rightarrow> relay_state \<Rightarrow> sys_reading \<Rightarrow> resource_monitor \<Rightarrow> mqtt_runtime_state
     \<Rightarrow> u64 \<Rightarrow> nat \<Rightarrow> json" where
  "build_relay_telemetry_payload timestamp rid relay_addr st sys mon rt failures interval =
     (let resource_healthy = is_healthy sys mon
      in JObject
        [(''relay_id'', JString rid), (''relay_address'', JString relay_addr),
         (''timestamp'', JString timestamp),
         (''system_metrics'', JObject
            [(''cpu_usage_percent'', JFloat (global_cpu_usage sys)),
             (''memory_usage_percent'', JFloat (memory_usage_percent sys)),
             (''used_memory_mb'', JNumber (uint (used_memory_mb sys)))]),
         (''connection_metrics'', JObject
            [(''active_device_connections'', JNumber (int (length (sessions_by_device_id st)))),
             (''active_controller_connections'', JNumber 0)]),
         (''stream_metrics'', JObject [(''active_streams'', JNumber 0)]),
         (''performance_metrics'', JObject [(''resource_healthy'', JBool resource_healthy)]),
         (''error_metrics'', JObject [(''mqtt_publish_failures_total'', JNumber (uint failures))]),
         (''queue_metrics'', JObject [(''mqtt_queue_pending'', JNumber (uint (mq_queue_pending rt)))]),
         (''mqtt_metrics'', JObject
            [(''telemetry_interval_seconds'', JNumber (int interval)),
             (''mqtt_connected'', JBool (mq_connected rt)),
             (''mqtt_reconnect_count'', JNumber (uint (mq_reconnect_count rt))),
             (''mqtt_dropped_total'', JNumber (uint (mq_dropped_total rt)))]),
         (''health_status'', JString (if resource_healthy then ''healthy'' else ''unhealthy''))])"

section \<open>Session loop\<close>

text \<open>
  The state of one session: the handle's queue and counters, the requests kept back while there
  is no connection, the flag that survives sessions, and what was published.
\<close>

record mqtt_session =
  ms_publisher :: mqtt_publisher
  ms_pending :: "mqtt_publish_request list"
  ms_has_connected_once :: bool
  ms_published :: "mqtt_message list"

datatype mqtt_event =
    ConnAck | OtherPacket | PollError string | Recv | RecvClosed
  | TelemetryTick sys_reading resource_monitor nat

datatype session_ctl = SContinue | SReturnOk | SReturnErr string

text \<open>The client accepts a message or refuses it with an error.\<close>

type_synonym mqtt_client = "mqtt_message \<Rightarrow> string option"

definition on_runtime :: "(mqtt_runtime_state \<Rightarrow> mqtt_runtime_state) \<Rightarrow> mqtt_session \<Rightarrow> mqtt_session" where
  "on_runtime f s =
     s\<lparr>ms_publisher := (ms_publisher s)\<lparr>mp_runtime := f (mp_runtime (ms_publisher s))\<rparr>\<rparr>"

definition session_runtime :: "mqtt_session \<Rightarrow> mqtt_runtime_state" where
  "session_runtime s = mp_runtime (ms_publisher s)"

definition client_publish :: "mqtt_client \<Rightarrow> mqtt_message \<Rightarrow> mqtt_session \<Rightarrow> string option \<times> mqtt_session" where
  "client_publish client msg s =
     (case client msg of
        Some e \<Rightarrow> (Some e, s)
      | None \<Rightarrow> (None, s\<lparr>ms_published := ms_published s @ [msg]\<rparr>))"

definition publish_device_event ::
  "mqtt_client \<Rightarrow> string \<Rightarrow> mqtt_publish_request \<Rightarrow> mqtt_session \<Rightarrow> string option \<times> mqtt_session" where
  "publish_device_event client timestamp req s =
     client_publish client (device_event_message timestamp req) s"

fun publish_all ::
  "mqtt_client \<Rightarrow> string \<Rightarrow> mqtt_publish_request list \<Rightarrow> mqtt_session \<Rightarrow> string option \<times> mqtt_session" where
  "publish_all client timestamp [] s = (None, s)"
| "publish_all client timestamp (req # reqs) s =
     (let (err, s1) = publish_device_event client timestamp req s
      in case err of Some e \<Rightarrow> (Some e, s1) | None \<Rightarrow> publish_all client timestamp reqs s1)"

definition publish_online_session_snapshot ::
  "mqtt_client \<Rightarrow> string \<Rightarrow> relay_state \<Rightarrow> string \<Rightarrow> mqtt_session \<Rightarrow> string option \<times> mqtt_session" where
  "publish_online_session_snapshot client timestamp st relay_addr s =
     publish_all client timestamp (online_session_snapshot relay_addr st) s"

text \<open>The head of the loop: with a connection, a request that was kept back goes out first.\<close>

definition flush_pending ::
  "mqtt_client \<Rightarrow> string \<Rightarrow> mqtt_session \<Rightarrow> session_ctl \<times> mqtt_session" where
  "flush_pending client timestamp s =
     (case ms_pending s of
        [] \<Rightarrow> (SContinue, s)
      | req # rest \<Rightarrow>
          (let (err, s1) = publish_device_event client timestamp req (s\<lparr>ms_pending := rest\<rparr>);
               s2 = on_runtime decrement_queue_pending s1
           in case err of Some e \<Rightarrow> (SReturnErr e, s2) | None \<Rightarrow> (SContinue, s2)))"

fun drop_pending :: "mqtt_publish_request list \<Rightarrow> mqtt_session \<Rightarrow> mqtt_session" where
  "drop_pending [] s = s\<lparr>ms_pending := []\<rparr>"
| "drop_pending (_ # reqs) s =
     drop_pending reqs (on_runtime (decrement_queue_pending \<circ> increment_dropped_total) s)"

definition recv_request ::
  "mqtt_client \<Rightarrow> string \<Rightarrow> mqtt_publish_request \<Rightarrow> mqtt_session \<Rightarrow> session_ctl \<times> mqtt_session" where
  "recv_request client timestamp req s =
     (if mq_connected (session_runtime s) \<and> ms_pending s = [] then
        (let (err, s1) = publish_device_event client timestamp req s;
             s2 = on_runtime decrement_queue_pending s1
         in case err of Some e \<Rightarrow> (SReturnErr e, s2) | None \<Rightarrow> (SContinue, s2))
      else
        (let s1 = (if MQTT_PUBLISH_QUEUE_CAPACITY \<le> length (ms_pending s)
                   then on_runtime (decrement_queue_pending \<circ> increment_dropped_total)
                          (s\<lparr>ms_pending := tl (ms_pending s)\<rparr>)
                   else s)
         in (SContinue, s1\<lparr>ms_pending := ms_pending s1 @ [req]\<rparr>)))"

fun mqtt_select ::
  "mqtt_client \<Rightarrow> string \<Rightarrow> string \<Rightarrow> string \<Rightarrow> relay_state \<Rightarrow> mqtt_event \<Rightarrow> mqtt_session
     \<Rightarrow> session_ctl \<times> mqtt_session" where
  "mqtt_select client timestamp rid relay_addr st ConnAck s =
     (let s1 = (if ms_has_connected_once s then on_runtime increment_reconnect_count s
                else s\<lparr>ms_has_connected_once := True\<rparr>);
          s2 = on_runtime (set_connected True) s1;
          (err, s3) = publish_online_session_snapshot client timestamp st relay_addr s2
      in case err of Some e \<Rightarrow> (SReturnErr e, s3) | None \<Rightarrow> (SContinue, s3))"
| "mqtt_select client timestamp rid relay_addr st OtherPacket s = (SContinue, s)"
| "mqtt_select client timestamp rid relay_addr st (PollError e) s =
     (SReturnErr (''mqtt eventloop poll error: '' @ e), on_runtime (set_connected False) s)"
| "mqtt_select client timestamp rid relay_addr st RecvClosed s =
     (SReturnOk, on_runtime (set_connected False) (drop_pending (ms_pending s) s))"
| "mqtt_select client timestamp rid relay_addr st Recv s =
     (case mp_queue (ms_publisher s) of
        [] \<Rightarrow> (SContinue, s)
      | req # rest \<Rightarrow>
          recv_request client timestamp req
            (s\<lparr>ms_publisher := (ms_publisher s)\<lparr>mp_queue := rest\<rparr>\<rparr>))"
| "mqtt_select client timestamp rid relay_addr st (TelemetryTick sys mon interval) s =
     (if \<not> mq_connected (session_runtime s) then (SContinue, s)
      else
        let payload = build_relay_telemetry_payload timestamp rid relay_addr st sys mon
              (session_runtime s) 0 interval;
            (err, s1) = client_publish client
              \<lparr>mm_topic = ''telemetry/relay/'' @ rid, mm_at_least_once = False, mm_retain = False,
               mm_payload = payload\<rparr> s
        in case err of
             Some e \<Rightarrow> (SReturnErr (''mqtt telemetry publish failed: '' @ e),
                        on_runtime (set_connected False) s1)
           | None \<Rightarrow> (SContinue, s1))"

definition mqtt_session_step ::
  "mqtt_client \<Rightarrow> string \<Rightarrow> string \<Rightarrow> string \<Rightarrow> relay_state \<Rightarrow> mqtt_event \<Rightarrow> mqtt_session
     \<Rightarrow> session_ctl \<times> mqtt_session" where
  "mqtt_session_step client timestamp rid relay_addr st ev s =
     (if mq_connected (session_runtime s) \<and> ms_pending s \<noteq> [] then flush_pending client timestamp s
      else mqtt_select client timestamp rid relay_addr st ev s)"

text \<open>
  A new session (\<open>run_mqtt_session\<close> called again by the worker loop) starts with no requests kept
  back.
\<close>

definition mqtt_session_start :: "mqtt_session \<Rightarrow> mqtt_session" where
  "mqtt_session_start s = s\<lparr>ms_pending := []\<rparr>"

text \<open>What can happen to a session: a handler publishes, or the loop takes a turn.\<close>

datatype mqtt_action =
    Publish mqtt_publish_request
  | Turn mqtt_client string string string relay_state mqtt_event

fun mqtt_act :: "mqtt_action \<Rightarrow> mqtt_session \<Rightarrow> mqtt_session" where
  "mqtt_act (Publish req) s = s\<lparr>ms_publisher := mqtt_try_send req (ms_publisher s)\<rparr>"
| "mqtt_act (Turn client timestamp rid relay_addr st ev) s =
     snd (mqtt_session_step client timestamp rid relay_addr st ev s)"

section \<open>The worker\<close>

text \<open>
  The task that \<open>spawn_mqtt_publisher\<close> starts runs one session after the other. It is at the head
  of its loop, in a session, asleep after a session that failed, or done. \<open>mw_lost\<close> is not state
  of the program: it has the requests that were in the \<open>pending_requests\<close> of a session when the
  session returned with an error.
\<close>

datatype worker_phase = LoopHead | InSession | Asleep u64 | WorkerDone

record mqtt_worker_state =
  mw_session :: mqtt_session
  mw_phase :: worker_phase
  mw_attempt :: "32 word"
  mw_lost :: "mqtt_publish_request list"

definition mqtt_worker_new :: mqtt_worker_state where
  "mqtt_worker_new =
     \<lparr>mw_session = \<lparr>ms_publisher = \<lparr>mp_queue = [], mp_runtime = mqtt_runtime_state_new True\<rparr>, ms_pending = [],
        ms_has_connected_once = False, ms_published = []\<rparr>,
      mw_phase = LoopHead, mw_attempt = 0, mw_lost = []\<rparr>"

text \<open>The session returned with an error: its requests are gone, and the worker waits.\<close>

definition worker_session_failed :: "mqtt_config \<Rightarrow> mqtt_session \<Rightarrow> mqtt_worker_state \<Rightarrow> mqtt_worker_state" where
  "worker_session_failed cfg s w =
     w\<lparr>mw_session := on_runtime (set_connected False) (s\<lparr>ms_pending := []\<rparr>),
       mw_phase := Asleep (mqtt_backoff_secs cfg (mw_attempt w)), mw_attempt := next_attempt (mw_attempt w),
       mw_lost := mw_lost w @ ms_pending s\<rparr>"

text \<open>
  What can happen: a handler publishes; the worker passes the head of its loop, with the channel
  closed or not; its session takes a turn; its sleep is over.
\<close>

datatype worker_event =
    WPublish mqtt_publish_request
  | WHead bool
  | WTurn mqtt_client string string string relay_state mqtt_event
  | WWake

definition worker_head :: "mqtt_config \<Rightarrow> bool \<Rightarrow> mqtt_worker_state \<Rightarrow> mqtt_worker_state" where
  "worker_head cfg is_closed w =
     (if is_closed
      then w\<lparr>mw_session := on_runtime (set_connected False) (mw_session w), mw_phase := WorkerDone\<rparr>
      else case parse_host_port (broker_address cfg) of
             Inl _ \<Rightarrow> worker_session_failed cfg (mqtt_session_start (mw_session w)) w
           | Inr _ \<Rightarrow> w\<lparr>mw_session := mqtt_session_start (mw_session w), mw_phase := InSession\<rparr>)"

definition worker_turn :: "mqtt_config \<Rightarrow> session_ctl \<times> mqtt_session \<Rightarrow> mqtt_worker_state \<Rightarrow> mqtt_worker_state" where
  "worker_turn cfg outcome w =
     (case outcome of
        (SContinue, s) \<Rightarrow> w\<lparr>mw_session := s\<rparr>
      | (SReturnOk, s) \<Rightarrow> w\<lparr>mw_session := s, mw_phase := LoopHead, mw_attempt := 0\<rparr>
      | (SReturnErr _, s) \<Rightarrow> worker_session_failed cfg s w)"

fun worker_act :: "mqtt_config \<Rightarrow> worker_event \<Rightarrow> mqtt_worker_state \<Rightarrow> mqtt_worker_state" where
  "worker_act cfg (WPublish req) w =
     w\<lparr>mw_session := (mw_session w)\<lparr>ms_publisher := mqtt_try_send req (ms_publisher (mw_session w))\<rparr>\<rparr>"
| "worker_act cfg (WHead is_closed) w = (if mw_phase w = LoopHead then worker_head cfg is_closed w else w)"
| "worker_act cfg (WTurn client timestamp rid relay_addr st ev) w =
     (if mw_phase w = InSession
      then worker_turn cfg (mqtt_session_step client timestamp rid relay_addr st ev (mw_session w)) w
      else w)"
| "worker_act cfg WWake w =
     (case mw_phase w of Asleep _ \<Rightarrow> w\<lparr>mw_phase := LoopHead\<rparr> | _ \<Rightarrow> w)"

section \<open>Facts\<close>

interpretation queue_gauge: gauge_counter increment_queue_pending decrement_queue_pending mq_queue_pending
  by unfold_locales (simp_all add: increment_queue_pending_def decrement_queue_pending_def)

lemma of_char_digit: "d < 10 \<Longrightarrow> of_char (digit_char d) = 48 + d"
  by (simp add: digit_char_def)

lemma is_digit_digit: "d < 10 \<Longrightarrow> is_digit (digit_char d)"
  by (simp add: is_digit_def of_char_digit)

lemma dec_string_digits: "list_all is_digit (dec_string n)"
proof (induction n rule: dec_string.induct)
  case (1 n)
  then show ?case
    by (subst dec_string.simps) (simp add: is_digit_digit)
qed

lemma foldl_dec_string: "foldl (\<lambda>n c. n * 10 + (of_char c - 48)) 0 (dec_string n) = n"
proof (induction n rule: dec_string.induct)
  case (1 n)
  then show ?case by (subst dec_string.simps) (simp add: of_char_digit)
qed

lemma parse_digits_dec_string: "parse_digits (dec_string n) = Some n"
  by (simp add: parse_digits_def dec_string_digits foldl_dec_string)

lemma digit_not_special: "is_digit c \<Longrightarrow> c \<noteq> CHR ''+'' \<and> c \<noteq> CHR '':'' \<and> c \<noteq> CHR ''/'' \<and> c \<noteq> CHR ''@''"
  by (auto simp: is_digit_def)

lemma dec_string_chars: "c \<in> set (dec_string n) \<Longrightarrow> is_digit c"
  using dec_string_digits [of n] by (simp add: list_all_iff)

lemma parse_u16_dec_string: "n < 65536 \<Longrightarrow> parse_u16 (dec_string n) = Some n"
proof -
  assume n: "n < 65536"
  obtain c r where cr: "dec_string n = c # r" by (cases "dec_string n") auto
  then have "c \<noteq> CHR ''+''" using dec_string_chars [of c n] digit_not_special by auto
  with n cr parse_digits_dec_string [of n] show ?thesis by (simp add: parse_u16_def)
qed

lemma split_once_no_slash: "CHR ''/'' \<notin> set s \<Longrightarrow> split_once_str ''://'' s = None"
proof (induction s)
  case (Cons c s)
  have "\<not> starts_with (c # s) ''://''"
  proof
    assume "starts_with (c # s) ''://''"
    then have "take 3 (c # s) = ''://''" by (simp add: starts_with_def numeral_3_eq_3)
    then have "CHR ''/'' \<in> set (take 3 (c # s))" by simp
    then show False using Cons.prems by (blast dest: in_set_takeD)
  qed
  with Cons show ?case by simp
qed simp

lemma rsplit_once_append:
  assumes "c \<notin> set b"
  shows "rsplit_once_char c (a @ c # b) = Some (a, b)"
proof -
  have "takeWhile (\<lambda>x. x \<noteq> c) (rev b @ c # rev a) = rev b"
    "dropWhile (\<lambda>x. x \<noteq> c) (rev b @ c # rev a) = c # rev a"
    using assms by (auto simp: takeWhile_append dropWhile_append)
  then show ?thesis by (simp add: rsplit_once_char_def after_last_def)
qed

lemma unat_checked_pow2: "n \<le> 20 \<Longrightarrow> unat (checked_pow2 n) = 2 ^ n"
  by (simp add: checked_pow2_def unat_pow2_u64)

text \<open>
  The gauge counts what waits in the channel or is kept back, and both queues are bounded; over
  several sessions it also counts the requests that were lost.
\<close>

definition accounted_with :: "nat \<Rightarrow> mqtt_session \<Rightarrow> bool" where
  "accounted_with lost s \<longleftrightarrow>
     unat (mq_queue_pending (session_runtime s)) =
       length (mp_queue (ms_publisher s)) + length (ms_pending s) + lost
     \<and> length (mp_queue (ms_publisher s)) \<le> 256 \<and> length (ms_pending s) \<le> 256"

definition mqtt_accounted :: "mqtt_session \<Rightarrow> bool" where
  "mqtt_accounted s \<longleftrightarrow>
     unat (mq_queue_pending (session_runtime s)) = length (mp_queue (ms_publisher s)) + length (ms_pending s)
     \<and> length (mp_queue (ms_publisher s)) \<le> 256 \<and> length (ms_pending s) \<le> 256"

lemma on_runtime_simps [simp]:
  "ms_pending (on_runtime f s) = ms_pending s"
  "mp_queue (ms_publisher (on_runtime f s)) = mp_queue (ms_publisher s)"
  "session_runtime (on_runtime f s) = f (session_runtime s)"
  "session_runtime (s\<lparr>ms_pending := x\<rparr>) = session_runtime s"
  "session_runtime (s\<lparr>ms_has_connected_once := y\<rparr>) = session_runtime s"
  "session_runtime (s\<lparr>ms_publisher := (ms_publisher s)\<lparr>mp_queue := z\<rparr>\<rparr>) = session_runtime s"
  by (simp_all add: on_runtime_def session_runtime_def)

lemma client_publish_frame [simp]:
  "ms_pending (snd (client_publish client msg s)) = ms_pending s"
  "ms_publisher (snd (client_publish client msg s)) = ms_publisher s"
  "session_runtime (snd (client_publish client msg s)) = session_runtime s"
  by (simp_all add: client_publish_def session_runtime_def split: option.split)

lemma publish_device_event_frame [simp]:
  "ms_pending (snd (publish_device_event client t req s)) = ms_pending s"
  "ms_publisher (snd (publish_device_event client t req s)) = ms_publisher s"
  "session_runtime (snd (publish_device_event client t req s)) = session_runtime s"
  by (simp_all add: publish_device_event_def)

lemma publish_all_frame [simp]:
  "ms_pending (snd (publish_all client t reqs s)) = ms_pending s"
  "ms_publisher (snd (publish_all client t reqs s)) = ms_publisher s"
  by (induction reqs arbitrary: s) (simp_all add: Let_def case_prod_unfold split: option.split)

lemma runtime_field_simps [simp]:
  "mq_queue_pending (set_connected b rt) = mq_queue_pending rt"
  "mq_queue_pending (increment_reconnect_count rt) = mq_queue_pending rt"
  "mq_queue_pending (increment_dropped_total rt) = mq_queue_pending rt"
  "unat (mq_queue_pending (decrement_queue_pending rt)) = unat (mq_queue_pending rt) - 1"
  by (simp_all add: set_connected_def increment_reconnect_count_def increment_dropped_total_def
      queue_gauge.dec_no_underflow)

lemma drop_pending_facts:
  "ms_pending (drop_pending reqs s) = []"
  "mp_queue (ms_publisher (drop_pending reqs s)) = mp_queue (ms_publisher s)"
  "unat (mq_queue_pending (session_runtime (drop_pending reqs s))) =
     unat (mq_queue_pending (session_runtime s)) - length reqs"
  by (induction reqs arbitrary: s) auto

lemma accounted_publish:
  assumes "accounted_with lost s" "unat (mq_queue_pending (session_runtime s)) < 2 ^ 64 - 1"
  shows "accounted_with lost (s\<lparr>ms_publisher := mqtt_try_send req (ms_publisher s)\<rparr>)"
  using assms
  by (auto simp: accounted_with_def mqtt_try_send_def session_runtime_def MQTT_PUBLISH_QUEUE_CAPACITY_def
      queue_gauge.inc_exact)

lemma accounted_flush:
  assumes "accounted_with lost s"
  shows "accounted_with lost (snd (flush_pending client t s))"
proof (cases "ms_pending s")
  case (Cons req rest)
  with assms show ?thesis
    by (auto simp: flush_pending_def Let_def case_prod_unfold accounted_with_def split: option.split)
qed (use assms in \<open>simp add: flush_pending_def\<close>)

lemma accounted_recv_request:
  assumes "unat (mq_queue_pending (session_runtime s))
      = Suc (length (mp_queue (ms_publisher s)) + length (ms_pending s) + lost)"
    "length (mp_queue (ms_publisher s)) \<le> 256" "length (ms_pending s) \<le> 256"
  shows "accounted_with lost (snd (recv_request client t req s))"
proof (cases "mq_connected (session_runtime s) \<and> ms_pending s = []")
  case True
  with assms show ?thesis
    by (auto simp: recv_request_def Let_def case_prod_unfold accounted_with_def split: option.split)
next
  case False
  with assms show ?thesis
    by (auto simp: recv_request_def Let_def accounted_with_def MQTT_PUBLISH_QUEUE_CAPACITY_def)
qed

lemma accounted_select:
  assumes "accounted_with lost s"
  shows "accounted_with lost (snd (mqtt_select client t rid addr st ev s))"
proof (cases ev)
  case Recv
  show ?thesis
  proof (cases "mp_queue (ms_publisher s)")
    case (Cons req rest)
    have "accounted_with lost (snd (recv_request client t req
        (s\<lparr>ms_publisher := (ms_publisher s)\<lparr>mp_queue := rest\<rparr>\<rparr>)))"
      using assms Cons by (intro accounted_recv_request) (auto simp: accounted_with_def)
    with Recv Cons show ?thesis by simp
  qed (use assms Recv in simp)
next
  case ConnAck
  with assms show ?thesis
    by (auto simp: Let_def case_prod_unfold accounted_with_def publish_online_session_snapshot_def
        session_runtime_def on_runtime_def split: option.split)
qed (use assms in \<open>auto simp: accounted_with_def drop_pending_facts Let_def case_prod_unfold split: option.split\<close>)

lemma accounted_step:
  "accounted_with lost s \<Longrightarrow> accounted_with lost (snd (mqtt_session_step client t rid addr st ev s))"
  by (simp add: mqtt_session_step_def accounted_flush accounted_select)

text \<open>
  The worker: the requests of a session that fails become lost ones. Between two sessions
  nothing is kept back.
\<close>

definition worker_accounted :: "mqtt_worker_state \<Rightarrow> bool" where
  "worker_accounted w \<longleftrightarrow> accounted_with (length (mw_lost w)) (mw_session w)
     \<and> (mw_phase w = LoopHead \<longrightarrow> ms_pending (mw_session w) = [])
     \<and> (\<forall>d. mw_phase w = Asleep d \<longrightarrow> ms_pending (mw_session w) = [])"

lemma accounted_disconnect [simp]:
  "accounted_with n (on_runtime (set_connected b) s) = accounted_with n s"
  by (simp add: accounted_with_def)

lemma worker_failed_accounted:
  "accounted_with (length (mw_lost w)) s \<Longrightarrow> worker_accounted (worker_session_failed cfg s w)"
  by (simp add: worker_accounted_def worker_session_failed_def) (simp add: accounted_with_def)

lemma session_start_idle: "ms_pending s = [] \<Longrightarrow> mqtt_session_start s = s"
  by (simp add: mqtt_session_start_def)

lemma return_ok_drained:
  "fst (mqtt_session_step client t rid addr st ev s) = SReturnOk \<Longrightarrow>
     ms_pending (snd (mqtt_session_step client t rid addr st ev s)) = []"
  by (cases ev)
    (auto simp: mqtt_session_step_def flush_pending_def recv_request_def Let_def case_prod_unfold drop_pending_facts
      split: if_splits option.splits list.splits)

lemma worker_turn_accounted:
  assumes "accounted_with (length (mw_lost w)) s" "c = SReturnOk \<Longrightarrow> ms_pending s = []" "mw_phase w = InSession"
  shows "worker_accounted (worker_turn cfg (c, s) w)"
  using assms worker_failed_accounted [of w s]
  by (cases c) (auto simp: worker_turn_def worker_accounted_def)

definition worker_counting :: "worker_event \<Rightarrow> mqtt_worker_state \<Rightarrow> bool" where
  "worker_counting e w \<longleftrightarrow> unat (mq_queue_pending (session_runtime (mw_session w))) < 2 ^ 64 - 1"

lemma worker_act_accounted:
  assumes "worker_accounted w" "worker_counting e w"
  shows "worker_accounted (worker_act cfg e w)"
proof (cases e)
  case (WPublish req)
  with assms accounted_publish [of "length (mw_lost w)" "mw_session w" req] show ?thesis
    by (simp add: worker_accounted_def worker_counting_def)
next
  case (WHead is_closed)
  with assms worker_failed_accounted [of w "mw_session w" cfg] show ?thesis
    by (auto simp: worker_accounted_def worker_head_def session_start_idle split: sum.split)
next
  case (WTurn client t rid addr st ev)
  obtain c s where step: "mqtt_session_step client t rid addr st ev (mw_session w) = (c, s)" by fastforce
  have "accounted_with (length (mw_lost w)) s"
    using accounted_step [of "length (mw_lost w)" "mw_session w" client t rid addr st ev] assms(1) step
    by (simp add: worker_accounted_def)
  moreover have "c = SReturnOk \<Longrightarrow> ms_pending s = []"
    using return_ok_drained [of client t rid addr st ev "mw_session w"] step by simp
  ultimately show ?thesis using WTurn step worker_turn_accounted [of w s c cfg] assms(1) by simp
qed (use assms in \<open>auto simp: worker_accounted_def split: worker_phase.split\<close>)

interpretation mqtt_worker: invariant_machine "worker_act cfg" worker_counting worker_accounted
  for cfg by unfold_locales (rule worker_act_accounted)

text \<open>The gauge grows by at most one in a step, so it is exact for as long as steps can be counted.\<close>

definition worker_gauge :: "mqtt_worker_state \<Rightarrow> nat" where
  "worker_gauge w = unat (mq_queue_pending (session_runtime (mw_session w)))"

lemma publish_all_runtime [simp]:
  "session_runtime (snd (publish_all client t reqs s)) = session_runtime s"
  by (simp add: session_runtime_def)

lemma gauge_session_step:
  "unat (mq_queue_pending (session_runtime (snd (mqtt_session_step client t rid addr st ev s))))
     \<le> unat (mq_queue_pending (session_runtime s))"
  by (cases ev)
    (auto simp: mqtt_session_step_def flush_pending_def recv_request_def publish_online_session_snapshot_def
      Let_def case_prod_unfold drop_pending_facts split: option.split list.split)

lemma gauge_step:
  assumes "worker_counting e w"
  shows "worker_gauge (worker_act cfg e w) \<le> Suc (worker_gauge w)"
proof (cases e)
  case (WPublish req)
  then show ?thesis
    using assms
    by (simp add: worker_gauge_def worker_counting_def mqtt_try_send_def session_runtime_def queue_gauge.inc_exact)
next
  case (WHead is_closed)
  then show ?thesis
    by (auto simp: worker_gauge_def worker_head_def worker_session_failed_def mqtt_session_start_def split: sum.split)
next
  case (WTurn client t rid addr st ev)
  then show ?thesis
    using gauge_session_step [of client t rid addr st ev "mw_session w"]
    by (auto simp: worker_gauge_def worker_turn_def worker_session_failed_def case_prod_unfold
        split: session_ctl.split)
qed (auto simp: worker_gauge_def split: worker_phase.split)

lemma worker_run_counting:
  assumes "worker_gauge w + length es < 2 ^ 64"
  shows "mqtt_worker.run_allowed cfg es w"
  using assms
proof (induction es arbitrary: w)
  case (Cons e es)
  then have "worker_counting e w" by (simp add: worker_counting_def worker_gauge_def)
  moreover from this gauge_step [of e w cfg] Cons.prems have "worker_gauge (worker_act cfg e w) + length es < 2 ^ 64"
    by simp
  ultimately show ?case using Cons.IH by simp
qed simp

section \<open>Properties\<close>

text \<open>A worker before its first session.\<close>

definition mqtt_session_new :: mqtt_session where
  "mqtt_session_new =
     \<lparr>ms_publisher = \<lparr>mp_queue = [], mp_runtime = mqtt_runtime_state_new True\<rparr>, ms_pending = [],
      ms_has_connected_once = False, ms_published = []\<rparr>"

text \<open>
  C34. The gauge over the life of the worker, whatever the handlers publish, whatever the event loop
  and the broker do and however many sessions fail: \<open>queue_pending\<close> is exactly the number of
  events that wait in the channel, are kept back for the connection, or were lost because they
  were kept back when a session failed, for as long as fewer than \<open>2 ^ 64\<close> steps have been
  taken; so it is exact as long as nothing was lost. Neither queue exceeds 256, and no event
  is kept back between two sessions.
\<close>

theorem mqtt_gauge_exact:
  assumes "length es < 2 ^ 64" "w = fold (worker_act cfg) es mqtt_worker_new"
  shows "unat (mq_queue_pending (session_runtime (mw_session w)))
      = length (mp_queue (ms_publisher (mw_session w))) + length (ms_pending (mw_session w)) + length (mw_lost w)
    \<and> length (mp_queue (ms_publisher (mw_session w))) \<le> 256
    \<and> length (ms_pending (mw_session w)) \<le> 256
    \<and> (mw_phase w = LoopHead \<longrightarrow> ms_pending (mw_session w) = [])"
proof -
  have "worker_accounted mqtt_worker_new" "worker_gauge mqtt_worker_new = 0"
    by (simp_all add: worker_accounted_def accounted_with_def worker_gauge_def mqtt_worker_new_def
        mqtt_runtime_state_new_def session_runtime_def)
  then have "worker_accounted w"
    unfolding assms(2) using assms(1) by (intro mqtt_worker.run_invar worker_run_counting) simp_all
  then show ?thesis by (simp add: worker_accounted_def accounted_with_def)
qed

definition sample_worker_run :: "worker_event list" where
  "sample_worker_run =
     [WHead False, WPublish (MqttDeviceOffline ''d1'' [] []), WTurn (\<lambda>_. None) [] [] [] relay_state_new Recv,
      WTurn (\<lambda>_. None) [] [] [] relay_state_new (PollError []), WWake, WHead False,
      WPublish (MqttDeviceOffline ''d2'' [] [])]"

theorem mqtt_gauge_exact_witness:
  "\<exists>w. w = fold (worker_act default_mqtt_config) sample_worker_run mqtt_worker_new
     \<and> mw_phase w = InSession \<and> mw_lost w = [MqttDeviceOffline ''d1'' [] []]
     \<and> mp_queue (ms_publisher (mw_session w)) = [MqttDeviceOffline ''d2'' [] []]
     \<and> unat (mq_queue_pending (session_runtime (mw_session w))) = 2"
proof -
  let ?w = "fold (worker_act default_mqtt_config) sample_worker_run mqtt_worker_new"
  have addr: "parse_host_port (broker_address default_mqtt_config) = Inr (''localhost'', 1883)" by code_simp
  have w: "mw_phase ?w = InSession \<and> mw_lost ?w = [MqttDeviceOffline ''d1'' [] []]
      \<and> mp_queue (ms_publisher (mw_session ?w)) = [MqttDeviceOffline ''d2'' [] []] \<and> ms_pending (mw_session ?w) = []"
    by (simp add: sample_worker_run_def mqtt_worker_new_def worker_head_def addr worker_turn_def worker_session_failed_def
        mqtt_session_step_def recv_request_def mqtt_try_send_def mqtt_session_start_def session_runtime_def
        on_runtime_def mqtt_runtime_state_new_def MQTT_PUBLISH_QUEUE_CAPACITY_def increment_queue_pending_def
        set_connected_def)
  have "length sample_worker_run < 2 ^ 64" by (simp add: sample_worker_run_def)
  from mqtt_gauge_exact [OF this refl, of default_mqtt_config] w show ?thesis by simp
qed

text \<open>
  C40. A session that ends with an error takes the events it kept back with it: the next session
  starts without them, they are not counted as dropped, and the gauge keeps counting them.
\<close>

theorem mqtt_pending_lost_on_error:
  assumes "ms_pending s \<noteq> []" "mqtt_accounted s" "\<not> mq_connected (session_runtime s)"
  shows "let s' = mqtt_session_start (snd (mqtt_session_step client t rid addr st (PollError e) s))
    in fst (mqtt_session_step client t rid addr st (PollError e) s)
        = SReturnErr (''mqtt eventloop poll error: '' @ e)
    \<and> ms_pending s' = [] \<and> ms_published s' = ms_published s
    \<and> mq_dropped_total (session_runtime s') = mq_dropped_total (session_runtime s)
    \<and> unat (mq_queue_pending (session_runtime s'))
        = length (mp_queue (ms_publisher s')) + length (ms_pending s)"
  using assms(2,3)
  by (simp add: Let_def mqtt_session_step_def mqtt_session_start_def mqtt_accounted_def
      set_connected_def on_runtime_def session_runtime_def)

theorem mqtt_pending_lost_on_error_witness:
  "ms_pending (mqtt_session_start (snd (mqtt_session_step (\<lambda>_. None) [] [] [] relay_state_new
      (PollError []) (fold mqtt_act [Publish (MqttDeviceOffline [] [] []),
        Turn (\<lambda>_. None) [] [] [] relay_state_new Recv] mqtt_session_new)))) = []
   \<and> unat (mq_queue_pending (session_runtime (mqtt_session_start (snd (mqtt_session_step (\<lambda>_. None) [] [] []
      relay_state_new (PollError []) (fold mqtt_act [Publish (MqttDeviceOffline [] [] []),
        Turn (\<lambda>_. None) [] [] [] relay_state_new Recv] mqtt_session_new)))))) = 1"
proof -
  let ?s = "fold mqtt_act [Publish (MqttDeviceOffline [] [] []),
        Turn (\<lambda>_. None) [] [] [] relay_state_new Recv] mqtt_session_new"
  have s: "ms_pending ?s = [MqttDeviceOffline [] [] []]" "\<not> mq_connected (session_runtime ?s)"
    "mp_queue (ms_publisher ?s) = []" "unat (mq_queue_pending (session_runtime ?s)) = 1"
    by (simp_all add: mqtt_session_new_def mqtt_try_send_def mqtt_session_step_def session_runtime_def
        mqtt_runtime_state_new_def recv_request_def MQTT_PUBLISH_QUEUE_CAPACITY_def increment_queue_pending_def)
  have acc: "mqtt_accounted ?s" using s by (simp add: mqtt_accounted_def)
  have q: "mp_queue (ms_publisher (mqtt_session_start (snd (mqtt_session_step (\<lambda>_. None) [] [] []
      relay_state_new (PollError []) ?s)))) = []"
    using s by (simp add: mqtt_session_step_def mqtt_session_start_def)
  show ?thesis
    using mqtt_pending_lost_on_error [OF _ acc s(2), of "\<lambda>_. None" "[]" "[]" "[]" relay_state_new "[]"] s(1) q
    by (simp add: Let_def)
qed

text \<open>
  The wait before the \<open>attempt\<close>-th reconnection is at least one second and at most the
  configured maximum, doubles until it gets there and never decreases; no multiplication
  overflows.
\<close>

theorem mqtt_backoff_exact:
  fixes cfg :: mqtt_config
  shows "unat (mqtt_backoff_secs cfg attempt) =
      min (max (max 1 (unat (reconnect_initial_seconds cfg))) (unat (reconnect_max_seconds cfg)))
          (max 1 (unat (reconnect_initial_seconds cfg)) * 2 ^ min (unat attempt) 20)"
proof -
  have "unat (checked_pow2 (min (unat attempt) 20)) = 2 ^ min (unat attempt) 20"
    by (rule unat_checked_pow2) simp
  moreover have "min a (min p (2 ^ 64 - 1)) = min a p" if "a < 2 ^ 64" for a p :: nat
    using that by simp
  moreover have "max (max 1 (unat (reconnect_initial_seconds cfg))) (unat (reconnect_max_seconds cfg)) < 2 ^ 64"
    using unat_less_u64 [of "reconnect_initial_seconds cfg"] unat_less_u64 [of "reconnect_max_seconds cfg"] by simp
  moreover have "unat (1 :: u64) = 1" by simp
  ultimately show ?thesis
    unfolding mqtt_backoff_secs_def Let_def unat_max_u64 unat_min_u64 unat_saturating_mul by metis
qed

text \<open>
  C35. The broker address parser reads back every host and port written as \<open>host:port\<close>, for a host
  without the separators of the grammar and any 16-bit port.
\<close>

theorem broker_address_roundtrip:
  assumes "host \<noteq> []" "hd host \<noteq> CHR ''[''" "port < 65536"
    "CHR ''/'' \<notin> set host" "CHR ''@'' \<notin> set host" "CHR '':'' \<notin> set host"
  shows "parse_host_port (host @ '':'' @ dec_string port) = Inr (host, port)"
proof -
  let ?s = "host @ '':'' @ dec_string port"
  have digits: "CHR ''/'' \<notin> set (dec_string port)" "CHR ''@'' \<notin> set (dec_string port)"
    "CHR '':'' \<notin> set (dec_string port)"
    using dec_string_chars digit_not_special by blast+
  have 1: "split_once_str ''://'' ?s = None" using assms(4) digits by (intro split_once_no_slash) auto
  have 2: "before_first (CHR ''/'') ?s = ?s"
    using assms(4) digits unfolding before_first_def by (intro takeWhile_eq_all_conv [THEN iffD2]) auto
  have 3: "after_last (CHR ''@'') ?s = ?s"
    using assms(5) digits unfolding after_last_def
    by (subst takeWhile_eq_all_conv [THEN iffD2]) auto
  have 4: "rsplit_once_char (CHR '':'') ?s = Some (host, dec_string port)"
    using rsplit_once_append [OF digits(3), of host] by simp
  have "hd ?s \<noteq> CHR ''[''" "?s \<noteq> []" using assms(1,2) by auto
  then show ?thesis
    unfolding parse_host_port_def 1 using 2 3 4 assms parse_u16_dec_string [of port]
    by (simp add: Let_def)
qed

theorem broker_address_roundtrip_witness:
  "parse_host_port ''localhost:1883'' = Inr (''localhost'', 1883)"
  using broker_address_roundtrip [of "''localhost''" 1883] by (simp add: dec_string.simps)

end
