(* ===== verification/Idempotency.thy ===== *)
theory Idempotency
  imports Relay_Proto
begin

text \<open>
  \<^verbatim>\<open>crates/relay/src/idempotency.rs\<close>: the cache of responses by device and sequence number. The
  cache itself is \<open>LruCache\<close> of the crate \<open>lru_time_cache\<close>: its operations are parameters,
  bundled in a record, and what its documentation promises is a predicate on the bundle that
  properties name as a hypothesis.
\<close>

section \<open>The cache crate as parameters\<close>

record 'c lru_ops =
  lru_with_expiry_duration_and_capacity :: "duration \<Rightarrow> nat \<Rightarrow> 'c"
  lru_get :: "instant \<Rightarrow> string \<times> int \<Rightarrow> 'c \<Rightarrow> device_response option \<times> 'c"
  lru_insert :: "instant \<Rightarrow> string \<times> int \<Rightarrow> device_response \<Rightarrow> 'c \<Rightarrow> 'c"
  lru_remove :: "instant \<Rightarrow> string \<times> int \<Rightarrow> 'c \<Rightarrow> 'c"

text \<open>
  The documented behaviour: a new cache is empty; a lookup returns only what was inserted under
  that very key, the latest such, and never makes entries up; removing a key makes it absent. \<open>holds c k v\<close> says that \<open>v\<close> may still be returned for \<open>k\<close>.
\<close>

definition lru_documented :: "'c lru_ops \<Rightarrow> ('c \<Rightarrow> string \<times> int \<Rightarrow> device_response \<Rightarrow> bool) \<Rightarrow> bool" where
  "lru_documented ops holds \<longleftrightarrow>
     (\<forall>ttl cap k v. \<not> holds (lru_with_expiry_duration_and_capacity ops ttl cap) k v)
     \<and> (\<forall>t k c v. fst (lru_get ops t k c) = Some v \<longrightarrow> holds c k v)
     \<and> (\<forall>t k c k' v. holds (snd (lru_get ops t k c)) k' v \<longrightarrow> holds c k' v)
     \<and> (\<forall>t k v c k' v'. holds (lru_insert ops t k v c) k' v' \<longrightarrow>
          (k' = k \<and> v' = v) \<or> (k' \<noteq> k \<and> holds c k' v'))
     \<and> (\<forall>t k c k' v. holds (lru_remove ops t k c) k' v \<longrightarrow> k' \<noteq> k \<and> holds c k' v)"

section \<open>The idempotency cache\<close>

record 'c idempotency_cache =
  ic_inner :: 'c
  ic_capacity :: nat
  ic_ttl :: duration

definition idempotency_cache_new :: "'c lru_ops \<Rightarrow> nat \<Rightarrow> nat \<Rightarrow> 'c idempotency_cache" where
  "idempotency_cache_new ops capacity ttl_seconds =
     (let ttl = from_secs ttl_seconds
      in \<lparr>ic_inner = lru_with_expiry_duration_and_capacity ops ttl capacity, ic_capacity = capacity,
          ic_ttl = ttl\<rparr>)"

definition cache_get ::
  "'c lru_ops \<Rightarrow> instant \<Rightarrow> string \<Rightarrow> int \<Rightarrow> 'c idempotency_cache
     \<Rightarrow> device_response option \<times> 'c idempotency_cache" where
  "cache_get ops now device_id sequence_number ic =
     (let (r, inner) = lru_get ops now (device_id, sequence_number) (ic_inner ic)
      in (r, ic\<lparr>ic_inner := inner\<rparr>))"

definition cache_insert ::
  "'c lru_ops \<Rightarrow> instant \<Rightarrow> string \<Rightarrow> int \<Rightarrow> device_response \<Rightarrow> 'c idempotency_cache
     \<Rightarrow> 'c idempotency_cache" where
  "cache_insert ops now device_id sequence_number response ic =
     ic\<lparr>ic_inner := lru_insert ops now (device_id, sequence_number) response (ic_inner ic)\<rparr>"

definition cache_remove ::
  "'c lru_ops \<Rightarrow> instant \<Rightarrow> string \<Rightarrow> int \<Rightarrow> 'c idempotency_cache \<Rightarrow> 'c idempotency_cache" where
  "cache_remove ops now device_id sequence_number ic =
     ic\<lparr>ic_inner := lru_remove ops now (device_id, sequence_number) (ic_inner ic)\<rparr>"

section \<open>Facts\<close>

text \<open>
  A property of keys and responses that holds of everything inserted holds of everything the
  cache may return.
\<close>

definition cache_all ::
  "('c \<Rightarrow> string \<times> int \<Rightarrow> device_response \<Rightarrow> bool) \<Rightarrow> (string \<times> int \<Rightarrow> device_response \<Rightarrow> bool)
     \<Rightarrow> 'c idempotency_cache \<Rightarrow> bool" where
  "cache_all holds P ic \<longleftrightarrow> (\<forall>k v. holds (ic_inner ic) k v \<longrightarrow> P k v)"

lemma lru_documentedD:
  assumes "lru_documented ops holds"
  shows "\<not> holds (lru_with_expiry_duration_and_capacity ops ttl cap) k v"
    and "fst (lru_get ops t k c) = Some v \<Longrightarrow> holds c k v"
    and "holds (snd (lru_get ops t k c)) k' v \<Longrightarrow> holds c k' v"
    and "holds (lru_insert ops t k v c) k' v' \<Longrightarrow> k' = k \<and> v' = v \<or> holds c k' v'"
  using assms unfolding lru_documented_def by meson+

lemma cache_all_new: "lru_documented ops holds \<Longrightarrow> cache_all holds P (idempotency_cache_new ops n s)"
  using lru_documentedD(1) by (fastforce simp: cache_all_def idempotency_cache_new_def Let_def)

lemma cache_all_get:
  assumes "lru_documented ops holds" "cache_all holds P ic"
  shows "cache_all holds P (snd (cache_get ops t d s ic))"
    and "fst (cache_get ops t d s ic) = Some v \<Longrightarrow> P (d, s) v"
proof -
  have "ic_inner (snd (cache_get ops t d s ic)) = snd (lru_get ops t (d, s) (ic_inner ic))"
    and r: "fst (cache_get ops t d s ic) = fst (lru_get ops t (d, s) (ic_inner ic))"
    by (simp_all add: cache_get_def case_prod_unfold Let_def)
  then show "cache_all holds P (snd (cache_get ops t d s ic))"
    using assms(2) lru_documentedD(3) [OF assms(1)] unfolding cache_all_def by metis
  show "fst (cache_get ops t d s ic) = Some v \<Longrightarrow> P (d, s) v"
    using assms(2) lru_documentedD(2) [OF assms(1)] unfolding cache_all_def r by metis
qed

lemma cache_all_insert:
  assumes "lru_documented ops holds" "cache_all holds P ic" "P (d, s) v"
  shows "cache_all holds P (cache_insert ops t d s v ic)"
proof -
  have "ic_inner (cache_insert ops t d s v ic) = lru_insert ops t (d, s) v (ic_inner ic)"
    by (simp add: cache_insert_def)
  then show ?thesis
    using assms(2,3) lru_documentedD(4) [OF assms(1)] unfolding cache_all_def by metis
qed

text \<open>An association list is such a cache: one that never forgets.\<close>

definition alist_lru :: "(string \<times> int, device_response) dashmap lru_ops" where
  "alist_lru =
     \<lparr>lru_with_expiry_duration_and_capacity = \<lambda>_ _. [],
      lru_get = \<lambda>_ k c. (map_of c k, c),
      lru_insert = \<lambda>_ k v c. AList.update k v c,
      lru_remove = \<lambda>_ k c. AList.delete k c\<rparr>"

lemma alist_lru_documented: "lru_documented alist_lru (\<lambda>c k v. map_of c k = Some v)"
  by (auto simp: lru_documented_def alist_lru_def split: if_splits)

end
