(* ===== verification/Relay_Core.thy ===== *)
theory Relay_Core
  imports Validator Auth_Service Rate_Limiter Stream_Router Relay_State Relay_Metrics Audit_Log
    Mqtt_Runtime Idempotency
begin

text \<open>
  The state that the handlers of \<^verbatim>\<open>grpc_service.rs\<close> share (\<open>RelayGrpcService\<close>), what one step of a
  handler gets from outside (clocks, readings, the JWT library, the cache crate, which channels
  are closed), and the effects the handlers have on the shared state. Messages sent on channels
  are kept in order in an output log; the detached timeout task of a request is an entry of a
  list of timers.
\<close>

section \<open>Environment of a step\<close>

record 'c step_env =
  env_now :: instant
  env_now_ns :: u64
  env_audit_io :: audit_io
  env_sys :: sys_reading
  env_decode :: jwt_decode
  env_lru :: "'c lru_ops"
  env_closed :: "chan \<Rightarrow> bool"

section \<open>Shared state\<close>

datatype out_msg =
    ToDevice chan relay_message
  | ToController chan device_response

record timer =
  tm_due :: instant
  tm_device_id :: string
  tm_seq :: int

record 'c relay_service =
  svc_state :: relay_state
  svc_relay_address :: string
  svc_cache :: "'c idempotency_cache"
  svc_rate_limiter :: rate_limiter
  svc_connection_limiter :: connection_rate_limiter
  svc_bandwidth_tracker :: bandwidth_tracker
  svc_stream_router :: stream_router
  svc_inflight_timeout :: duration
  svc_heartbeat_timeout :: duration
  svc_auth_service :: auth_service
  svc_rbac :: rbac_policy_engine
  svc_metrics :: metrics
  svc_resource_monitor :: resource_monitor
  svc_mqtt_publisher :: "mqtt_publisher option"
  svc_audit_logger :: "audit_logger option"
  svc_out :: "out_msg list"
  svc_timers :: "timer list"

definition relay_grpc_service_new ::
  "'c lru_ops \<Rightarrow> relay_state \<Rightarrow> app_config \<Rightarrow> metrics \<Rightarrow> resource_monitor \<Rightarrow> mqtt_publisher option
     \<Rightarrow> audit_logger option \<Rightarrow> 'c relay_service" where
  "relay_grpc_service_new ops st config mx mon mqtt_pub audit_lg =
     \<lparr>svc_state = st, svc_relay_address = relay_address (relay config),
      svc_cache = idempotency_cache_new ops (cache_capacity (idempotency (relay config)))
        (cache_ttl_seconds (idempotency (relay config))),
      svc_rate_limiter = rate_limiter_new (rate_limiting (relay config)),
      svc_connection_limiter = connection_rate_limiter_new (rate_limiting (relay config)),
      svc_bandwidth_tracker = bandwidth_tracker_new (rate_limiting (relay config)),
      svc_stream_router = stream_router_new (stream (relay config)),
      svc_inflight_timeout = from_secs 60,
      svc_heartbeat_timeout = from_secs (heartbeat_timeout_seconds (relay config)),
      svc_auth_service = auth_service_new (auth (relay config)),
      svc_rbac = rbac_new (auth (relay config)), svc_metrics = mx, svc_resource_monitor = mon,
      svc_mqtt_publisher = mqtt_pub, svc_audit_logger = audit_lg, svc_out = [], svc_timers = []\<rparr>"

section \<open>Effects\<close>

definition on_state :: "(relay_state \<Rightarrow> relay_state) \<Rightarrow> 'c relay_service \<Rightarrow> 'c relay_service" where
  "on_state f svc = svc\<lparr>svc_state := f (svc_state svc)\<rparr>"

definition on_router :: "(stream_router \<Rightarrow> stream_router) \<Rightarrow> 'c relay_service \<Rightarrow> 'c relay_service" where
  "on_router f svc = svc\<lparr>svc_stream_router := f (svc_stream_router svc)\<rparr>"

definition on_metrics :: "(metrics \<Rightarrow> metrics) \<Rightarrow> 'c relay_service \<Rightarrow> 'c relay_service" where
  "on_metrics f svc = svc\<lparr>svc_metrics := f (svc_metrics svc)\<rparr>"

definition on_relay_metrics :: "(relay_metrics \<Rightarrow> relay_metrics) \<Rightarrow> 'c relay_service \<Rightarrow> 'c relay_service" where
  "on_relay_metrics f svc = on_metrics (\<lambda>mx. mx\<lparr>m_relay := f (m_relay mx)\<rparr>) svc"

text \<open>\<open>if let Some(ref audit) = audit_logger { .. }\<close> and the same for the MQTT publisher.\<close>

definition on_audit :: "(audit_logger \<Rightarrow> audit_logger) \<Rightarrow> 'c relay_service \<Rightarrow> 'c relay_service" where
  "on_audit f svc = svc\<lparr>svc_audit_logger := map_option f (svc_audit_logger svc)\<rparr>"

definition on_mqtt :: "(mqtt_publisher \<Rightarrow> mqtt_publisher) \<Rightarrow> 'c relay_service \<Rightarrow> 'c relay_service" where
  "on_mqtt f svc = svc\<lparr>svc_mqtt_publisher := map_option f (svc_mqtt_publisher svc)\<rparr>"

text \<open>\<open>tx.send(Ok(m)).await\<close>: on a closed channel the message is lost and the result an error.\<close>

definition send_device :: "'c step_env \<Rightarrow> chan \<Rightarrow> relay_message \<Rightarrow> 'c relay_service \<Rightarrow> bool \<times> 'c relay_service" where
  "send_device env ch m svc =
     (if env_closed env ch then (False, svc)
      else (True, svc\<lparr>svc_out := svc_out svc @ [ToDevice ch m]\<rparr>))"

definition send_controller :: "'c step_env \<Rightarrow> chan \<Rightarrow> device_response \<Rightarrow> 'c relay_service \<Rightarrow> 'c relay_service" where
  "send_controller env ch r svc =
     (if env_closed env ch then svc else svc\<lparr>svc_out := svc_out svc @ [ToController ch r]\<rparr>)"

definition send_error_response ::
  "'c step_env \<Rightarrow> chan \<Rightarrow> string \<Rightarrow> int \<Rightarrow> error_code \<Rightarrow> 'c relay_service \<Rightarrow> 'c relay_service" where
  "send_error_response env ch device_id seq err svc =
     send_controller env ch
       \<lparr>dr_device_id = device_id, dr_sequence_number = seq, dr_encrypted_payload = [],
        dr_error = error_code_i32 err\<rparr> svc"

text \<open>\<open>tokio::spawn(async move { sleep(inflight_timeout).await; .. })\<close>.\<close>

definition spawn_timeout :: "'c step_env \<Rightarrow> string \<Rightarrow> int \<Rightarrow> 'c relay_service \<Rightarrow> 'c relay_service" where
  "spawn_timeout env device_id seq svc =
     svc\<lparr>svc_timers := svc_timers svc @
        [\<lparr>tm_due = env_now env + svc_inflight_timeout svc, tm_device_id = device_id, tm_seq = seq\<rparr>]\<rparr>"

section \<open>Facts\<close>

lemmas effect_defs = on_state_def on_router_def on_metrics_def on_relay_metrics_def on_audit_def
  on_mqtt_def send_device_def send_controller_def send_error_response_def spawn_timeout_def

text \<open>What each effect leaves alone of the parts the invariants speak of.\<close>

lemma effect_state [simp]:
  "svc_state (on_state f svc) = f (svc_state svc)"
  "svc_state (on_router g svc) = svc_state svc"
  "svc_state (on_metrics h svc) = svc_state svc"
  "svc_state (on_relay_metrics i svc) = svc_state svc"
  "svc_state (on_audit j svc) = svc_state svc"
  "svc_state (on_mqtt k svc) = svc_state svc"
  "svc_state (snd (send_device env ch m svc)) = svc_state svc"
  "svc_state (send_controller env ch r svc) = svc_state svc"
  "svc_state (send_error_response env ch d s e svc) = svc_state svc"
  "svc_state (spawn_timeout env d s svc) = svc_state svc"
  by (simp_all add: effect_defs)

lemma effect_router [simp]:
  "svc_stream_router (on_state f svc) = svc_stream_router svc"
  "svc_stream_router (on_router g svc) = g (svc_stream_router svc)"
  "svc_stream_router (on_metrics h svc) = svc_stream_router svc"
  "svc_stream_router (on_relay_metrics i svc) = svc_stream_router svc"
  "svc_stream_router (on_audit j svc) = svc_stream_router svc"
  "svc_stream_router (on_mqtt k svc) = svc_stream_router svc"
  "svc_stream_router (snd (send_device env ch m svc)) = svc_stream_router svc"
  "svc_stream_router (send_controller env ch r svc) = svc_stream_router svc"
  "svc_stream_router (send_error_response env ch d s e svc) = svc_stream_router svc"
  "svc_stream_router (spawn_timeout env d s svc) = svc_stream_router svc"
  by (simp_all add: effect_defs)

lemma effect_out [simp]:
  "svc_out (on_state f svc) = svc_out svc"
  "svc_out (on_router g svc) = svc_out svc"
  "svc_out (on_metrics h svc) = svc_out svc"
  "svc_out (on_relay_metrics i svc) = svc_out svc"
  "svc_out (on_audit j svc) = svc_out svc"
  "svc_out (on_mqtt k svc) = svc_out svc"
  "svc_out (spawn_timeout env d s svc) = svc_out svc"
  by (simp_all add: effect_defs)

lemma effect_auth [simp]:
  "svc_auth_service (on_state f svc) = svc_auth_service svc"
  "svc_auth_service (on_router g svc) = svc_auth_service svc"
  "svc_auth_service (on_metrics h svc) = svc_auth_service svc"
  "svc_auth_service (on_relay_metrics i svc) = svc_auth_service svc"
  "svc_auth_service (on_audit j svc) = svc_auth_service svc"
  "svc_auth_service (on_mqtt k svc) = svc_auth_service svc"
  "svc_auth_service (snd (send_device env ch m svc)) = svc_auth_service svc"
  "svc_auth_service (send_controller env ch r svc) = svc_auth_service svc"
  "svc_auth_service (send_error_response env ch d s e svc) = svc_auth_service svc"
  "svc_auth_service (spawn_timeout env d s svc) = svc_auth_service svc"
  by (simp_all add: effect_defs)

lemma effect_timers [simp]:
  "svc_timers (on_state f svc) = svc_timers svc"
  "svc_timers (on_router g svc) = svc_timers svc"
  "svc_timers (on_metrics h svc) = svc_timers svc"
  "svc_timers (on_relay_metrics i svc) = svc_timers svc"
  "svc_timers (on_audit j svc) = svc_timers svc"
  "svc_timers (on_mqtt k svc) = svc_timers svc"
  "svc_timers (snd (send_device env ch m svc)) = svc_timers svc"
  "svc_timers (send_controller env ch r svc) = svc_timers svc"
  "svc_timers (send_error_response env ch d s e svc) = svc_timers svc"
  by (simp_all add: effect_defs)

lemma effect_cache [simp]:
  "svc_cache (on_state f svc) = svc_cache svc"
  "svc_cache (on_router g svc) = svc_cache svc"
  "svc_cache (on_metrics h svc) = svc_cache svc"
  "svc_cache (on_relay_metrics i svc) = svc_cache svc"
  "svc_cache (on_audit j svc) = svc_cache svc"
  "svc_cache (on_mqtt k svc) = svc_cache svc"
  "svc_cache (snd (send_device env ch m svc)) = svc_cache svc"
  "svc_cache (send_controller env ch r svc) = svc_cache svc"
  "svc_cache (send_error_response env ch d s e svc) = svc_cache svc"
  "svc_cache (spawn_timeout env d s svc) = svc_cache svc"
  by (simp_all add: effect_defs)

lemma effect_inflight_timeout [simp]:
  "svc_inflight_timeout (on_state f svc) = svc_inflight_timeout svc"
  "svc_inflight_timeout (on_router g svc) = svc_inflight_timeout svc"
  "svc_inflight_timeout (on_metrics h svc) = svc_inflight_timeout svc"
  "svc_inflight_timeout (on_relay_metrics i svc) = svc_inflight_timeout svc"
  "svc_inflight_timeout (on_audit j svc) = svc_inflight_timeout svc"
  "svc_inflight_timeout (on_mqtt k svc) = svc_inflight_timeout svc"
  "svc_inflight_timeout (snd (send_device env ch m svc)) = svc_inflight_timeout svc"
  "svc_inflight_timeout (send_controller env ch r svc) = svc_inflight_timeout svc"
  "svc_inflight_timeout (send_error_response env ch d sq e svc) = svc_inflight_timeout svc"
  "svc_inflight_timeout (spawn_timeout env d sq svc) = svc_inflight_timeout svc"
  by (simp_all add: effect_defs)

text \<open>What a send adds to the output log.\<close>

lemma out_send_device:
  "svc_out (snd (send_device env ch m svc)) =
     svc_out svc @ (if env_closed env ch then [] else [ToDevice ch m])"
  "fst (send_device env ch m svc) \<longleftrightarrow> \<not> env_closed env ch"
  by (simp_all add: send_device_def)

lemma out_send_controller:
  "svc_out (send_controller env ch r svc) =
     svc_out svc @ (if env_closed env ch then [] else [ToController ch r])"
  by (simp add: send_controller_def)

lemma out_send_error_response:
  "svc_out (send_error_response env ch d s e svc) =
     svc_out svc @ (if env_closed env ch then [] else [ToController ch (error_resp d s e)])"
  by (simp add: send_error_response_def out_send_controller error_resp_def)

lemmas out_sends = out_send_device out_send_controller out_send_error_response

end
