(* ===== verification/Device_Stream.thy ===== *)
theory Device_Stream
  imports Relay_Core
begin

text \<open>
  \<open>run_device_connect_stream\<close> of \<^verbatim>\<open>crates/relay/src/grpc_service.rs\<close>: the loop that serves one
  device stream, a step per message, and what it does when the stream ends. The local variables
  of the task are a record. Each step is atomic.
\<close>

section \<open>Local state and events\<close>

record device_stream =
  dst_current_device_id :: "string option"
  dst_current_connection_id :: "string option"
  dst_out_tx :: chan

definition device_stream_new :: "chan \<Rightarrow> device_stream" where
  "device_stream_new out_tx =
     \<lparr>dst_current_device_id = None, dst_current_connection_id = None, dst_out_tx = out_tx\<rparr>"

text \<open>What \<open>timeout(heartbeat_timeout, inbound.next())\<close> yields.\<close>

datatype device_event =
    DeviceMsg device_message
  | DeviceStreamError
  | DeviceStreamEnd
  | DeviceHeartbeatTimeout

text \<open>The loop goes on, or breaks with a disconnect reason.\<close>

datatype loop_ctl = LContinue | LBreak string

type_synonym 'c device_result = "loop_ctl \<times> device_stream \<times> 'c relay_service"

section \<open>The steps of a message\<close>

definition device_touch :: "'c step_env \<Rightarrow> device_message \<Rightarrow> device_stream \<Rightarrow> 'c relay_service \<Rightarrow> 'c relay_service" where
  "device_touch env msg ds svc =
     (case dst_current_connection_id ds of
        Some connection_id \<Rightarrow>
          (if dst_current_device_id ds = Some (dmsg_device_id msg)
              \<and> has_active_device_connection (dmsg_device_id msg) connection_id (svc_state svc)
           then on_state (touch_device (env_now env) (dmsg_device_id msg)) svc else svc)
      | None \<Rightarrow> svc)"

definition device_auth_failure ::
  "'c step_env \<Rightarrow> string \<Rightarrow> string \<Rightarrow> string \<Rightarrow> 'c relay_service \<Rightarrow> 'c relay_service" where
  "device_auth_failure env dev_id token reason svc =
     on_audit (audit_auth_failure (env_audit_io env) ''device'' dev_id reason []
         (Some (token_prefix token)))
       (on_metrics record_auth_failure svc)"

definition is_register :: "device_message \<Rightarrow> bool" where
  "is_register msg = (case dmsg_payload msg of Some (Register _) \<Rightarrow> True | _ \<Rightarrow> False)"

text \<open>A message other than a registration must name the device the stream is registered for.\<close>

definition device_identity_guard ::
  "'c step_env \<Rightarrow> device_message \<Rightarrow> device_stream \<Rightarrow> 'c relay_service \<Rightarrow> bool \<times> 'c relay_service" where
  "device_identity_guard env msg ds svc =
     (if is_register msg then (True, svc)
      else case dst_current_device_id ds of
        Some current_id \<Rightarrow>
          (if current_id = dmsg_device_id msg then (True, svc)
           else (False, device_auth_failure env (dmsg_device_id msg) (dmsg_token msg)
                   ''device_id_mismatch_on_stream'' svc))
      | None \<Rightarrow>
          (False, device_auth_failure env (dmsg_device_id msg) (dmsg_token msg)
             ''non_register_before_registration'' svc))"

text \<open>Registration: authentication, limits, then the session.\<close>

definition device_auth_success :: "'c step_env \<Rightarrow> string \<Rightarrow> 'c relay_service \<Rightarrow> 'c relay_service" where
  "device_auth_success env dev_id svc =
     on_audit (audit_auth_success (env_audit_io env) ''device'' dev_id [])
       (on_metrics record_auth_success svc)"

definition register_limits :: "'c step_env \<Rightarrow> string \<Rightarrow> 'c relay_service \<Rightarrow> bool \<times> 'c relay_service" where
  "register_limits env dev_id svc =
     (let (allowed, cl) = allow_device (env_now env) dev_id (svc_connection_limiter svc);
          svc1 = svc\<lparr>svc_connection_limiter := cl\<rparr>
      in if \<not> allowed then
           (False,
            on_audit (audit_rate_limit (env_audit_io env) ''device'' dev_id ''connection_limit'' [])
              (on_metrics record_rate_limit svc1))
         else if \<not> is_healthy (env_sys env) (svc_resource_monitor svc1) then
           (False,
            on_audit (audit_rate_limit (env_audit_io env) ''device'' dev_id ''resource_unhealthy'' []) svc1)
         else (True, svc1))"

definition session_resumes :: "string \<Rightarrow> string \<Rightarrow> relay_state \<Rightarrow> bool" where
  "session_resumes dev_id previous_connection_id st \<longleftrightarrow>
     previous_connection_id \<noteq> []
     \<and> device_id_for_connection previous_connection_id st = Some dev_id"

definition register_session ::
  "'c step_env \<Rightarrow> string \<Rightarrow> register_request \<Rightarrow> device_stream \<Rightarrow> 'c relay_service
     \<Rightarrow> device_stream \<times> 'c relay_service" where
  "register_session env dev_id req ds svc =
     (let (connection_id, st1) = next_connection_id (svc_state svc);
          previous_connection_id = rr_previous_connection_id req;
          session_resumed = session_resumes dev_id previous_connection_id st1;
          session = \<lparr>ds_device_id = dev_id, ds_connection_id = connection_id,
                     ds_metadata = rr_metadata req, ds_outbound_tx = dst_out_tx ds\<rparr>;
          svc1 = svc\<lparr>svc_state := insert_device_session session st1\<rparr>;
          svc2 = on_audit (\<lambda>lg.
                   let lg1 = audit_device_connect (env_audit_io env) dev_id connection_id []
                               (Some (metadata_json (rr_metadata req))) lg
                   in if session_resumed
                      then audit_session_resumed (env_audit_io env) dev_id previous_connection_id
                             connection_id [] lg1
                      else lg1) svc1;
          ds1 = ds\<lparr>dst_current_connection_id := Some connection_id\<rparr>;
          svc3 = on_mqtt (publish_device_online dev_id connection_id (svc_relay_address svc2)
                   (rr_metadata req)) svc2;
          (_, svc4) = send_device env (dst_out_tx ds)
                        (relay_message_register_response connection_id session_resumed) svc3
      in (ds1, svc4))"

definition device_register ::
  "'c step_env \<Rightarrow> string \<Rightarrow> string \<Rightarrow> register_request \<Rightarrow> device_stream \<Rightarrow> 'c relay_service
     \<Rightarrow> 'c device_result" where
  "device_register env dev_id token req ds svc =
     (case authenticate_device_by_token (svc_auth_service svc) dev_id token of
        Inl _ \<Rightarrow>
          (LBreak ''error'', ds, device_auth_failure env dev_id token ''invalid_device_token'' svc)
      | Inr _ \<Rightarrow>
          (let svc1 = device_auth_success env dev_id svc;
               ds1 = ds\<lparr>dst_current_device_id := Some dev_id\<rparr>;
               (allowed, svc2) = register_limits env dev_id svc1
           in if \<not> allowed then (LBreak ''error'', ds1, svc2)
              else (LContinue, register_session env dev_id req ds1 svc2)))"

definition device_heartbeat ::
  "'c step_env \<Rightarrow> string \<Rightarrow> string \<Rightarrow> device_stream \<Rightarrow> 'c relay_service \<Rightarrow> 'c device_result" where
  "device_heartbeat env dev_id token ds svc =
     (case authenticate_device_by_token (svc_auth_service svc) dev_id token of
        Inl _ \<Rightarrow>
          (LBreak ''error'', ds,
           device_auth_failure env dev_id token ''invalid_device_token_on_heartbeat'' svc)
      | Inr _ \<Rightarrow>
          (LContinue, ds,
           snd (send_device env (dst_out_tx ds) relay_message_heartbeat_response
                  (device_auth_success env dev_id svc))))"

definition device_data ::
  "'c step_env \<Rightarrow> string \<Rightarrow> string \<Rightarrow> data_response \<Rightarrow> device_stream \<Rightarrow> 'c relay_service
     \<Rightarrow> 'c device_result" where
  "device_data env dev_id token data_resp ds svc =
     (case dst_current_device_id ds of
        None \<Rightarrow>
          (LBreak ''error'', ds, device_auth_failure env dev_id token ''data_before_registration'' svc)
      | Some response_device_id \<Rightarrow>
          (LContinue, ds,
           on_state (take_and_complete response_device_id (dresp_sequence_number data_resp)
             (device_response_from_device_data response_device_id (dresp_sequence_number data_resp)
                (dresp_encrypted_payload data_resp) (dresp_error data_resp))) svc))"

definition device_message_step ::
  "'c step_env \<Rightarrow> device_message \<Rightarrow> device_stream \<Rightarrow> 'c relay_service \<Rightarrow> 'c device_result" where
  "device_message_step env msg ds svc =
     (let svc1 = device_touch env msg ds svc;
          (ok, svc2) = device_identity_guard env msg ds svc1
      in if \<not> ok then (LBreak ''error'', ds, svc2)
         else case dmsg_payload msg of
           Some (Register req) \<Rightarrow> device_register env (dmsg_device_id msg) (dmsg_token msg) req ds svc2
         | Some (Heartbeat _) \<Rightarrow> device_heartbeat env (dmsg_device_id msg) (dmsg_token msg) ds svc2
         | Some (Data data_resp) \<Rightarrow> device_data env (dmsg_device_id msg) (dmsg_token msg) data_resp ds svc2
         | None \<Rightarrow> (LContinue, ds, svc2))"

fun device_event_step ::
  "'c step_env \<Rightarrow> device_event \<Rightarrow> device_stream \<Rightarrow> 'c relay_service \<Rightarrow> 'c device_result" where
  "device_event_step env (DeviceMsg msg) ds svc = device_message_step env msg ds svc"
| "device_event_step env DeviceStreamError ds svc = (LBreak ''error'', ds, svc)"
| "device_event_step env DeviceStreamEnd ds svc = (LBreak ''closed'', ds, svc)"
| "device_event_step env DeviceHeartbeatTimeout ds svc = (LBreak ''timeout'', ds, svc)"

section \<open>The end of the stream\<close>

definition notify_controllers ::
  "'c step_env \<Rightarrow> string \<Rightarrow> stream_mapping list \<Rightarrow> 'c relay_service \<Rightarrow> 'c relay_service" where
  "notify_controllers env did removed svc =
     fold (\<lambda>mapping svc.
        if sm_active_requests mapping = 0
        then send_controller env (sm_controller_tx mapping) (error_resp did 0 DEVICE_OFFLINE) svc
        else svc) removed svc"

definition close_session ::
  "'c step_env \<Rightarrow> string \<Rightarrow> string \<Rightarrow> device_stream \<Rightarrow> 'c relay_service \<Rightarrow> 'c relay_service" where
  "close_session env did reason ds svc =
     (let current_session_connection_id =
            map_option ds_connection_id (map_of (sessions_by_device_id (svc_state svc)) did);
          matches_stream_connection =
            (case dst_current_connection_id ds of
               Some stream_cid \<Rightarrow> has_active_device_connection did stream_cid (svc_state svc)
             | None \<Rightarrow> False)
      in if \<not> matches_stream_connection then svc
         else
           let svc1 = (case current_session_connection_id of
                         Some cid \<Rightarrow> on_mqtt (publish_device_offline did cid reason) svc
                       | None \<Rightarrow> svc);
               svc2 = on_audit (audit_device_disconnect (env_audit_io env) did
                        (case current_session_connection_id of Some cid \<Rightarrow> cid | None \<Rightarrow> [])
                        reason []) svc1
           in on_state (\<lambda>st. snd (remove_device_session did st)) svc2)"

definition device_stream_cleanup ::
  "'c step_env \<Rightarrow> string \<Rightarrow> device_stream \<Rightarrow> 'c relay_service \<Rightarrow> 'c relay_service" where
  "device_stream_cleanup env disconnect_reason ds svc =
     (let reason = (if disconnect_reason = ''closed'' then ''graceful_shutdown'' else disconnect_reason)
      in case dst_current_device_id ds of
           None \<Rightarrow> svc
         | Some did \<Rightarrow>
             (let (inflight, st1) = take_inflight_for_device did (svc_state svc);
                  svc1 = svc\<lparr>svc_state := st1\<rparr>;
                  (removed, router1) = remove_all_for_device did (svc_stream_router svc1);
                  svc2 = svc1\<lparr>svc_stream_router := router1\<rparr>;
                  svc3 = on_state (complete_all (\<lambda>seq. error_resp did seq DEVICE_OFFLINE) inflight) svc2;
                  svc4 = notify_controllers env did removed svc3
              in close_session env did reason ds svc4))"

section \<open>Facts\<close>

lemma notify_controllers_frame [simp]:
  "svc_state (notify_controllers env did ms svc) = svc_state svc"
  "svc_stream_router (notify_controllers env did ms svc) = svc_stream_router svc"
  "svc_auth_service (notify_controllers env did ms svc) = svc_auth_service svc"
  unfolding notify_controllers_def by (induction ms arbitrary: svc) auto

lemma device_auth_frame [simp]:
  "svc_state (device_auth_failure env d t r svc) = svc_state svc"
  "svc_state (device_auth_success env d svc) = svc_state svc"
  "svc_stream_router (device_auth_failure env d t r svc) = svc_stream_router svc"
  "svc_stream_router (device_auth_success env d svc) = svc_stream_router svc"
  "svc_auth_service (device_auth_failure env d t r svc) = svc_auth_service svc"
  "svc_auth_service (device_auth_success env d svc) = svc_auth_service svc"
  "svc_out (device_auth_failure env d t r svc) = svc_out svc"
  "svc_out (device_auth_success env d svc) = svc_out svc"
  by (simp_all add: device_auth_failure_def device_auth_success_def)

lemma register_limits_frame [simp]:
  "svc_state (snd (register_limits env d svc)) = svc_state svc"
  "svc_stream_router (snd (register_limits env d svc)) = svc_stream_router svc"
  "svc_auth_service (snd (register_limits env d svc)) = svc_auth_service svc"
  "svc_out (snd (register_limits env d svc)) = svc_out svc"
  by (simp_all add: register_limits_def Let_def case_prod_unfold)

lemma device_identity_guard_frame [simp]:
  "svc_state (snd (device_identity_guard env msg ds svc)) = svc_state svc"
  "svc_stream_router (snd (device_identity_guard env msg ds svc)) = svc_stream_router svc"
  "svc_auth_service (snd (device_identity_guard env msg ds svc)) = svc_auth_service svc"
  "svc_out (snd (device_identity_guard env msg ds svc)) = svc_out svc"
  by (simp_all add: device_identity_guard_def split: option.split)

text \<open>The end of a stream, seen on the shared state only.\<close>

lemma cleanup_state:
  "svc_state (device_stream_cleanup env reason ds svc) =
     (case dst_current_device_id ds of
        None \<Rightarrow> svc_state svc
      | Some did \<Rightarrow>
          (let st = fail_inflight did (\<lambda>seq. error_resp did seq DEVICE_OFFLINE) (svc_state svc)
           in if (\<exists>cid. dst_current_connection_id ds = Some cid
                    \<and> has_active_device_connection did cid (svc_state svc))
              then snd (remove_device_session did st) else st))"
proof (cases "dst_current_device_id ds")
  case (Some did)
  have st: "has_active_device_connection did cid (fail_inflight did r st)
      = has_active_device_connection did cid st" for cid r st
    by (simp add: has_active_device_connection_def)
  show ?thesis
    by (auto simp: device_stream_cleanup_def Let_def case_prod_unfold Some close_session_def
        fail_inflight_def [symmetric] fail_inflight_def [unfolded case_prod_unfold Let_def, symmetric]
        st split: option.split)
qed (simp add: device_stream_cleanup_def)

lemma cleanup_router:
  "svc_stream_router (device_stream_cleanup env reason ds svc) =
     (case dst_current_device_id ds of
        None \<Rightarrow> svc_stream_router svc
      | Some did \<Rightarrow> snd (remove_all_for_device did (svc_stream_router svc)))"
  by (auto simp: device_stream_cleanup_def Let_def case_prod_unfold close_session_def split: option.split)

text \<open>What a turn of the loop leaves alone, and what it sends.\<close>

lemma device_touch_frame [simp]:
  "svc_stream_router (device_touch env msg ds svc) = svc_stream_router svc"
  "svc_timers (device_touch env msg ds svc) = svc_timers svc"
  "svc_cache (device_touch env msg ds svc) = svc_cache svc"
  "svc_out (device_touch env msg ds svc) = svc_out svc"
  "svc_auth_service (device_touch env msg ds svc) = svc_auth_service svc"
  by (simp_all add: device_touch_def split: option.split)

lemma device_auth_more [simp]:
  "svc_timers (device_auth_failure env d t r svc) = svc_timers svc"
  "svc_timers (device_auth_success env d svc) = svc_timers svc"
  "svc_cache (device_auth_failure env d t r svc) = svc_cache svc"
  "svc_cache (device_auth_success env d svc) = svc_cache svc"
  "svc_timers (snd (register_limits env d svc)) = svc_timers svc"
  "svc_cache (snd (register_limits env d svc)) = svc_cache svc"
  "svc_timers (snd (device_identity_guard env msg ds svc)) = svc_timers svc"
  "svc_cache (snd (device_identity_guard env msg ds svc)) = svc_cache svc"
  by (simp_all add: device_auth_failure_def device_auth_success_def register_limits_def
      device_identity_guard_def Let_def case_prod_unfold split: option.split)

lemma register_session_frame [simp]:
  "svc_stream_router (snd (register_session env d req ds svc)) = svc_stream_router svc"
  "svc_timers (snd (register_session env d req ds svc)) = svc_timers svc"
  "svc_cache (snd (register_session env d req ds svc)) = svc_cache svc"
  by (simp_all add: register_session_def Let_def case_prod_unfold next_connection_id_def)

lemmas device_turn_defs = device_message_step_def device_register_def device_heartbeat_def
  device_data_def Let_def case_prod_unfold

lemma device_event_frame [simp]:
  "svc_stream_router (snd (snd (device_event_step env ev ds svc))) = svc_stream_router svc"
  "svc_timers (snd (snd (device_event_step env ev ds svc))) = svc_timers svc"
  "svc_cache (snd (snd (device_event_step env ev ds svc))) = svc_cache svc"
  by (cases ev; simp add: device_turn_defs split: option.split device_payload.split sum.split)+

definition to_devices :: "out_msg list \<Rightarrow> bool" where
  "to_devices outs \<longleftrightarrow> (\<forall>x \<in> set outs. \<exists>ch m. x = ToDevice ch m)"

definition sends_to_devices :: "'c relay_service \<Rightarrow> 'c relay_service \<Rightarrow> bool" where
  "sends_to_devices svc svc' \<longleftrightarrow> (\<exists>outs. svc_out svc' = svc_out svc @ outs \<and> to_devices outs)"

lemma sends_to_devices_send:
  "svc_out svc1 = svc_out svc \<Longrightarrow> sends_to_devices svc (snd (send_device env ch m svc1))"
  by (auto simp: sends_to_devices_def out_sends to_devices_def)

lemma sends_to_devices_refl: "svc_out svc1 = svc_out svc \<Longrightarrow> sends_to_devices svc svc1"
  by (simp add: sends_to_devices_def to_devices_def)

lemma sends_register_session: "svc_out svc1 = svc_out svc \<Longrightarrow>
    sends_to_devices svc (snd (register_session env d req ds svc1))"
  by (simp add: register_session_def Let_def case_prod_unfold sends_to_devices_send)

lemma device_event_out: "sends_to_devices svc (snd (snd (device_event_step env ev ds svc)))"
  by (cases ev)
    (simp_all add: device_turn_defs sends_to_devices_send sends_to_devices_refl sends_register_session
      split: option.split device_payload.split sum.split)

text \<open>
  The shared state after a turn: at most the time of last contact has changed, or a session was
  registered under a new connection id, or the waiters of one request got the device's data.
\<close>

definition registers :: "string \<Rightarrow> metadata \<Rightarrow> chan \<Rightarrow> relay_state \<Rightarrow> relay_state" where
  "registers d md ch st =
     insert_device_session
       \<lparr>ds_device_id = d, ds_connection_id = connection_id_of (connection_id_counter st),
        ds_metadata = md, ds_outbound_tx = ch\<rparr>
       (st\<lparr>connection_id_counter := connection_id_counter st + 1\<rparr>)"

definition device_answer :: "string \<Rightarrow> data_response \<Rightarrow> device_response" where
  "device_answer d r = device_response_from_device_data d (dresp_sequence_number r)
     (dresp_encrypted_payload r) (dresp_error r)"

lemma device_touch_state:
  obtains seen where "svc_state (device_touch env msg ds svc) = (svc_state svc)\<lparr>device_last_seen := seen\<rparr>"
proof -
  have "\<exists>seen. svc_state (device_touch env msg ds svc) = (svc_state svc)\<lparr>device_last_seen := seen\<rparr>"
  proof (cases "svc_state (device_touch env msg ds svc) = svc_state svc")
    case True
    then show ?thesis by (intro exI [of _ "device_last_seen (svc_state svc)"]) simp
  next
    case False
    then show ?thesis
      by (auto simp: device_touch_def touch_device_def split: option.splits if_splits)
  qed
  then show ?thesis using that by blast
qed

lemma register_session_state:
  "svc_state (snd (register_session env d req ds svc)) =
     registers d (rr_metadata req) (dst_out_tx ds) (svc_state svc)"
  by (simp add: register_session_def Let_def case_prod_unfold next_connection_id_def registers_def)

lemma device_event_state:
  obtains (quiet) seen where
      "svc_state (snd (snd (device_event_step env ev ds svc))) = (svc_state svc)\<lparr>device_last_seen := seen\<rparr>"
  | (register) seen d md where "fst (device_event_step env ev ds svc) = LContinue"
      "svc_state (snd (snd (device_event_step env ev ds svc))) =
         registers d md (dst_out_tx ds) ((svc_state svc)\<lparr>device_last_seen := seen\<rparr>)"
  | (data) seen msg r where "ev = DeviceMsg msg" "dmsg_payload msg = Some (Data r)"
      "dst_current_device_id ds = Some (dmsg_device_id msg)"
      "fst (device_event_step env ev ds svc) = LContinue"
      "svc_state (snd (snd (device_event_step env ev ds svc))) =
         take_and_complete (dmsg_device_id msg) (dresp_sequence_number r)
           (device_answer (dmsg_device_id msg) r) ((svc_state svc)\<lparr>device_last_seen := seen\<rparr>)"
proof (cases ev)
  case (DeviceMsg msg)
  obtain seen where seen:
    "svc_state (device_touch env msg ds svc) = (svc_state svc)\<lparr>device_last_seen := seen\<rparr>"
    by (rule device_touch_state)
  let ?svc1 = "snd (device_identity_guard env msg ds (device_touch env msg ds svc))"
  show ?thesis
  proof (cases "fst (device_identity_guard env msg ds (device_touch env msg ds svc))")
    case False
    then have "device_event_step env ev ds svc = (LBreak ''error'', ds, ?svc1)"
      by (simp add: DeviceMsg device_message_step_def Let_def case_prod_unfold)
    then show ?thesis by (intro quiet [of seen]) (simp add: seen)
  next
    case True
    show ?thesis
    proof (cases "\<exists>r. dmsg_payload msg = Some (Data r)")
      case True
      then obtain r where r: "dmsg_payload msg = Some (Data r)" by blast
      with \<open>fst _\<close> have d: "dst_current_device_id ds = Some (dmsg_device_id msg)"
        by (simp add: device_identity_guard_def is_register_def split: option.splits if_splits)
      show ?thesis
        by (rule data [OF DeviceMsg r d, of seen])
          (use \<open>fst _\<close> in \<open>simp_all add: DeviceMsg device_turn_defs r d seen device_answer_def\<close>)
    next
      case False
      show ?thesis
      proof (cases "\<exists>d md. fst (device_event_step env ev ds svc) = LContinue
          \<and> svc_state (snd (snd (device_event_step env ev ds svc))) =
          registers d md (dst_out_tx ds) ((svc_state svc)\<lparr>device_last_seen := seen\<rparr>)")
        case True
        then show ?thesis using register by blast
      next
        case none: False
        show ?thesis
          using False none \<open>fst _\<close>
          by (intro quiet [of seen])
            (auto simp: DeviceMsg device_turn_defs seen register_session_state
              split: option.splits device_payload.splits sum.splits if_splits)
      qed
    qed
  qed
qed (auto intro: quiet [of "device_last_seen (svc_state svc)"])

text \<open>What the end of a stream leaves alone, and what it sends.\<close>

lemma close_session_frame [simp]:
  "svc_timers (close_session env d reason ds svc) = svc_timers svc"
  "svc_cache (close_session env d reason ds svc) = svc_cache svc"
  "svc_out (close_session env d reason ds svc) = svc_out svc"
  by (simp_all add: close_session_def Let_def split: option.split)

lemma notify_controllers_more [simp]:
  "svc_timers (notify_controllers env did ms svc) = svc_timers svc"
  "svc_cache (notify_controllers env did ms svc) = svc_cache svc"
  unfolding notify_controllers_def by (induction ms arbitrary: svc) auto

lemma notify_controllers_out:
  "svc_out (notify_controllers env did ms svc) = svc_out svc @
     map (\<lambda>m. ToController (sm_controller_tx m) (error_resp did 0 DEVICE_OFFLINE))
       (filter (\<lambda>m. sm_active_requests m = 0 \<and> \<not> env_closed env (sm_controller_tx m)) ms)"
  unfolding notify_controllers_def by (induction ms arbitrary: svc) (auto simp: out_sends)

lemma cleanup_frame [simp]:
  "svc_timers (device_stream_cleanup env reason ds svc) = svc_timers svc"
  "svc_cache (device_stream_cleanup env reason ds svc) = svc_cache svc"
  by (simp_all add: device_stream_cleanup_def Let_def case_prod_unfold split: option.split)

lemma cleanup_out:
  "svc_out (device_stream_cleanup env reason ds svc) = svc_out svc @
     (case dst_current_device_id ds of
        None \<Rightarrow> []
      | Some did \<Rightarrow> map (\<lambda>m. ToController (sm_controller_tx m) (error_resp did 0 DEVICE_OFFLINE))
          (filter (\<lambda>m. sm_active_requests m = 0 \<and> \<not> env_closed env (sm_controller_tx m))
            (fst (remove_all_for_device did (svc_stream_router svc)))))"
  by (simp add: device_stream_cleanup_def Let_def case_prod_unfold notify_controllers_out split: option.split)

end
