(* ===== verification/Controller_Stream.thy ===== *)
theory Controller_Stream
  imports Relay_Core
begin

text \<open>
  \<open>run_connect_to_device_stream\<close> of \<^verbatim>\<open>crates/relay/src/grpc_service.rs\<close>: the loop that serves one
  controller stream. A turn of the loop runs from the receipt of a message either to its end or
  to the point where it waits for the device's answer (\<open>rx.await\<close>); the rest of the turn is a
  second step. What the task keeps in local variables is a record.
\<close>

section \<open>Local state and events\<close>

record pending_request =
  pr_msg :: controller_message
  pr_rx :: oneshot
  pr_is_new_forwarder :: bool
  pr_request_started_at :: instant

record controller_stream =
  cst_stream_id :: "string option"
  cst_stream_binding :: "(string \<times> string \<times> string) option"
  cst_controller_connected :: bool
  cst_controller_stream_started_at :: instant
  cst_out_tx :: chan
  cst_waiting :: "pending_request option"

definition controller_stream_new :: "instant \<Rightarrow> chan \<Rightarrow> controller_stream" where
  "controller_stream_new now out_tx =
     \<lparr>cst_stream_id = None, cst_stream_binding = None, cst_controller_connected = False,
      cst_controller_stream_started_at = now, cst_out_tx = out_tx, cst_waiting = None\<rparr>"

type_synonym 'c controller_result = "bool \<times> controller_stream \<times> 'c relay_service"

section \<open>Opening the stream\<close>

definition reply_error ::
  "'c step_env \<Rightarrow> controller_message \<Rightarrow> error_code \<Rightarrow> controller_stream \<Rightarrow> 'c relay_service \<Rightarrow> 'c relay_service" where
  "reply_error env msg err cs svc =
     send_error_response env (cst_out_tx cs) (cmsg_target_device_id msg) (cmsg_sequence_number msg) err svc"

definition ctl_authenticate ::
  "'c step_env \<Rightarrow> controller_message \<Rightarrow> controller_stream \<Rightarrow> 'c relay_service
     \<Rightarrow> controller_principal option \<times> controller_stream \<times> 'c relay_service" where
  "ctl_authenticate env msg cs svc =
     (case authenticate_controller (env_decode env) (svc_auth_service svc)
             (cmsg_controller_id msg) (cmsg_token msg) of
        Inr p \<Rightarrow>
          (let svc1 = on_metrics record_auth_success svc;
               svc2 = on_audit (\<lambda>lg.
                 let lg1 = audit_auth_success (env_audit_io env) ''controller'' (cmsg_controller_id msg) [] lg
                 in if \<not> cst_controller_connected cs
                    then audit_controller_connect (env_audit_io env) (cmsg_controller_id msg) [] None lg1
                    else lg1) svc1;
               svc3 = (if \<not> cst_controller_connected cs
                       then on_state increment_controller_connections svc2 else svc2)
           in (Some p, cs\<lparr>cst_controller_connected := True\<rparr>, svc3))
      | Inl _ \<Rightarrow>
          (let svc1 = on_metrics record_auth_failure svc;
               svc2 = on_audit (audit_auth_failure (env_audit_io env) ''controller''
                        (cmsg_controller_id msg) ''invalid_controller_token'' []
                        (Some (token_prefix (cmsg_token msg)))) svc1
           in (None, cs, reply_error env msg UNAUTHORIZED cs svc2)))"

definition ctl_authorize ::
  "'c step_env \<Rightarrow> controller_message \<Rightarrow> controller_principal \<Rightarrow> controller_stream \<Rightarrow> 'c relay_service
     \<Rightarrow> bool \<times> 'c relay_service" where
  "ctl_authorize env msg controller cs svc =
     (case get_device_principal_by_id (svc_auth_service svc) (cmsg_target_device_id msg) of
        Inl _ \<Rightarrow> (False, reply_error env msg DEVICE_NOT_FOUND cs svc)
      | Inr device \<Rightarrow>
          (let verdict = authorize_controller_to_device (svc_rbac svc) controller device (cmsg_method_name msg)
           in if verdict = Inl DeviceProjectForbidden \<or> verdict = Inl MethodNotAllowed then
                (let svc1 = on_metrics record_authorization_denied svc;
                     svc2 = on_audit (audit_authorization_denied (env_audit_io env)
                              (cmsg_controller_id msg) (cmsg_target_device_id msg)
                              (cmsg_method_name msg) ''rbac_or_method_denied'' []) svc1;
                     svc3 = on_relay_metrics
                              (requests_total_inc (cmsg_method_name msg) ''unauthorized'') svc2
                 in (False, reply_error env msg UNAUTHORIZED cs svc3))
              else (True, svc)))"

definition ctl_rate_limit ::
  "'c step_env \<Rightarrow> controller_message \<Rightarrow> controller_stream \<Rightarrow> 'c relay_service \<Rightarrow> bool \<times> 'c relay_service" where
  "ctl_rate_limit env msg cs svc =
     (let (allowed, rl) = allow (env_now env) (cmsg_target_device_id msg) (cmsg_controller_id msg)
            (svc_rate_limiter svc);
          svc1 = svc\<lparr>svc_rate_limiter := rl\<rparr>
      in if allowed then (True, svc1)
         else
           let svc2 = on_metrics record_rate_limit svc1;
               svc3 = on_audit (audit_rate_limit (env_audit_io env) ''controller''
                        (cmsg_controller_id msg) ''request_rate'' []) svc2;
               svc4 = on_relay_metrics (requests_total_inc (cmsg_method_name msg) ''rate_limited'') svc3
           in (False, reply_error env msg RATE_LIMITED cs svc4))"

definition request_json :: "controller_message \<Rightarrow> json" where
  "request_json msg =
     JObject [(''controller_id'', JString (cmsg_controller_id msg)),
       (''device_id'', JString (cmsg_target_device_id msg)),
       (''method_name'', JString (cmsg_method_name msg))]"

definition ctl_create_mapping ::
  "'c step_env \<Rightarrow> controller_message \<Rightarrow> controller_stream \<Rightarrow> 'c relay_service \<Rightarrow> 'c controller_result" where
  "ctl_create_mapping env msg cs svc =
     (let (res, router1) = create_mapping (env_now env) (cmsg_target_device_id msg)
            (cmsg_controller_id msg) (cmsg_method_name msg) (cst_out_tx cs) (svc_stream_router svc);
          svc1 = svc\<lparr>svc_stream_router := router1\<rparr>
      in case res of
           Inr sid \<Rightarrow>
             (let svc2 = on_audit (audit_stream_created (env_audit_io env) sid
                           (cmsg_target_device_id msg) (cmsg_controller_id msg)
                           (cmsg_method_name msg) []) svc1;
                  svc3 = on_relay_metrics (\<lambda>rm. rm\<lparr>rm_active_streams :=
                           int (total_active_streams (svc_stream_router svc2))\<rparr>) svc2
              in (True,
                  cs\<lparr>cst_stream_binding := Some (cmsg_target_device_id msg,
                        cmsg_controller_id msg, cmsg_method_name msg),
                     cst_stream_id := Some sid\<rparr>, svc3))
         | Inl e \<Rightarrow>
             (if sre_kind e = MaxStreamsExceeded then
                (False, cs, reply_error env msg RATE_LIMITED cs
                   (on_relay_metrics (requests_total_inc (cmsg_method_name msg) ''rate_limited'') svc1))
              else
                (let svc2 = on_audit (audit_error (env_audit_io env) ''stream mapping creation failed''
                              ''STREAM_MAPPING_CREATE'' (Some (request_json msg))) svc1;
                     svc3 = on_relay_metrics
                              (requests_total_inc (cmsg_method_name msg) ''internal_error'') svc2
                 in (False, cs, reply_error env msg INTERNAL_ERROR cs svc3))))"

text \<open>Authentication, authorisation, rate limit and stream table, on the first message only.\<close>

definition ctl_open_stream ::
  "'c step_env \<Rightarrow> controller_message \<Rightarrow> controller_stream \<Rightarrow> 'c relay_service \<Rightarrow> 'c controller_result" where
  "ctl_open_stream env msg cs svc =
     (let (principal, cs1, svc1) = ctl_authenticate env msg cs svc
      in case principal of
           None \<Rightarrow> (False, cs1, svc1)
         | Some controller \<Rightarrow>
             (let (authorized, svc2) = ctl_authorize env msg controller cs1 svc1
              in if \<not> authorized then (False, cs1, svc2)
                 else
                   let (allowed, svc3) = ctl_rate_limit env msg cs1 svc2
                   in if \<not> allowed then (False, cs1, svc3)
                      else ctl_create_mapping env msg cs1 svc3))"

definition ctl_bind ::
  "'c step_env \<Rightarrow> controller_message \<Rightarrow> controller_stream \<Rightarrow> 'c relay_service \<Rightarrow> 'c controller_result" where
  "ctl_bind env msg cs svc =
     (if cst_stream_id cs = None then ctl_open_stream env msg cs svc
      else if cst_stream_binding cs \<noteq>
          Some (cmsg_target_device_id msg, cmsg_controller_id msg, cmsg_method_name msg)
      then (False, cs, reply_error env msg INTERNAL_ERROR cs svc)
      else (True, cs, svc))"

section \<open>Forwarding a request\<close>

definition with_stream ::
  "(string \<Rightarrow> stream_router \<Rightarrow> stream_router) \<Rightarrow> controller_stream \<Rightarrow> 'c relay_service \<Rightarrow> 'c relay_service" where
  "with_stream f cs svc =
     (case cst_stream_id cs of Some sid \<Rightarrow> on_router (f sid) svc | None \<Rightarrow> svc)"

definition ctl_cached ::
  "'c step_env \<Rightarrow> controller_message \<Rightarrow> device_response \<Rightarrow> controller_stream \<Rightarrow> 'c relay_service
     \<Rightarrow> 'c relay_service" where
  "ctl_cached env msg cached cs svc =
     send_controller env (cst_out_tx cs) cached
       (on_relay_metrics (requests_total_inc (cmsg_method_name msg) ''cached'')
         (with_stream (finish_request (env_now env)) cs svc))"

text \<open>The device has no session, or its stream is closed: the request in flight ends here.\<close>

definition ctl_abandon ::
  "'c step_env \<Rightarrow> controller_message \<Rightarrow> controller_stream \<Rightarrow> 'c relay_service \<Rightarrow> 'c relay_service" where
  "ctl_abandon env msg cs svc =
     with_stream (finish_request (env_now env)) cs
       (on_state (take_and_complete (cmsg_target_device_id msg) (cmsg_sequence_number msg)
          (error_resp (cmsg_target_device_id msg) (cmsg_sequence_number msg) DEVICE_OFFLINE)) svc)"

definition ctl_bandwidth_exceeded ::
  "'c step_env \<Rightarrow> controller_message \<Rightarrow> controller_stream \<Rightarrow> 'c relay_service \<Rightarrow> 'c relay_service" where
  "ctl_bandwidth_exceeded env msg cs svc =
     with_stream (finish_request (env_now env)) cs
       (reply_error env msg RATE_LIMITED cs
         (on_relay_metrics (requests_total_inc (cmsg_method_name msg) ''rate_limited'')
           (on_audit (audit_rate_limit (env_audit_io env) ''controller'' (cmsg_controller_id msg)
              ''bandwidth'' [])
             (on_metrics record_rate_limit svc))))"

definition forward_json :: "controller_message \<Rightarrow> json" where
  "forward_json msg =
     JObject [(''device_id'', JString (cmsg_target_device_id msg)),
       (''controller_id'', JString (cmsg_controller_id msg)),
       (''method_name'', JString (cmsg_method_name msg)),
       (''sequence_number'', JNumber (cmsg_sequence_number msg))]"

definition ctl_forward ::
  "'c step_env \<Rightarrow> controller_message \<Rightarrow> controller_stream \<Rightarrow> 'c relay_service \<Rightarrow> bool \<times> 'c relay_service" where
  "ctl_forward env msg cs svc =
     (let svc1 = spawn_timeout env (cmsg_target_device_id msg) (cmsg_sequence_number msg) svc
      in case get_device_session (cmsg_target_device_id msg) (svc_state svc1) of
           None \<Rightarrow> (False, ctl_abandon env msg cs svc1)
         | Some device_session \<Rightarrow>
             (let relay_req = relay_message_data_request (ds_connection_id device_session)
                    (cmsg_sequence_number msg) (cmsg_encrypted_payload msg);
                  (in_budget, bt) = record_and_check (env_now_ns env) (cmsg_target_device_id msg)
                    (cmsg_controller_id msg) (of_nat (length (cmsg_encrypted_payload msg)))
                    (svc_bandwidth_tracker svc1);
                  svc2 = svc1\<lparr>svc_bandwidth_tracker := bt\<rparr>
              in if \<not> in_budget then (False, ctl_bandwidth_exceeded env msg cs svc2)
                 else
                   let (sent, svc3) = send_device env (ds_outbound_tx device_session) relay_req svc2
                   in if sent then (True, svc3)
                      else (False, ctl_abandon env msg cs
                              (on_audit (audit_error (env_audit_io env)
                                 ''failed to forward request to device'' ''DEVICE_FORWARD_FAILED''
                                 (Some (forward_json msg))) svc3))))"

definition ctl_request ::
  "'c step_env \<Rightarrow> controller_message \<Rightarrow> controller_stream \<Rightarrow> 'c relay_service
     \<Rightarrow> controller_stream \<times> 'c relay_service" where
  "ctl_request env msg cs svc =
     (let svc1 = with_stream (begin_request (env_now env)) cs svc;
          (hit, cache1) = cache_get (env_lru env) (env_now env) (cmsg_target_device_id msg)
            (cmsg_sequence_number msg) (svc_cache svc1);
          svc2 = svc1\<lparr>svc_cache := cache1\<rparr>
      in case hit of
           Some cached \<Rightarrow> (cs, ctl_cached env msg cached cs svc2)
         | None \<Rightarrow>
             (let ((rx, is_new_forwarder), st1) = ensure_inflight_waiter (cmsg_sequence_number msg)
                    (cmsg_target_device_id msg) (svc_state svc2);
                  svc3 = svc2\<lparr>svc_state := st1\<rparr>;
                  (waits, svc4) = (if is_new_forwarder then ctl_forward env msg cs svc3 else (True, svc3))
              in (if waits
                  then cs\<lparr>cst_waiting := Some \<lparr>pr_msg = msg, pr_rx = rx,
                         pr_is_new_forwarder = is_new_forwarder, pr_request_started_at = env_now env\<rparr>\<rparr>
                  else cs, svc4)))"

definition ctl_token_missing ::
  "'c step_env \<Rightarrow> controller_message \<Rightarrow> controller_stream \<Rightarrow> 'c relay_service \<Rightarrow> 'c relay_service" where
  "ctl_token_missing env msg cs svc =
     reply_error env msg UNAUTHORIZED cs
       (on_audit (audit_auth_failure (env_audit_io env) ''controller'' (cmsg_controller_id msg)
          ''token_missing'' [] None)
         (on_metrics record_auth_failure svc))"

definition controller_message_step ::
  "'c step_env \<Rightarrow> controller_message \<Rightarrow> controller_stream \<Rightarrow> 'c relay_service
     \<Rightarrow> controller_stream \<times> 'c relay_service" where
  "controller_message_step env msg cs svc =
     (case validate_controller_message (cmsg_controller_id msg) (cmsg_target_device_id msg)
             (cmsg_method_name msg) (cmsg_encrypted_payload msg) (cmsg_sequence_number msg) of
        Inl err \<Rightarrow> (cs, reply_error env msg (ve_code err) cs svc)
      | Inr _ \<Rightarrow>
          (if is_blank (cmsg_token msg) then (cs, ctl_token_missing env msg cs svc)
           else
             let (bound, cs1, svc1) = ctl_bind env msg cs svc
             in if \<not> bound then (cs1, svc1) else ctl_request env msg cs1 svc1))"

section \<open>The answer\<close>

definition controller_response_ok ::
  "'c step_env \<Rightarrow> pending_request \<Rightarrow> device_response \<Rightarrow> controller_stream \<Rightarrow> 'c relay_service
     \<Rightarrow> controller_stream \<times> 'c relay_service" where
  "controller_response_ok env p resp cs svc =
     (let msg = pr_msg p;
          svc1 = (if pr_is_new_forwarder p
                  then svc\<lparr>svc_cache := cache_insert (env_lru env) (env_now env)
                         (cmsg_target_device_id msg) (cmsg_sequence_number msg) resp (svc_cache svc)\<rparr>
                  else svc);
          svc2 = with_stream (finish_request (env_now env)) cs svc1;
          latency = as_secs_f64 (saturating_duration_since (env_now env) (pr_request_started_at p));
          svc3 = on_relay_metrics (\<lambda>rm.
                   bytes_transferred_inc_by ''rx'' (of_nat (length (dr_encrypted_payload resp)))
                     (bytes_transferred_inc_by ''tx'' (of_nat (length (cmsg_encrypted_payload msg)))
                       (requests_total_inc (cmsg_method_name msg) ''success''
                         (request_latency_observe (cmsg_method_name msg) ''success'' latency rm)))) svc2;
          svc4 = on_audit (audit_controller_request (env_audit_io env) (cmsg_controller_id msg)
                   (cmsg_target_device_id msg) [] (cmsg_method_name msg) (cmsg_sequence_number msg)
                   ''success'' None (Some (latency * 1000))
                   (Some (of_nat (length (dr_encrypted_payload resp)))) [] None None) svc3
      in (cs\<lparr>cst_waiting := None\<rparr>, send_controller env (cst_out_tx cs) resp svc4))"

definition controller_response_err ::
  "'c step_env \<Rightarrow> pending_request \<Rightarrow> controller_stream \<Rightarrow> 'c relay_service
     \<Rightarrow> controller_stream \<times> 'c relay_service" where
  "controller_response_err env p cs svc =
     (let msg = pr_msg p;
          svc1 = with_stream (finish_request (env_now env)) cs svc;
          latency = as_secs_f64 (saturating_duration_since (env_now env) (pr_request_started_at p));
          svc2 = on_relay_metrics (\<lambda>rm.
                   requests_total_inc (cmsg_method_name msg) ''internal_error''
                     (request_latency_observe (cmsg_method_name msg) ''internal_error'' latency rm)) svc1;
          svc3 = on_audit (\<lambda>lg. audit_error (env_audit_io env)
                   ''controller request completion channel closed'' ''REQUEST_WAIT_FAILED''
                   (Some (JObject [(''controller_id'', JString (cmsg_controller_id msg)),
                      (''device_id'', JString (cmsg_target_device_id msg)),
                      (''method_name'', JString (cmsg_method_name msg)),
                      (''sequence_number'', JNumber (cmsg_sequence_number msg))]))
                   (audit_controller_request (env_audit_io env) (cmsg_controller_id msg)
                      (cmsg_target_device_id msg) [] (cmsg_method_name msg) (cmsg_sequence_number msg)
                      ''failure'' (Some ''INTERNAL_ERROR'') (Some (latency * 1000)) None [] None None lg)) svc2
      in (cs\<lparr>cst_waiting := None\<rparr>, reply_error env msg INTERNAL_ERROR cs svc3))"

text \<open>
  \<open>rx.await\<close> is ready when the value has been sent, or with an error when the sender is gone: it is
  neither with a request in flight nor has it been used. Otherwise the task goes on waiting.
\<close>

definition oneshot_dropped :: "oneshot \<Rightarrow> relay_state \<Rightarrow> bool" where
  "oneshot_dropped rx st \<longleftrightarrow>
     map_of (oneshot_sent st) rx = None
     \<and> \<not> list_ex (\<lambda>e. List.member (if_waiters (snd e)) rx) (inflight_by_sequence st)"

definition controller_resume ::
  "'c step_env \<Rightarrow> controller_stream \<Rightarrow> 'c relay_service
     \<Rightarrow> (controller_stream \<times> 'c relay_service) option" where
  "controller_resume env cs svc =
     (case cst_waiting cs of
        None \<Rightarrow> None
      | Some p \<Rightarrow>
          (case map_of (oneshot_sent (svc_state svc)) (pr_rx p) of
             Some resp \<Rightarrow> Some (controller_response_ok env p resp cs svc)
           | None \<Rightarrow>
               (if oneshot_dropped (pr_rx p) (svc_state svc)
                then Some (controller_response_err env p cs svc) else None)))"

section \<open>The end of the stream\<close>

definition controller_receive_error :: "'c step_env \<Rightarrow> 'c relay_service \<Rightarrow> 'c relay_service" where
  "controller_receive_error env svc =
     on_audit (audit_error (env_audit_io env) ''controller stream receive error'' ''STREAM_RECV'' None) svc"

definition controller_stream_finish ::
  "'c step_env \<Rightarrow> controller_stream \<Rightarrow> 'c relay_service \<Rightarrow> 'c relay_service" where
  "controller_stream_finish env cs svc =
     (let svc1 = (case cst_stream_id cs of
                    None \<Rightarrow> svc
                  | Some sid \<Rightarrow>
                      (let svc2 = (case cst_stream_binding cs of
                                     Some (dev_id, ctrl_id, _) \<Rightarrow>
                                       on_audit (audit_stream_closed (env_audit_io env) sid dev_id
                                         ctrl_id ''closed'' None) svc
                                   | None \<Rightarrow> svc);
                           svc3 = on_router (\<lambda>r. snd (remove_mapping sid r)) svc2
                       in on_relay_metrics (\<lambda>rm. rm\<lparr>rm_active_streams :=
                            int (total_active_streams (svc_stream_router svc3))\<rparr>) svc3))
      in if \<not> cst_controller_connected cs then svc1
         else
           let svc4 = on_state decrement_controller_connections svc1
           in case cst_stream_binding cs of
                None \<Rightarrow> svc4
              | Some (_, controller_id, method_name) \<Rightarrow>
                  on_relay_metrics (request_latency_observe method_name ''stream_lifetime''
                      (as_secs_f64 (saturating_duration_since (env_now env)
                         (cst_controller_stream_started_at cs))))
                    (on_audit (audit_controller_disconnect (env_audit_io env) controller_id) svc4))"

text \<open>The timeout task of a request, when its time has come.\<close>

definition fire_timer :: "timer \<Rightarrow> 'c relay_service \<Rightarrow> 'c relay_service" where
  "fire_timer t svc =
     on_state (take_and_complete (tm_device_id t) (tm_seq t)
       (error_resp (tm_device_id t) (tm_seq t) DEVICE_OFFLINE)) svc"

section \<open>Facts\<close>

lemma reply_error_frame [simp]:
  "svc_state (reply_error env msg e cs svc) = svc_state svc"
  "svc_stream_router (reply_error env msg e cs svc) = svc_stream_router svc"
  "svc_timers (reply_error env msg e cs svc) = svc_timers svc"
  "svc_cache (reply_error env msg e cs svc) = svc_cache svc"
  "svc_auth_service (reply_error env msg e cs svc) = svc_auth_service svc"
  by (simp_all add: reply_error_def)

lemma out_reply_error:
  "svc_out (reply_error env msg e cs svc) = svc_out svc @
     (if env_closed env (cst_out_tx cs) then []
      else [ToController (cst_out_tx cs)
              (error_resp (cmsg_target_device_id msg) (cmsg_sequence_number msg) e)])"
  by (simp add: reply_error_def out_sends)

lemma with_stream_frame [simp]:
  "svc_state (with_stream f cs svc) = svc_state svc"
  "svc_timers (with_stream f cs svc) = svc_timers svc"
  "svc_cache (with_stream f cs svc) = svc_cache svc"
  "svc_out (with_stream f cs svc) = svc_out svc"
  "svc_auth_service (with_stream f cs svc) = svc_auth_service svc"
  by (simp_all add: with_stream_def split: option.split)

text \<open>Opening the stream: what it does to the local and the shared state.\<close>

lemma ctl_authorize_frame [simp]:
  "svc_state (snd (ctl_authorize env msg p cs svc)) = svc_state svc"
  "svc_stream_router (snd (ctl_authorize env msg p cs svc)) = svc_stream_router svc"
  "svc_timers (snd (ctl_authorize env msg p cs svc)) = svc_timers svc"
  "svc_cache (snd (ctl_authorize env msg p cs svc)) = svc_cache svc"
  by (simp_all add: ctl_authorize_def Let_def split: sum.split)

lemma ctl_rate_limit_frame [simp]:
  "svc_state (snd (ctl_rate_limit env msg cs svc)) = svc_state svc"
  "svc_stream_router (snd (ctl_rate_limit env msg cs svc)) = svc_stream_router svc"
  "svc_timers (snd (ctl_rate_limit env msg cs svc)) = svc_timers svc"
  "svc_cache (snd (ctl_rate_limit env msg cs svc)) = svc_cache svc"
  by (simp_all add: ctl_rate_limit_def Let_def case_prod_unfold)

lemma ctl_create_mapping_frame [simp]:
  "svc_state (snd (snd (ctl_create_mapping env msg cs svc))) = svc_state svc"
  "svc_timers (snd (snd (ctl_create_mapping env msg cs svc))) = svc_timers svc"
  "svc_cache (snd (snd (ctl_create_mapping env msg cs svc))) = svc_cache svc"
  "svc_stream_router (snd (snd (ctl_create_mapping env msg cs svc))) =
     snd (create_mapping (env_now env) (cmsg_target_device_id msg) (cmsg_controller_id msg)
        (cmsg_method_name msg) (cst_out_tx cs) (svc_stream_router svc))"
  "cst_waiting (fst (snd (ctl_create_mapping env msg cs svc))) = cst_waiting cs"
  "cst_out_tx (fst (snd (ctl_create_mapping env msg cs svc))) = cst_out_tx cs"
  "cst_controller_connected (fst (snd (ctl_create_mapping env msg cs svc))) = cst_controller_connected cs"
  by (simp_all add: ctl_create_mapping_def Let_def case_prod_unfold split: sum.split)

lemma ctl_authenticate_frame [simp]:
  "svc_stream_router (snd (snd (ctl_authenticate env msg cs svc))) = svc_stream_router svc"
  "svc_timers (snd (snd (ctl_authenticate env msg cs svc))) = svc_timers svc"
  "svc_cache (snd (snd (ctl_authenticate env msg cs svc))) = svc_cache svc"
  "cst_waiting (fst (snd (ctl_authenticate env msg cs svc))) = cst_waiting cs"
  "cst_out_tx (fst (snd (ctl_authenticate env msg cs svc))) = cst_out_tx cs"
  by (simp_all add: ctl_authenticate_def Let_def split: sum.split)

lemma ctl_authenticate_state:
  "svc_state (snd (snd (ctl_authenticate env msg cs svc))) =
     (if cst_controller_connected (fst (snd (ctl_authenticate env msg cs svc))) \<and> \<not> cst_controller_connected cs
      then increment_controller_connections (svc_state svc) else svc_state svc)"
  "cst_controller_connected cs \<Longrightarrow>
     cst_controller_connected (fst (snd (ctl_authenticate env msg cs svc)))"
  by (simp_all add: ctl_authenticate_def Let_def split: sum.split)

lemma ctl_open_stream_facts:
  "cst_waiting (fst (snd (ctl_open_stream env msg cs svc))) = cst_waiting cs"
  "cst_out_tx (fst (snd (ctl_open_stream env msg cs svc))) = cst_out_tx cs"
  "cst_controller_connected cs \<Longrightarrow> cst_controller_connected (fst (snd (ctl_open_stream env msg cs svc)))"
  "svc_state (snd (snd (ctl_open_stream env msg cs svc))) =
     (if cst_controller_connected (fst (snd (ctl_open_stream env msg cs svc))) \<and> \<not> cst_controller_connected cs
      then increment_controller_connections (svc_state svc) else svc_state svc)"
  "svc_timers (snd (snd (ctl_open_stream env msg cs svc))) = svc_timers svc"
  "svc_cache (snd (snd (ctl_open_stream env msg cs svc))) = svc_cache svc"
  "svc_stream_router (snd (snd (ctl_open_stream env msg cs svc))) = svc_stream_router svc \<or>
   svc_stream_router (snd (snd (ctl_open_stream env msg cs svc))) =
     snd (create_mapping (env_now env) (cmsg_target_device_id msg) (cmsg_controller_id msg)
        (cmsg_method_name msg) (cst_out_tx cs) (svc_stream_router svc))"
  by (simp_all add: ctl_open_stream_def Let_def case_prod_unfold ctl_authenticate_state split: option.split)

lemma ctl_bind_facts:
  "cst_waiting (fst (snd (ctl_bind env msg cs svc))) = cst_waiting cs"
  "cst_out_tx (fst (snd (ctl_bind env msg cs svc))) = cst_out_tx cs"
  "cst_controller_connected cs \<Longrightarrow> cst_controller_connected (fst (snd (ctl_bind env msg cs svc)))"
  "svc_state (snd (snd (ctl_bind env msg cs svc))) =
     (if cst_controller_connected (fst (snd (ctl_bind env msg cs svc))) \<and> \<not> cst_controller_connected cs
      then increment_controller_connections (svc_state svc) else svc_state svc)"
  "svc_timers (snd (snd (ctl_bind env msg cs svc))) = svc_timers svc"
  "svc_cache (snd (snd (ctl_bind env msg cs svc))) = svc_cache svc"
  "svc_stream_router (snd (snd (ctl_bind env msg cs svc))) = svc_stream_router svc \<or>
   svc_stream_router (snd (snd (ctl_bind env msg cs svc))) =
     snd (create_mapping (env_now env) (cmsg_target_device_id msg) (cmsg_controller_id msg)
        (cmsg_method_name msg) (cst_out_tx cs) (svc_stream_router svc))"
  using ctl_open_stream_facts(7) [of env msg cs svc]
  by (auto simp: ctl_bind_def ctl_open_stream_facts(1-6))

text \<open>Forwarding.\<close>

lemma ctl_abandon_frame [simp]:
  "svc_state (ctl_abandon env msg cs svc) =
     take_and_complete (cmsg_target_device_id msg) (cmsg_sequence_number msg)
       (error_resp (cmsg_target_device_id msg) (cmsg_sequence_number msg) DEVICE_OFFLINE) (svc_state svc)"
  "svc_timers (ctl_abandon env msg cs svc) = svc_timers svc"
  "svc_cache (ctl_abandon env msg cs svc) = svc_cache svc"
  "svc_out (ctl_abandon env msg cs svc) = svc_out svc"
  by (simp_all add: ctl_abandon_def)

lemma ctl_bandwidth_frame [simp]:
  "svc_state (ctl_bandwidth_exceeded env msg cs svc) = svc_state svc"
  "svc_timers (ctl_bandwidth_exceeded env msg cs svc) = svc_timers svc"
  "svc_cache (ctl_bandwidth_exceeded env msg cs svc) = svc_cache svc"
  by (simp_all add: ctl_bandwidth_exceeded_def)

lemma ctl_cached_frame [simp]:
  "svc_state (ctl_cached env msg r cs svc) = svc_state svc"
  "svc_timers (ctl_cached env msg r cs svc) = svc_timers svc"
  "svc_cache (ctl_cached env msg r cs svc) = svc_cache svc"
  by (simp_all add: ctl_cached_def)

lemma ctl_forward_facts:
  "svc_timers (snd (ctl_forward env msg cs svc)) = svc_timers (spawn_timeout env
     (cmsg_target_device_id msg) (cmsg_sequence_number msg) svc)"
  "svc_cache (snd (ctl_forward env msg cs svc)) = svc_cache svc"
  "svc_state (snd (ctl_forward env msg cs svc)) = svc_state svc
   \<or> \<not> fst (ctl_forward env msg cs svc)
     \<and> svc_state (snd (ctl_forward env msg cs svc)) =
        take_and_complete (cmsg_target_device_id msg) (cmsg_sequence_number msg)
          (error_resp (cmsg_target_device_id msg) (cmsg_sequence_number msg) DEVICE_OFFLINE) (svc_state svc)"
  by (simp_all add: ctl_forward_def Let_def case_prod_unfold split: option.split)

text \<open>
  The outcomes of a request on an open stream: answered from the cache, joined to a request in
  flight, or forwarded; forwarding fails when the device has no session or a closed stream and
  when the transfer is over the bandwidth limit.
\<close>

definition cache_lookup :: "'c step_env \<Rightarrow> controller_message \<Rightarrow> 'c relay_service \<Rightarrow> device_response option" where
  "cache_lookup env msg svc =
     fst (cache_get (env_lru env) (env_now env) (cmsg_target_device_id msg) (cmsg_sequence_number msg)
            (svc_cache svc))"

definition joins :: "controller_message \<Rightarrow> 'c relay_service \<Rightarrow> bool" where
  "joins msg svc \<longleftrightarrow>
     map_of (inflight_by_sequence (svc_state svc)) (cmsg_target_device_id msg, cmsg_sequence_number msg)
       \<noteq> None"

definition in_bandwidth :: "'c step_env \<Rightarrow> controller_message \<Rightarrow> 'c relay_service \<Rightarrow> bool" where
  "in_bandwidth env msg svc \<longleftrightarrow>
     fst (record_and_check (env_now_ns env) (cmsg_target_device_id msg) (cmsg_controller_id msg)
            (of_nat (length (cmsg_encrypted_payload msg))) (svc_bandwidth_tracker svc))"

definition device_session_of :: "controller_message \<Rightarrow> 'c relay_service \<Rightarrow> device_session option" where
  "device_session_of msg svc = get_device_session (cmsg_target_device_id msg) (svc_state svc)"

definition registered :: "controller_message \<Rightarrow> relay_state \<Rightarrow> relay_state" where
  "registered msg st =
     snd (ensure_inflight_waiter (cmsg_sequence_number msg) (cmsg_target_device_id msg) st)"

definition ended_offline :: "controller_message \<Rightarrow> relay_state \<Rightarrow> relay_state" where
  "ended_offline msg st =
     take_and_complete (cmsg_target_device_id msg) (cmsg_sequence_number msg)
       (error_resp (cmsg_target_device_id msg) (cmsg_sequence_number msg) DEVICE_OFFLINE) st"

definition waits_for :: "'c step_env \<Rightarrow> controller_message \<Rightarrow> bool \<Rightarrow> 'c relay_service \<Rightarrow> pending_request" where
  "waits_for env msg is_new svc =
     \<lparr>pr_msg = msg, pr_rx = next_oneshot (svc_state svc), pr_is_new_forwarder = is_new,
      pr_request_started_at = env_now env\<rparr>"

definition timeout_of :: "'c step_env \<Rightarrow> controller_message \<Rightarrow> 'c relay_service \<Rightarrow> timer" where
  "timeout_of env msg svc =
     \<lparr>tm_due = env_now env + svc_inflight_timeout svc, tm_device_id = cmsg_target_device_id msg,
      tm_seq = cmsg_sequence_number msg\<rparr>"

lemmas request_outcome_defs = cache_lookup_def joins_def in_bandwidth_def device_session_of_def
  registered_def ended_offline_def waits_for_def timeout_of_def

lemma with_stream_more [simp]:
  "svc_bandwidth_tracker (with_stream f cs svc) = svc_bandwidth_tracker svc"
  "svc_inflight_timeout (with_stream f cs svc) = svc_inflight_timeout svc"
  by (simp_all add: with_stream_def on_router_def split: option.split)

lemma ensure_frame [simp]:
  "sessions_by_device_id (snd (ensure_inflight_waiter s d st)) = sessions_by_device_id st"
  "fst (fst (ensure_inflight_waiter s d st)) = next_oneshot st"
  "snd (fst (ensure_inflight_waiter s d st)) \<longleftrightarrow> map_of (inflight_by_sequence st) (d, s) = None"
  by (simp_all add: ensure_inflight_eq)

lemma request_hit:
  assumes "cache_lookup env msg svc = Some r"
  shows "fst (ctl_request env msg cs svc) = cs"
    and "svc_state (snd (ctl_request env msg cs svc)) = svc_state svc"
    and "svc_timers (snd (ctl_request env msg cs svc)) = svc_timers svc"
    and "svc_out (snd (ctl_request env msg cs svc)) =
      svc_out svc @ (if env_closed env (cst_out_tx cs) then [] else [ToController (cst_out_tx cs) r])"
  using assms
  by (simp_all add: ctl_request_def Let_def case_prod_unfold cache_lookup_def ctl_cached_def out_sends)

lemma request_join:
  assumes "cache_lookup env msg svc = None" "joins msg svc"
  shows "fst (ctl_request env msg cs svc) = cs\<lparr>cst_waiting := Some (waits_for env msg False svc)\<rparr>"
    and "svc_state (snd (ctl_request env msg cs svc)) = registered msg (svc_state svc)"
    and "svc_timers (snd (ctl_request env msg cs svc)) = svc_timers svc"
    and "svc_out (snd (ctl_request env msg cs svc)) = svc_out svc"
  using assms
  by (auto simp: ctl_request_def Let_def case_prod_unfold request_outcome_defs)

lemma request_offline:
  assumes "cache_lookup env msg svc = None" "\<not> joins msg svc"
    and "device_session_of msg svc = None
      \<or> (\<exists>s. device_session_of msg svc = Some s \<and> in_bandwidth env msg svc \<and> env_closed env (ds_outbound_tx s))"
  shows "fst (ctl_request env msg cs svc) = cs"
    and "svc_state (snd (ctl_request env msg cs svc)) = ended_offline msg (registered msg (svc_state svc))"
    and "svc_timers (snd (ctl_request env msg cs svc)) = svc_timers svc @ [timeout_of env msg svc]"
    and "svc_out (snd (ctl_request env msg cs svc)) = svc_out svc"
  using assms
  by (auto simp: ctl_request_def Let_def case_prod_unfold request_outcome_defs ctl_forward_def
      get_device_session_def out_sends spawn_timeout_def)

lemma request_limited:
  assumes "cache_lookup env msg svc = None" "\<not> joins msg svc"
    and "device_session_of msg svc = Some s" "\<not> in_bandwidth env msg svc"
  shows "fst (ctl_request env msg cs svc) = cs"
    and "svc_state (snd (ctl_request env msg cs svc)) = registered msg (svc_state svc)"
    and "svc_timers (snd (ctl_request env msg cs svc)) = svc_timers svc @ [timeout_of env msg svc]"
    and "svc_out (snd (ctl_request env msg cs svc)) = svc_out svc @
      (if env_closed env (cst_out_tx cs) then []
       else [ToController (cst_out_tx cs)
               (error_resp (cmsg_target_device_id msg) (cmsg_sequence_number msg) RATE_LIMITED)])"
  using assms
  by (auto simp: ctl_request_def Let_def case_prod_unfold request_outcome_defs ctl_forward_def
      get_device_session_def ctl_bandwidth_exceeded_def out_reply_error spawn_timeout_def)

lemma request_sent:
  assumes "cache_lookup env msg svc = None" "\<not> joins msg svc"
    and "device_session_of msg svc = Some s" "in_bandwidth env msg svc" "\<not> env_closed env (ds_outbound_tx s)"
  shows "fst (ctl_request env msg cs svc) = cs\<lparr>cst_waiting := Some (waits_for env msg True svc)\<rparr>"
    and "svc_state (snd (ctl_request env msg cs svc)) = registered msg (svc_state svc)"
    and "svc_timers (snd (ctl_request env msg cs svc)) = svc_timers svc @ [timeout_of env msg svc]"
    and "svc_out (snd (ctl_request env msg cs svc)) = svc_out svc @
      [ToDevice (ds_outbound_tx s) (relay_message_data_request (ds_connection_id s)
         (cmsg_sequence_number msg) (cmsg_encrypted_payload msg))]"
  using assms
  by (auto simp: ctl_request_def Let_def case_prod_unfold request_outcome_defs ctl_forward_def
      get_device_session_def out_sends spawn_timeout_def)

text \<open>One of the five always applies.\<close>

lemma request_cases:
  obtains (hit) r where "cache_lookup env msg svc = Some r"
  | (join) "cache_lookup env msg svc = None" "joins msg svc"
  | (offline) "cache_lookup env msg svc = None" "\<not> joins msg svc"
      "device_session_of msg svc = None
       \<or> (\<exists>s. device_session_of msg svc = Some s \<and> in_bandwidth env msg svc \<and> env_closed env (ds_outbound_tx s))"
  | (limited) s where "cache_lookup env msg svc = None" "\<not> joins msg svc"
      "device_session_of msg svc = Some s" "\<not> in_bandwidth env msg svc"
  | (sent) s where "cache_lookup env msg svc = None" "\<not> joins msg svc"
      "device_session_of msg svc = Some s" "in_bandwidth env msg svc" "\<not> env_closed env (ds_outbound_tx s)"
  by (metis option.exhaust)

text \<open>What opening a stream sends, and what it means that it succeeded.\<close>

definition only_replies :: "chan \<Rightarrow> out_msg list \<Rightarrow> bool" where
  "only_replies ch outs \<longleftrightarrow> (\<forall>x \<in> set outs. \<exists>d s e. x = ToController ch (error_resp d s e))"

definition adds_replies :: "bool \<Rightarrow> chan \<Rightarrow> 'c relay_service \<Rightarrow> 'c relay_service \<Rightarrow> bool" where
  "adds_replies ok ch svc svc' \<longleftrightarrow>
     (\<exists>outs. svc_out svc' = svc_out svc @ outs \<and> only_replies ch outs \<and> (ok \<longrightarrow> outs = []))"

lemma adds_replies_refl [simp]: "svc_out svc' = svc_out svc \<Longrightarrow> adds_replies ok ch svc svc'"
  by (simp add: adds_replies_def only_replies_def)

lemma adds_replies_error [simp]:
  "svc_out svc1 = svc_out svc \<Longrightarrow> ch = cst_out_tx cs \<Longrightarrow> adds_replies False ch svc (reply_error env msg e cs svc1)"
  by (auto simp: adds_replies_def only_replies_def out_reply_error)

lemma ctl_authenticate_out:
  "adds_replies (fst (ctl_authenticate env msg cs svc) \<noteq> None) (cst_out_tx cs) svc
     (snd (snd (ctl_authenticate env msg cs svc)))"
  by (simp add: ctl_authenticate_def Let_def split: sum.split)

lemma ctl_authorize_out:
  "adds_replies (fst (ctl_authorize env msg p cs svc)) (cst_out_tx cs) svc (snd (ctl_authorize env msg p cs svc))"
  by (simp add: ctl_authorize_def Let_def split: sum.split)

lemma ctl_rate_limit_out:
  "adds_replies (fst (ctl_rate_limit env msg cs svc)) (cst_out_tx cs) svc (snd (ctl_rate_limit env msg cs svc))"
  by (simp add: ctl_rate_limit_def Let_def case_prod_unfold)

lemma ctl_create_mapping_out:
  "adds_replies (fst (ctl_create_mapping env msg cs svc)) (cst_out_tx cs) svc
     (snd (snd (ctl_create_mapping env msg cs svc)))"
  by (simp add: ctl_create_mapping_def Let_def case_prod_unfold split: sum.split)

lemma adds_replies_trans:
  "adds_replies True ch svc svc1 \<Longrightarrow> adds_replies ok ch svc1 svc2 \<Longrightarrow> adds_replies ok ch svc svc2"
  by (auto simp: adds_replies_def)

lemma ctl_open_stream_out:
  "adds_replies (fst (ctl_open_stream env msg cs svc)) (cst_out_tx cs) svc
     (snd (snd (ctl_open_stream env msg cs svc)))"
proof -
  obtain principal cs1 svc1 where a: "ctl_authenticate env msg cs svc = (principal, cs1, svc1)"
    by (cases "ctl_authenticate env msg cs svc")
  have out_tx: "cst_out_tx cs1 = cst_out_tx cs"
    using ctl_authenticate_frame(5) [of env msg cs svc] by (simp add: a)
  have 1: "adds_replies (principal \<noteq> None) (cst_out_tx cs) svc svc1"
    using ctl_authenticate_out [of env msg cs svc] by (simp add: a)
  show ?thesis
  proof (cases principal)
    case None
    with 1 show ?thesis by (simp add: ctl_open_stream_def a)
  next
    case (Some p)
    with 1 have 1: "adds_replies True (cst_out_tx cs) svc svc1" by simp
    note 2 = ctl_authorize_out [of env msg p cs1 svc1, unfolded out_tx]
    let ?s2 = "snd (ctl_authorize env msg p cs1 svc1)"
    note 3 = ctl_rate_limit_out [of env msg cs1 ?s2, unfolded out_tx]
    note 4 = ctl_create_mapping_out [of env msg cs1 "snd (ctl_rate_limit env msg cs1 ?s2)", unfolded out_tx]
    have step: "adds_replies (if ok then ok' else False) ch svc (if ok then b else a)"
      if "adds_replies ok ch svc a" "adds_replies ok' ch a b" for ok ok' ch and a b :: "'a relay_service"
      using that by (cases ok) (auto intro: adds_replies_trans)
    note 12 = adds_replies_trans [OF 1 2]
    show ?thesis
    proof (cases "fst (ctl_authorize env msg p cs1 svc1)")
      case False
      with 12 show ?thesis by (simp add: ctl_open_stream_def a Some case_prod_unfold Let_def)
    next
      case True
      with 12 have "adds_replies True (cst_out_tx cs) svc ?s2" by simp
      from step [OF adds_replies_trans [OF this 3] 4] True show ?thesis
        by (simp add: ctl_open_stream_def a Some case_prod_unfold Let_def split: if_splits)
    qed
  qed
qed

text \<open>The conditions under which a stream is opened for a message.\<close>

definition admitted :: "'c step_env \<Rightarrow> controller_message \<Rightarrow> 'c relay_service \<Rightarrow> bool" where
  "admitted env msg svc \<longleftrightarrow>
     (\<exists>p dp. authenticate_controller (env_decode env) (svc_auth_service svc)
               (cmsg_controller_id msg) (cmsg_token msg) = Inr p
        \<and> get_device_principal_by_id (svc_auth_service svc) (cmsg_target_device_id msg) = Inr dp
        \<and> authorize_controller_to_device (svc_rbac svc) p dp (cmsg_method_name msg) = Inr ()
        \<and> fst (allow (env_now env) (cmsg_target_device_id msg) (cmsg_controller_id msg)
                 (svc_rate_limiter svc)))"

lemma authorize_verdicts:
  "v \<noteq> Inl DeviceProjectForbidden \<Longrightarrow> v \<noteq> Inl MethodNotAllowed \<Longrightarrow>
     authorize_controller_to_device rb c d m = v \<Longrightarrow> v = Inr ()"
  by (auto simp: authorize_controller_to_device_def split: if_splits)

lemma effect_limits [simp]:
  "svc_rbac (on_metrics f svc) = svc_rbac svc" "svc_rbac (on_audit g svc) = svc_rbac svc"
  "svc_rbac (on_state h svc) = svc_rbac svc"
  "svc_rate_limiter (on_metrics f svc) = svc_rate_limiter svc"
  "svc_rate_limiter (on_audit g svc) = svc_rate_limiter svc"
  "svc_rate_limiter (on_state h svc) = svc_rate_limiter svc"
  by (simp_all add: effect_defs)

lemma ctl_open_stream_admitted:
  assumes "fst (ctl_open_stream env msg cs svc)"
  shows "admitted env msg svc"
proof -
  obtain p where p: "authenticate_controller (env_decode env) (svc_auth_service svc)
      (cmsg_controller_id msg) (cmsg_token msg) = Inr p"
    using assms by (auto simp: ctl_open_stream_def ctl_authenticate_def Let_def split: sum.splits)
  let ?svc1 = "snd (snd (ctl_authenticate env msg cs svc))"
  let ?cs1 = "fst (snd (ctl_authenticate env msg cs svc))"
  have same: "svc_auth_service ?svc1 = svc_auth_service svc" "svc_rbac ?svc1 = svc_rbac svc"
    "svc_rate_limiter ?svc1 = svc_rate_limiter svc" "fst (ctl_authenticate env msg cs svc) = Some p"
    by (simp_all add: ctl_authenticate_def p Let_def)
  have az: "fst (ctl_authorize env msg p ?cs1 ?svc1)"
    and rl: "fst (ctl_rate_limit env msg ?cs1 (snd (ctl_authorize env msg p ?cs1 ?svc1)))"
    using assms same(4) by (auto simp: ctl_open_stream_def case_prod_unfold Let_def split: if_splits)
  from az obtain dp where dp: "get_device_principal_by_id (svc_auth_service svc) (cmsg_target_device_id msg) = Inr dp"
    and ok: "authorize_controller_to_device (svc_rbac svc) p dp (cmsg_method_name msg) = Inr ()"
    and s2: "snd (ctl_authorize env msg p ?cs1 ?svc1) = ?svc1"
    by (auto simp: ctl_authorize_def Let_def same split: sum.splits if_splits intro: authorize_verdicts)
  from rl have "fst (allow (env_now env) (cmsg_target_device_id msg) (cmsg_controller_id msg) (svc_rate_limiter svc))"
    unfolding s2 by (auto simp: ctl_rate_limit_def Let_def case_prod_unfold same split: if_splits)
  with p dp ok show ?thesis by (auto simp: admitted_def)
qed

text \<open>A message is turned away before the request is looked at, or the request is served.\<close>

definition serves :: "'c step_env \<Rightarrow> controller_message \<Rightarrow> controller_stream \<Rightarrow> 'c relay_service \<Rightarrow> bool" where
  "serves env msg cs svc \<longleftrightarrow>
     well_formed_request (cmsg_controller_id msg) (cmsg_target_device_id msg) (cmsg_method_name msg)
       (cmsg_encrypted_payload msg) (cmsg_sequence_number msg)
     \<and> \<not> is_blank (cmsg_token msg) \<and> fst (ctl_bind env msg cs svc)"

lemma message_step_served:
  assumes "serves env msg cs svc"
  shows "controller_message_step env msg cs svc =
    ctl_request env msg (fst (snd (ctl_bind env msg cs svc))) (snd (snd (ctl_bind env msg cs svc)))"
proof -
  have "validate_controller_message (cmsg_controller_id msg) (cmsg_target_device_id msg)
      (cmsg_method_name msg) (cmsg_encrypted_payload msg) (cmsg_sequence_number msg) = Inr ()"
    using assms by (simp add: serves_def validate_ok_iff)
  with assms show ?thesis
    by (simp add: controller_message_step_def serves_def case_prod_unfold Let_def)
qed

lemma ctl_bind_out:
  "adds_replies (fst (ctl_bind env msg cs svc)) (cst_out_tx cs) svc (snd (snd (ctl_bind env msg cs svc)))"
  using ctl_open_stream_out [of env msg cs svc] by (simp add: ctl_bind_def)

lemma message_step_refused:
  assumes "\<not> serves env msg cs svc"
  shows "adds_replies False (cst_out_tx cs) svc (snd (controller_message_step env msg cs svc))"
    and "cst_waiting (fst (controller_message_step env msg cs svc)) = cst_waiting cs"
    and "svc_timers (snd (controller_message_step env msg cs svc)) = svc_timers svc"
    and "svc_cache (snd (controller_message_step env msg cs svc)) = svc_cache svc"
proof -
  have weak: "adds_replies ok ch a b \<Longrightarrow> adds_replies False ch a b" for ok ch and a b :: "'a relay_service"
    by (auto simp: adds_replies_def)
  have "validate_controller_message (cmsg_controller_id msg) (cmsg_target_device_id msg)
      (cmsg_method_name msg) (cmsg_encrypted_payload msg) (cmsg_sequence_number msg) = Inr u \<longleftrightarrow>
      well_formed_request (cmsg_controller_id msg) (cmsg_target_device_id msg) (cmsg_method_name msg)
       (cmsg_encrypted_payload msg) (cmsg_sequence_number msg)" for u
    by (rule validate_ok_iff)
  with assms ctl_bind_out [of env msg cs svc, THEN weak]
  show "adds_replies False (cst_out_tx cs) svc (snd (controller_message_step env msg cs svc))"
    "cst_waiting (fst (controller_message_step env msg cs svc)) = cst_waiting cs"
    "svc_timers (snd (controller_message_step env msg cs svc)) = svc_timers svc"
    "svc_cache (snd (controller_message_step env msg cs svc)) = svc_cache svc"
    by (auto simp: controller_message_step_def serves_def case_prod_unfold Let_def ctl_token_missing_def
        ctl_bind_facts(1,5,6) split: sum.split)
qed

text \<open>The rest of what a turn does: connection flag, stream table, cache.\<close>

lemma with_stream_router:
  "svc_stream_router (with_stream f cs svc) =
     (case cst_stream_id cs of None \<Rightarrow> svc_stream_router svc | Some sid \<Rightarrow> f sid (svc_stream_router svc))"
  by (simp add: with_stream_def split: option.split)

lemma message_step_refused_state:
  assumes "\<not> serves env msg cs svc"
  shows "svc_state (snd (controller_message_step env msg cs svc)) =
      (if cst_controller_connected (fst (controller_message_step env msg cs svc))
          \<and> \<not> cst_controller_connected cs
       then increment_controller_connections (svc_state svc) else svc_state svc)"
    and "cst_controller_connected cs \<Longrightarrow>
      cst_controller_connected (fst (controller_message_step env msg cs svc))"
    and "controller_message_step env msg cs svc = snd (ctl_bind env msg cs svc)
      \<or> fst (controller_message_step env msg cs svc) = cs
        \<and> svc_stream_router (snd (controller_message_step env msg cs svc)) = svc_stream_router svc"
proof -
  let ?v = "validate_controller_message (cmsg_controller_id msg) (cmsg_target_device_id msg)
      (cmsg_method_name msg) (cmsg_encrypted_payload msg) (cmsg_sequence_number msg)"
  consider e where "?v = Inl e" | u where "?v = Inr u" "is_blank (cmsg_token msg)"
    | u where "?v = Inr u" "\<not> is_blank (cmsg_token msg)" "\<not> fst (ctl_bind env msg cs svc)"
    using assms validate_ok_iff [of "cmsg_controller_id msg" "cmsg_target_device_id msg"
        "cmsg_method_name msg" "cmsg_encrypted_payload msg" "cmsg_sequence_number msg"]
    by (cases ?v) (auto simp: serves_def)
  then have eq: "controller_message_step env msg cs svc = snd (ctl_bind env msg cs svc)
      \<or> fst (controller_message_step env msg cs svc) = cs
        \<and> svc_stream_router (snd (controller_message_step env msg cs svc)) = svc_stream_router svc
        \<and> svc_state (snd (controller_message_step env msg cs svc)) = svc_state svc"
    by cases (simp_all add: controller_message_step_def case_prod_unfold Let_def ctl_token_missing_def)
  then show "svc_state (snd (controller_message_step env msg cs svc)) =
      (if cst_controller_connected (fst (controller_message_step env msg cs svc))
          \<and> \<not> cst_controller_connected cs
       then increment_controller_connections (svc_state svc) else svc_state svc)"
    using ctl_bind_facts(4) [of env msg cs svc] by (elim disjE conjE) simp_all
  from eq show "cst_controller_connected cs \<Longrightarrow>
      cst_controller_connected (fst (controller_message_step env msg cs svc))"
    using ctl_bind_facts(3) [of cs env msg svc] by (elim disjE conjE) simp_all
  from eq show "controller_message_step env msg cs svc = snd (ctl_bind env msg cs svc)
      \<or> fst (controller_message_step env msg cs svc) = cs
        \<and> svc_stream_router (snd (controller_message_step env msg cs svc)) = svc_stream_router svc"
    by blast
qed

lemma create_mapping_outcome:
  "(\<exists>e. fst (create_mapping now d c m tx r) = Inl e)
     \<and> sr_mappings (snd (create_mapping now d c m tx r)) = sr_mappings r
   \<or> fst (create_mapping now d c m tx r) = Inr (stream_id_of (sr_counter r))
     \<and> sr_mappings (snd (create_mapping now d c m tx r)) =
         AList.update (stream_id_of (sr_counter r)) (new_mapping now d c m tx (sr_counter r)) (sr_mappings r)"
  by (cases "device_full d r"; cases "controller_full c r")
    (simp_all add: create_device_full create_controller_full create_ok)

text \<open>Binding a message either leaves the stream and the table as they are or opens the stream.\<close>

definition binds :: "'c step_env \<Rightarrow> controller_message \<Rightarrow> controller_stream \<Rightarrow> controller_stream
    \<Rightarrow> stream_router \<Rightarrow> stream_router \<Rightarrow> bool" where
  "binds env msg cs cs' r r' \<longleftrightarrow>
     cst_stream_id cs = None \<and> cst_stream_id cs' = Some (stream_id_of (sr_counter r))
     \<and> cst_stream_binding cs' = Some (cmsg_target_device_id msg, cmsg_controller_id msg, cmsg_method_name msg)
     \<and> sr_counter r' = sr_counter r + 1
     \<and> sr_mappings r' = AList.update (stream_id_of (sr_counter r))
         (new_mapping (env_now env) (cmsg_target_device_id msg) (cmsg_controller_id msg)
            (cmsg_method_name msg) (cst_out_tx cs) (sr_counter r)) (sr_mappings r)"

definition keeps_streams :: "controller_stream \<Rightarrow> controller_stream \<Rightarrow> stream_router \<Rightarrow> stream_router \<Rightarrow> bool" where
  "keeps_streams cs cs' r r' \<longleftrightarrow>
     cst_stream_id cs' = cst_stream_id cs \<and> cst_stream_binding cs' = cst_stream_binding cs
     \<and> sr_mappings r' = sr_mappings r \<and> (sr_counter r' = sr_counter r \<or> sr_counter r' = sr_counter r + 1)"

lemma ctl_authenticate_streams [simp]:
  "cst_stream_id (fst (snd (ctl_authenticate env msg cs svc))) = cst_stream_id cs"
  "cst_stream_binding (fst (snd (ctl_authenticate env msg cs svc))) = cst_stream_binding cs"
  by (simp_all add: ctl_authenticate_def Let_def split: sum.split)

lemma ctl_create_mapping_streams:
  assumes "cst_stream_id cs = None"
  shows "(if fst (ctl_create_mapping env msg cs svc)
     then binds env msg cs (fst (snd (ctl_create_mapping env msg cs svc))) (svc_stream_router svc)
       (svc_stream_router (snd (snd (ctl_create_mapping env msg cs svc))))
     else keeps_streams cs (fst (snd (ctl_create_mapping env msg cs svc))) (svc_stream_router svc)
       (svc_stream_router (snd (snd (ctl_create_mapping env msg cs svc)))))"
proof -
  let ?cm = "create_mapping (env_now env) (cmsg_target_device_id msg) (cmsg_controller_id msg)
    (cmsg_method_name msg) (cst_out_tx cs) (svc_stream_router svc)"
  have counter: "sr_counter (snd ?cm) = sr_counter (svc_stream_router svc) + 1" by (rule create_counter)
  consider e where "fst ?cm = Inl e" "sr_mappings (snd ?cm) = sr_mappings (svc_stream_router svc)"
    | "fst ?cm = Inr (stream_id_of (sr_counter (svc_stream_router svc)))"
      "sr_mappings (snd ?cm) = AList.update (stream_id_of (sr_counter (svc_stream_router svc)))
         (new_mapping (env_now env) (cmsg_target_device_id msg) (cmsg_controller_id msg)
           (cmsg_method_name msg) (cst_out_tx cs) (sr_counter (svc_stream_router svc)))
         (sr_mappings (svc_stream_router svc))"
    using create_mapping_outcome by blast
  then show ?thesis
  proof cases
    case 1
    with counter show ?thesis
      by (cases "sre_kind e = MaxStreamsExceeded")
        (simp_all add: ctl_create_mapping_def Let_def case_prod_unfold keeps_streams_def)
  next
    case 2
    with counter assms show ?thesis
      by (simp add: ctl_create_mapping_def Let_def case_prod_unfold binds_def)
  qed
qed

lemma keeps_streams_refl: "keeps_streams cs cs r r"
  by (simp add: keeps_streams_def)

lemma ctl_bind_outcome:
  "(if fst (ctl_bind env msg cs svc) \<and> cst_stream_id cs = None
    then binds env msg cs (fst (snd (ctl_bind env msg cs svc))) (svc_stream_router svc)
       (svc_stream_router (snd (snd (ctl_bind env msg cs svc))))
    else keeps_streams cs (fst (snd (ctl_bind env msg cs svc))) (svc_stream_router svc)
       (svc_stream_router (snd (snd (ctl_bind env msg cs svc)))))"
proof (cases "cst_stream_id cs")
  case None
  let ?cs1 = "fst (snd (ctl_authenticate env msg cs svc))"
  let ?svc1 = "snd (snd (ctl_authenticate env msg cs svc))"
  have same: "keeps_streams ?cs1 c r r' = keeps_streams cs c r r'"
    "binds env msg ?cs1 c r r' = binds env msg cs c r r'" for c r r'
    by (simp_all add: keeps_streams_def binds_def)
  have keep: "keeps_streams cs ?cs1 r r" for r by (simp add: keeps_streams_def)
  show ?thesis
  proof (cases "fst (ctl_authenticate env msg cs svc)")
    case None
    with \<open>cst_stream_id cs = None\<close> keep show ?thesis
      by (simp add: ctl_bind_def ctl_open_stream_def Let_def case_prod_unfold)
  next
    case (Some p)
    let ?svc3 = "snd (ctl_rate_limit env msg ?cs1 (snd (ctl_authorize env msg p ?cs1 ?svc1)))"
    have cm: "if fst (ctl_create_mapping env msg ?cs1 ?svc3)
       then binds env msg cs (fst (snd (ctl_create_mapping env msg ?cs1 ?svc3))) (svc_stream_router svc)
         (svc_stream_router (snd (snd (ctl_create_mapping env msg ?cs1 ?svc3))))
       else keeps_streams cs (fst (snd (ctl_create_mapping env msg ?cs1 ?svc3))) (svc_stream_router svc)
         (svc_stream_router (snd (snd (ctl_create_mapping env msg ?cs1 ?svc3))))"
    proof -
      have "cst_stream_id ?cs1 = None" using None by simp
      moreover have "svc_stream_router ?svc3 = svc_stream_router svc" by simp
      ultimately show ?thesis
        using ctl_create_mapping_streams [of ?cs1 env msg ?svc3] unfolding same by presburger
    qed
    show ?thesis
    proof (cases "fst (ctl_authorize env msg p ?cs1 ?svc1)
        \<and> fst (ctl_rate_limit env msg ?cs1 (snd (ctl_authorize env msg p ?cs1 ?svc1)))")
      case True
      then have "ctl_bind env msg cs svc = ctl_create_mapping env msg ?cs1 ?svc3"
        using Some None by (simp add: ctl_bind_def ctl_open_stream_def Let_def case_prod_unfold)
      with cm None show ?thesis by presburger
    next
      case False
      with Some None keep show ?thesis
        by (auto simp: ctl_bind_def ctl_open_stream_def Let_def case_prod_unfold)
    qed
  qed
qed (simp add: ctl_bind_def keeps_streams_refl)

lemmas ctl_bind_opens = ctl_bind_outcome [unfolded if_bool_eq_conj, THEN conjunct1, rule_format]

lemma ctl_bind_streams:
  "fst (ctl_bind env msg cs svc) \<and> cst_stream_id cs = None
     \<and> binds env msg cs (fst (snd (ctl_bind env msg cs svc))) (svc_stream_router svc)
       (svc_stream_router (snd (snd (ctl_bind env msg cs svc))))
   \<or> keeps_streams cs (fst (snd (ctl_bind env msg cs svc))) (svc_stream_router svc)
       (svc_stream_router (snd (snd (ctl_bind env msg cs svc))))"
  using ctl_bind_outcome [of env msg cs svc] by presburger

text \<open>A request on an open stream.\<close>

lemma request_frame:
  "cst_stream_id (fst (ctl_request env msg cs svc)) = cst_stream_id cs"
  "cst_stream_binding (fst (ctl_request env msg cs svc)) = cst_stream_binding cs"
  "cst_out_tx (fst (ctl_request env msg cs svc)) = cst_out_tx cs"
  "cst_controller_connected (fst (ctl_request env msg cs svc)) = cst_controller_connected cs"
  "svc_cache (snd (ctl_request env msg cs svc)) =
     snd (cache_get (env_lru env) (env_now env) (cmsg_target_device_id msg) (cmsg_sequence_number msg)
       (svc_cache svc))"
  by (simp_all add: ctl_request_def Let_def case_prod_unfold ctl_forward_facts split: option.split)

lemma ctl_forward_router:
  "svc_stream_router (snd (ctl_forward env msg cs svc)) =
     (if fst (ctl_forward env msg cs svc) then svc_stream_router svc
      else (case cst_stream_id cs of
              None \<Rightarrow> svc_stream_router svc
            | Some sid \<Rightarrow> finish_request (env_now env) sid (svc_stream_router svc)))"
  by (simp add: ctl_forward_def Let_def case_prod_unfold ctl_abandon_def ctl_bandwidth_exceeded_def
      with_stream_router split: option.split)

lemma request_router:
  assumes "cst_waiting cs = None"
  shows "svc_stream_router (snd (ctl_request env msg cs svc)) =
    (case cst_stream_id cs of
       None \<Rightarrow> svc_stream_router svc
     | Some sid \<Rightarrow>
         (let r = begin_request (env_now env) sid (svc_stream_router svc)
          in if cst_waiting (fst (ctl_request env msg cs svc)) = None
             then finish_request (env_now env) sid r else r))"
  using assms
  by (auto simp: ctl_request_def Let_def case_prod_unfold ctl_forward_router ctl_cached_def
      with_stream_router split: option.split)

text \<open>The answer and the end of the stream.\<close>

lemma response_ok_facts:
  "svc_state (snd (controller_response_ok env p resp cs svc)) = svc_state svc"
  "svc_timers (snd (controller_response_ok env p resp cs svc)) = svc_timers svc"
  "fst (controller_response_ok env p resp cs svc) = cs\<lparr>cst_waiting := None\<rparr>"
  "svc_cache (snd (controller_response_ok env p resp cs svc)) =
     (if pr_is_new_forwarder p
      then cache_insert (env_lru env) (env_now env) (cmsg_target_device_id (pr_msg p))
             (cmsg_sequence_number (pr_msg p)) resp (svc_cache svc)
      else svc_cache svc)"
  "svc_out (snd (controller_response_ok env p resp cs svc)) = svc_out svc @
     (if env_closed env (cst_out_tx cs) then [] else [ToController (cst_out_tx cs) resp])"
  "svc_stream_router (snd (controller_response_ok env p resp cs svc)) =
     (case cst_stream_id cs of
        None \<Rightarrow> svc_stream_router svc
      | Some sid \<Rightarrow> finish_request (env_now env) sid (svc_stream_router svc))"
  by (simp_all add: controller_response_ok_def Let_def out_sends with_stream_router split: option.split)

lemma finish_facts:
  "svc_state (controller_stream_finish env cs svc) =
     (if cst_controller_connected cs then decrement_controller_connections (svc_state svc)
      else svc_state svc)"
  "svc_timers (controller_stream_finish env cs svc) = svc_timers svc"
  "svc_cache (controller_stream_finish env cs svc) = svc_cache svc"
  "svc_out (controller_stream_finish env cs svc) = svc_out svc"
  "svc_stream_router (controller_stream_finish env cs svc) =
     (case cst_stream_id cs of
        None \<Rightarrow> svc_stream_router svc
      | Some sid \<Rightarrow> snd (remove_mapping sid (svc_stream_router svc)))"
  by (simp_all add: controller_stream_finish_def Let_def split: option.split)

lemma receive_error_frame [simp]:
  "svc_state (controller_receive_error env svc) = svc_state svc"
  "svc_timers (controller_receive_error env svc) = svc_timers svc"
  "svc_cache (controller_receive_error env svc) = svc_cache svc"
  "svc_out (controller_receive_error env svc) = svc_out svc"
  "svc_stream_router (controller_receive_error env svc) = svc_stream_router svc"
  by (simp_all add: controller_receive_error_def)

lemma fire_timer_facts [simp]:
  "svc_state (fire_timer t svc) = take_and_complete (tm_device_id t) (tm_seq t)
     (error_resp (tm_device_id t) (tm_seq t) DEVICE_OFFLINE) (svc_state svc)"
  "svc_timers (fire_timer t svc) = svc_timers svc"
  "svc_cache (fire_timer t svc) = svc_cache svc"
  "svc_out (fire_timer t svc) = svc_out svc"
  "svc_stream_router (fire_timer t svc) = svc_stream_router svc"
  by (simp_all add: fire_timer_def)

section \<open>When a request is forwarded\<close>

text \<open>A stream is opened for a message exactly when it is admitted and neither cap is reached.\<close>

definition stream_room :: "controller_message \<Rightarrow> 'c relay_service \<Rightarrow> bool" where
  "stream_room msg svc \<longleftrightarrow>
     \<not> device_full (cmsg_target_device_id msg) (svc_stream_router svc)
     \<and> \<not> controller_full (cmsg_controller_id msg) (svc_stream_router svc)"

lemma ctl_create_mapping_ok:
  "fst (ctl_create_mapping env msg cs svc) \<longleftrightarrow> stream_room msg svc"
proof -
  let ?cm = "create_mapping (env_now env) (cmsg_target_device_id msg) (cmsg_controller_id msg)
    (cmsg_method_name msg) (cst_out_tx cs) (svc_stream_router svc)"
  have 1: "(\<exists>sid. fst ?cm = Inr sid) \<longleftrightarrow> stream_room msg svc"
    by (cases "device_full (cmsg_target_device_id msg) (svc_stream_router svc)";
        cases "controller_full (cmsg_controller_id msg) (svc_stream_router svc)")
      (simp_all add: create_device_full create_controller_full create_ok stream_room_def)
  have "fst (ctl_create_mapping env msg cs svc) \<longleftrightarrow> (\<exists>sid. fst ?cm = Inr sid)"
  proof (cases "fst ?cm")
    case (Inl e)
    then show ?thesis
      by (cases "sre_kind e = MaxStreamsExceeded")
        (simp_all add: ctl_create_mapping_def Let_def case_prod_unfold)
  qed (simp add: ctl_create_mapping_def Let_def case_prod_unfold)
  with 1 show ?thesis by simp
qed

lemma ctl_open_stream_iff:
  "fst (ctl_open_stream env msg cs svc) \<longleftrightarrow> admitted env msg svc \<and> stream_room msg svc"
proof (cases "admitted env msg svc")
  case True
  then obtain p dp where p: "authenticate_controller (env_decode env) (svc_auth_service svc)
      (cmsg_controller_id msg) (cmsg_token msg) = Inr p"
    and dp: "get_device_principal_by_id (svc_auth_service svc) (cmsg_target_device_id msg) = Inr dp"
    and ok: "authorize_controller_to_device (svc_rbac svc) p dp (cmsg_method_name msg) = Inr ()"
    and rl: "fst (allow (env_now env) (cmsg_target_device_id msg) (cmsg_controller_id msg) (svc_rate_limiter svc))"
    by (auto simp: admitted_def)
  let ?svc1 = "snd (snd (ctl_authenticate env msg cs svc))"
  let ?cs1 = "fst (snd (ctl_authenticate env msg cs svc))"
  have same: "svc_auth_service ?svc1 = svc_auth_service svc" "svc_rbac ?svc1 = svc_rbac svc"
    "svc_rate_limiter ?svc1 = svc_rate_limiter svc" "fst (ctl_authenticate env msg cs svc) = Some p"
    by (simp_all add: ctl_authenticate_def p Let_def)
  have az: "ctl_authorize env msg p ?cs1 ?svc1 = (True, ?svc1)"
    using dp ok by (simp add: ctl_authorize_def same Let_def)
  have "fst (ctl_rate_limit env msg ?cs1 ?svc1)"
    using rl by (simp add: ctl_rate_limit_def same case_prod_unfold Let_def)
  then have "fst (ctl_open_stream env msg cs svc) \<longleftrightarrow>
      stream_room msg (snd (ctl_rate_limit env msg ?cs1 ?svc1))"
    using same(4) az by (simp add: ctl_open_stream_def case_prod_unfold Let_def ctl_create_mapping_ok)
  with True show ?thesis by (simp add: stream_room_def)
qed (use ctl_open_stream_admitted in blast)

lemma bind_bandwidth [simp]:
  "svc_bandwidth_tracker (snd (snd (ctl_bind env msg cs svc))) = svc_bandwidth_tracker svc"
proof -
  have eff: "svc_bandwidth_tracker (on_state f svc) = svc_bandwidth_tracker svc"
    "svc_bandwidth_tracker (on_metrics g svc) = svc_bandwidth_tracker svc"
    "svc_bandwidth_tracker (on_relay_metrics h svc) = svc_bandwidth_tracker svc"
    "svc_bandwidth_tracker (on_audit i svc) = svc_bandwidth_tracker svc"
    "svc_bandwidth_tracker (send_error_response env ch d sq e svc) = svc_bandwidth_tracker svc"
    for f g h i ch d sq e and svc :: "'a relay_service"
    by (simp_all add: effect_defs)
  show ?thesis
    by (simp add: ctl_bind_def ctl_open_stream_def ctl_authenticate_def ctl_authorize_def ctl_rate_limit_def
        ctl_create_mapping_def reply_error_def eff Let_def case_prod_unfold split: sum.split option.split)
qed

lemma bind_keeps:
  "cache_lookup env msg (snd (snd (ctl_bind env msg cs svc))) = cache_lookup env msg svc"
  "joins msg (snd (snd (ctl_bind env msg cs svc))) = joins msg svc"
  "device_session_of msg (snd (snd (ctl_bind env msg cs svc))) = device_session_of msg svc"
  "in_bandwidth env msg (snd (snd (ctl_bind env msg cs svc))) = in_bandwidth env msg svc"
  by (simp_all add: cache_lookup_def joins_def device_session_of_def in_bandwidth_def ctl_bind_facts(4,6)
      increment_controller_connections_def get_device_session_def)

text \<open>
  The conditions under which a message on a stream reaches the device: the request is well-formed
  and carries a token; the stream is open for exactly this device, controller and method, or it
  can be opened; no cached response and no request in flight covers it; the device has a session
  and the transfer is within the bandwidth limit.
\<close>

definition reaches_device ::
  "'c step_env \<Rightarrow> controller_message \<Rightarrow> controller_stream \<Rightarrow> 'c relay_service \<Rightarrow> device_session \<Rightarrow> bool" where
  "reaches_device env msg cs svc sess \<longleftrightarrow>
     well_formed_request (cmsg_controller_id msg) (cmsg_target_device_id msg) (cmsg_method_name msg)
       (cmsg_encrypted_payload msg) (cmsg_sequence_number msg)
     \<and> \<not> is_blank (cmsg_token msg)
     \<and> (case cst_stream_id cs of
          None \<Rightarrow> admitted env msg svc \<and> stream_room msg svc
        | Some _ \<Rightarrow> cst_stream_binding cs =
            Some (cmsg_target_device_id msg, cmsg_controller_id msg, cmsg_method_name msg))
     \<and> cache_lookup env msg svc = None \<and> \<not> joins msg svc
     \<and> device_session_of msg svc = Some sess \<and> in_bandwidth env msg svc
     \<and> \<not> env_closed env (ds_outbound_tx sess)"

lemma serves_iff:
  "serves env msg cs svc \<longleftrightarrow>
     well_formed_request (cmsg_controller_id msg) (cmsg_target_device_id msg) (cmsg_method_name msg)
       (cmsg_encrypted_payload msg) (cmsg_sequence_number msg)
     \<and> \<not> is_blank (cmsg_token msg)
     \<and> (case cst_stream_id cs of
          None \<Rightarrow> admitted env msg svc \<and> stream_room msg svc
        | Some _ \<Rightarrow> cst_stream_binding cs =
            Some (cmsg_target_device_id msg, cmsg_controller_id msg, cmsg_method_name msg))"
  by (auto simp: serves_def ctl_bind_def ctl_open_stream_iff split: option.splits)

lemma reaches_device_sent:
  assumes "reaches_device env msg cs svc sess"
  shows "svc_out (snd (controller_message_step env msg cs svc)) = svc_out svc @
      [ToDevice (ds_outbound_tx sess) (relay_message_data_request (ds_connection_id sess)
         (cmsg_sequence_number msg) (cmsg_encrypted_payload msg))]"
    and "cst_waiting (fst (controller_message_step env msg cs svc)) =
      Some (waits_for env msg True svc)"
proof -
  have s: "serves env msg cs svc" using assms by (simp add: reaches_device_def serves_iff)
  have out: "svc_out (snd (snd (ctl_bind env msg cs svc))) = svc_out svc"
    using s ctl_bind_out [of env msg cs svc] by (auto simp: serves_def adds_replies_def)
  have n: "next_oneshot (svc_state (snd (snd (ctl_bind env msg cs svc)))) = next_oneshot (svc_state svc)"
    by (simp add: ctl_bind_facts(4) increment_controller_connections_def)
  note r = request_sent [of env msg "snd (snd (ctl_bind env msg cs svc))" sess]
  show "svc_out (snd (controller_message_step env msg cs svc)) = svc_out svc @
      [ToDevice (ds_outbound_tx sess) (relay_message_data_request (ds_connection_id sess)
         (cmsg_sequence_number msg) (cmsg_encrypted_payload msg))]"
    "cst_waiting (fst (controller_message_step env msg cs svc)) = Some (waits_for env msg True svc)"
    using assms
    by (simp_all add: message_step_served [OF s] r bind_keeps reaches_device_def out waits_for_def n)
qed

lemma reaches_device_only:
  assumes "\<And>sess. \<not> reaches_device env msg cs svc sess"
  shows "\<exists>outs. svc_out (snd (controller_message_step env msg cs svc)) = svc_out svc @ outs
    \<and> (\<forall>x \<in> set outs. \<exists>r. x = ToController (cst_out_tx cs) r)"
proof (cases "serves env msg cs svc")
  case True
  let ?svc = "snd (snd (ctl_bind env msg cs svc))"
  have out: "svc_out ?svc = svc_out svc"
    using True ctl_bind_out [of env msg cs svc] by (auto simp: serves_def adds_replies_def)
  note tx = ctl_bind_facts(2) [of env msg cs svc]
  show ?thesis
  proof (cases rule: request_cases [of env msg ?svc])
    case (hit r)
    then show ?thesis by (simp add: message_step_served [OF True] request_hit out tx)
  next
    case join
    then show ?thesis by (simp add: message_step_served [OF True] request_join out)
  next
    case offline
    show ?thesis unfolding message_step_served [OF True] request_offline(4) [OF offline] out by simp
  next
    case (limited sess)
    then show ?thesis by (simp add: message_step_served [OF True] request_limited out tx)
  next
    case (sent sess)
    with True assms [of sess] show ?thesis by (simp add: bind_keeps reaches_device_def serves_iff)
  qed
next
  case False
  from message_step_refused(1) [OF False] show ?thesis
    by (fastforce simp: adds_replies_def only_replies_def)
qed

end
