(* ===== verification/Relay_Service.thy ===== *)
theory Relay_Service
  imports Device_Stream Controller_Stream
begin

text \<open>
  The calls of the \<open>RelayService\<close> trait in \<^verbatim>\<open>crates/relay/src/grpc_service.rs\<close>: admission of device
  and controller streams, the list of online devices, token revocation, and the background task
  that removes idle streams. A refused call is a \<open>tonic::Status\<close>, the left side of a sum.
\<close>

section \<open>Calls\<close>

datatype status =
    ResourceExhausted string
  | Unauthenticated string
  | PermissionDenied string
  | InvalidArgument string

definition device_connect ::
  "'c step_env \<Rightarrow> chan \<Rightarrow> 'c relay_service \<Rightarrow> (status + device_stream) \<times> 'c relay_service" where
  "device_connect env out_tx svc =
     (let (allowed, cl) = allow_global (env_now env) (svc_connection_limiter svc);
          svc1 = svc\<lparr>svc_connection_limiter := cl\<rparr>
      in if \<not> allowed then
           (Inl (ResourceExhausted ''global connection rate limit exceeded''),
            on_audit (audit_rate_limit (env_audit_io env) ''system'' ''global'' ''connection_limit'' [])
              (on_metrics record_rate_limit svc1))
         else if \<not> is_healthy (env_sys env) (svc_resource_monitor svc1) then
           (Inl (ResourceExhausted ''system overloaded''),
            on_audit (audit_rate_limit (env_audit_io env) ''system'' ''global'' ''resource_unhealthy'' [])
              (on_metrics record_rate_limit svc1))
         else (Inr (device_stream_new out_tx), svc1))"

definition connect_to_device :: "'c step_env \<Rightarrow> chan \<Rightarrow> 'c relay_service \<Rightarrow> controller_stream \<times> 'c relay_service" where
  "connect_to_device env out_tx svc = (controller_stream_new (env_now env) out_tx, svc)"

definition device_visible ::
  "auth_service \<Rightarrow> controller_principal \<Rightarrow> string \<Rightarrow> device_info \<Rightarrow> bool" where
  "device_visible a who region_filter d =
     (if \<not> is_blank region_filter
         \<and> (case map_of (di_metadata d) ''region'' of Some r \<Rightarrow> r | None \<Rightarrow> []) \<noteq> region_filter
      then False
      else if cp_role who = ''admin'' then True
      else case get_device_principal_by_id a (di_device_id d) of
             Inl _ \<Rightarrow> False
           | Inr device_principal \<Rightarrow>
               list_ex (\<lambda>pid. pid = dp_project_id device_principal) (cp_allowed_project_ids who))"

text \<open>Authentication of a unary call, shared by the next two.\<close>

definition unary_authenticate ::
  "'c step_env \<Rightarrow> string \<Rightarrow> string \<Rightarrow> 'c relay_service
     \<Rightarrow> (status + controller_principal) \<times> 'c relay_service" where
  "unary_authenticate env controller_id token svc =
     (case authenticate_controller (env_decode env) (svc_auth_service svc) controller_id token of
        Inl _ \<Rightarrow>
          (Inl (Unauthenticated ''invalid controller token''),
           on_audit (audit_auth_failure (env_audit_io env) ''controller'' controller_id
              ''invalid_controller_token'' [] (Some (token_prefix token)))
             (on_metrics record_auth_failure svc))
      | Inr who \<Rightarrow>
          (Inr who,
           on_audit (audit_auth_success (env_audit_io env) ''controller'' controller_id [])
             (on_metrics record_auth_success svc)))"

definition missing_credentials :: "'c step_env \<Rightarrow> string \<Rightarrow> 'c relay_service \<Rightarrow> 'c relay_service" where
  "missing_credentials env controller_id svc =
     on_audit (audit_auth_failure (env_audit_io env) ''controller'' controller_id
        ''missing_credentials'' [] None)
       (on_metrics record_auth_failure svc)"

definition list_online_devices ::
  "'c step_env \<Rightarrow> list_online_devices_request \<Rightarrow> 'c relay_service
     \<Rightarrow> (status + device_info list) \<times> 'c relay_service" where
  "list_online_devices env req svc =
     (if is_blank (lod_controller_id req) \<or> is_blank (lod_token req) then
        (Inl (Unauthenticated ''missing controller_id or token''),
         missing_credentials env (lod_controller_id req) svc)
      else
        let (auth_result, svc1) = unary_authenticate env (lod_controller_id req) (lod_token req) svc
        in case auth_result of
             Inl st \<Rightarrow> (Inl st, svc1)
           | Inr who \<Rightarrow>
               (let (allowed, rl) = allow (env_now env) ''*'' (lod_controller_id req) (svc_rate_limiter svc1);
                    svc2 = svc1\<lparr>svc_rate_limiter := rl\<rparr>
                in if \<not> allowed then
                     (Inl (ResourceExhausted ''rate limited''),
                      on_audit (audit_rate_limit (env_audit_io env) ''controller''
                         (lod_controller_id req) ''request_rate'' [])
                        (on_metrics record_rate_limit svc2))
                   else
                     let all_devices = registry_list_online_devices (svc_relay_address svc2) (svc_state svc2);
                         devices = filter (device_visible (svc_auth_service svc2) who
                           (lod_region_filter req)) all_devices
                     in if cp_role who \<noteq> ''admin'' \<and> cp_allowed_project_ids who = [] then
                          (Inl (PermissionDenied ''no project permissions''),
                           on_audit (audit_authorization_denied (env_audit_io env)
                              (lod_controller_id req) [] [] ''no_project_permissions'' [])
                             (on_metrics record_authorization_denied svc2))
                        else (Inr devices, svc2)))"

definition revoke_token ::
  "'c step_env \<Rightarrow> revoke_token_request \<Rightarrow> 'c relay_service \<Rightarrow> (status + bool) \<times> 'c relay_service" where
  "revoke_token env req svc =
     (if is_blank (rt_controller_id req) \<or> is_blank (rt_admin_token req) then
        (Inl (Unauthenticated ''missing controller_id or token''),
         missing_credentials env (rt_controller_id req) svc)
      else if is_blank (rt_target_token_hash_or_prefix req) then
        (Inl (InvalidArgument ''missing target_token_hash_or_prefix''), svc)
      else
        let (auth_result, svc1) = unary_authenticate env (rt_controller_id req) (rt_admin_token req) svc
        in case auth_result of
             Inl st \<Rightarrow> (Inl st, svc1)
           | Inr who \<Rightarrow>
               (if cp_role who \<noteq> ''admin'' then
                  (Inl (PermissionDenied ''admin role required''),
                   on_audit (audit_authorization_denied (env_audit_io env) (rt_controller_id req) [] []
                      ''revoke_requires_admin'' [])
                     (on_metrics record_authorization_denied svc1))
                else case token_target_type_try_from (rt_target_type req) of
                  Some CONTROLLER \<Rightarrow>
                    (Inr True, on_metrics record_revoked_token
                       (svc1\<lparr>svc_auth_service := revoke_controller_token
                          (rt_target_token_hash_or_prefix req) (svc_auth_service svc1)\<rparr>))
                | Some DEVICE \<Rightarrow>
                    (Inr True, on_metrics record_revoked_token
                       (svc1\<lparr>svc_auth_service := revoke_device_token
                          (rt_target_token_hash_or_prefix req) (svc_auth_service svc1)\<rparr>))
                | _ \<Rightarrow> (Inl (InvalidArgument ''invalid target_type''), svc1)))"

text \<open>One round of the task that \<open>spawn_stale_stream_cleanup\<close> starts.\<close>

definition stale_stream_cleanup :: "'c step_env \<Rightarrow> 'c relay_service \<Rightarrow> 'c relay_service" where
  "stale_stream_cleanup env svc =
     (let (stale, router1) = cleanup_stale (env_now env) (svc_stream_router svc)
      in fold (\<lambda>mapping. send_controller env (sm_controller_tx mapping)
                 (error_resp (sm_device_id mapping) 0 DEVICE_OFFLINE)) stale
           (svc\<lparr>svc_stream_router := router1\<rparr>))"

section \<open>Facts\<close>

lemma unary_authenticate_frame [simp]:
  "svc_auth_service (snd (unary_authenticate env c t svc)) = svc_auth_service svc"
  "svc_state (snd (unary_authenticate env c t svc)) = svc_state svc"
  "svc_stream_router (snd (unary_authenticate env c t svc)) = svc_stream_router svc"
  "svc_timers (snd (unary_authenticate env c t svc)) = svc_timers svc"
  "svc_cache (snd (unary_authenticate env c t svc)) = svc_cache svc"
  "svc_out (snd (unary_authenticate env c t svc)) = svc_out svc"
  "svc_inflight_timeout (snd (unary_authenticate env c t svc)) = svc_inflight_timeout svc"
  by (simp_all add: unary_authenticate_def split: sum.split)

text \<open>What a call leaves alone: the parts of the shared state the streams work on.\<close>

definition same_core :: "'c relay_service \<Rightarrow> 'c relay_service \<Rightarrow> bool" where
  "same_core svc' svc \<longleftrightarrow>
     svc_state svc' = svc_state svc \<and> svc_stream_router svc' = svc_stream_router svc
     \<and> svc_timers svc' = svc_timers svc \<and> svc_cache svc' = svc_cache svc \<and> svc_out svc' = svc_out svc
     \<and> svc_inflight_timeout svc' = svc_inflight_timeout svc"

lemma same_core_calls:
  "same_core (snd (device_connect env ch svc)) svc"
  "same_core (snd (list_online_devices env req svc)) svc"
  "same_core (snd (revoke_token env rreq svc)) svc"
  by (simp_all add: same_core_def device_connect_def list_online_devices_def revoke_token_def Let_def
      case_prod_unfold missing_credentials_def split: sum.split option.split token_target_type.split)

lemma stale_cleanup_frame [simp]:
  "svc_state (stale_stream_cleanup env svc) = svc_state svc"
  "svc_timers (stale_stream_cleanup env svc) = svc_timers svc"
  "svc_cache (stale_stream_cleanup env svc) = svc_cache svc"
  "svc_stream_router (stale_stream_cleanup env svc) = snd (cleanup_stale (env_now env) (svc_stream_router svc))"
proof -
  have "svc_state (fold (\<lambda>m. send_controller env (f m) (g m)) ms svc) = svc_state svc
      \<and> svc_timers (fold (\<lambda>m. send_controller env (f m) (g m)) ms svc) = svc_timers svc
      \<and> svc_cache (fold (\<lambda>m. send_controller env (f m) (g m)) ms svc) = svc_cache svc
      \<and> svc_stream_router (fold (\<lambda>m. send_controller env (f m) (g m)) ms svc) = svc_stream_router svc"
    for f g and ms :: "stream_mapping list" and svc
    by (induction ms arbitrary: svc) auto
  then show "svc_state (stale_stream_cleanup env svc) = svc_state svc"
    "svc_timers (stale_stream_cleanup env svc) = svc_timers svc"
    "svc_cache (stale_stream_cleanup env svc) = svc_cache svc"
    "svc_stream_router (stale_stream_cleanup env svc) = snd (cleanup_stale (env_now env) (svc_stream_router svc))"
    by (simp_all add: stale_stream_cleanup_def case_prod_unfold Let_def)
qed

end
