(* ===== verification/Relay_System.thy ===== *)
theory Relay_System
  imports Relay_Service
begin

text \<open>
  The relay as a whole: the shared state of the service together with the tasks that serve the
  open streams. One event is one turn of one task or one unary call; the order in which the
  events of different tasks come is free. The runs of the relay are the reachable states of an
  inductive relation that counts the events.

  Two fields of the state do not exist in the program. \<open>sys_answers\<close> remembers the data that
  devices sent on streams registered for them, \<open>sys_served\<close> the requests that were let through
  to the cache or to the device, with the channel they came from.
\<close>

section \<open>State and events\<close>

record 'c relay_system =
  sys_svc :: "'c relay_service"
  sys_devices :: "(chan, device_stream) dashmap"
  sys_controllers :: "(chan, controller_stream) dashmap"
  sys_next_chan :: chan
  sys_now :: instant
  sys_answers :: "(string \<times> int \<times> bytes \<times> int) list"
  sys_served :: "(chan \<times> string \<times> int) list"

datatype sys_event =
    DeviceConnects
  | DeviceReceives chan device_event
  | ControllerConnects
  | ControllerReceives chan controller_message
  | ControllerResumes chan
  | ControllerEnds chan bool
  | TimeoutFires timer
  | StaleCleanup
  | ListCall list_online_devices_request
  | RevokeCall revoke_token_request

definition relay_system_new :: "'c relay_service \<Rightarrow> 'c relay_system" where
  "relay_system_new svc =
     \<lparr>sys_svc = svc, sys_devices = [], sys_controllers = [], sys_next_chan = 0, sys_now = 0,
      sys_answers = [], sys_served = []\<rparr>"

section \<open>Turns\<close>

definition answers_of :: "device_event \<Rightarrow> device_stream \<Rightarrow> (string \<times> int \<times> bytes \<times> int) list" where
  "answers_of ev ds =
     (case ev of
        DeviceMsg msg \<Rightarrow>
          (case dmsg_payload msg of
             Some (Data r) \<Rightarrow>
               (if dst_current_device_id ds = Some (dmsg_device_id msg)
                then [(dmsg_device_id msg, dresp_sequence_number r, dresp_encrypted_payload r, dresp_error r)]
                else [])
           | _ \<Rightarrow> [])
      | _ \<Rightarrow> [])"

definition open_device :: "'c step_env \<Rightarrow> 'c relay_system \<Rightarrow> 'c relay_system" where
  "open_device env s =
     (case device_connect env (sys_next_chan s) (sys_svc s) of
        (Inl _, svc) \<Rightarrow> s\<lparr>sys_svc := svc\<rparr>
      | (Inr ds, svc) \<Rightarrow>
          s\<lparr>sys_svc := svc, sys_devices := AList.update (sys_next_chan s) ds (sys_devices s),
            sys_next_chan := sys_next_chan s + 1\<rparr>)"

definition device_turn ::
  "'c step_env \<Rightarrow> chan \<Rightarrow> device_event \<Rightarrow> device_stream \<Rightarrow> 'c relay_system \<Rightarrow> 'c relay_system" where
  "device_turn env ch ev ds s =
     (case device_event_step env ev ds (sys_svc s) of
        (LContinue, ds1, svc) \<Rightarrow>
          s\<lparr>sys_svc := svc, sys_devices := AList.update ch ds1 (sys_devices s),
            sys_answers := sys_answers s @ answers_of ev ds\<rparr>
      | (LBreak reason, ds1, svc) \<Rightarrow>
          s\<lparr>sys_svc := device_stream_cleanup env reason ds1 svc,
            sys_devices := AList.delete ch (sys_devices s)\<rparr>)"

definition open_controller :: "'c step_env \<Rightarrow> 'c relay_system \<Rightarrow> 'c relay_system" where
  "open_controller env s =
     (case connect_to_device env (sys_next_chan s) (sys_svc s) of
        (cs, svc) \<Rightarrow>
          s\<lparr>sys_svc := svc, sys_controllers := AList.update (sys_next_chan s) cs (sys_controllers s),
            sys_next_chan := sys_next_chan s + 1\<rparr>)"

definition controller_turn ::
  "'c step_env \<Rightarrow> chan \<Rightarrow> controller_message \<Rightarrow> controller_stream \<Rightarrow> 'c relay_system \<Rightarrow> 'c relay_system" where
  "controller_turn env ch msg cs s =
     (case controller_message_step env msg cs (sys_svc s) of
        (cs1, svc) \<Rightarrow>
          s\<lparr>sys_svc := svc, sys_controllers := AList.update ch cs1 (sys_controllers s),
            sys_served := (if serves env msg cs (sys_svc s)
              then sys_served s @ [(ch, cmsg_target_device_id msg, cmsg_sequence_number msg)]
              else sys_served s)\<rparr>)"

text \<open>The stream ends: the client closed it, or (\<open>failed\<close>) the transport reported an error.\<close>

definition end_controller ::
  "'c step_env \<Rightarrow> chan \<Rightarrow> bool \<Rightarrow> controller_stream \<Rightarrow> 'c relay_system \<Rightarrow> 'c relay_system" where
  "end_controller env ch failed cs s =
     s\<lparr>sys_svc := controller_stream_finish env cs
         (if failed then controller_receive_error env (sys_svc s) else sys_svc s),
       sys_controllers := AList.delete ch (sys_controllers s)\<rparr>"

text \<open>
  A controller stream takes its next message, or ends, only when it is not waiting for an answer;
  a timeout fires when it is due.
\<close>

fun sys_react :: "'c step_env \<Rightarrow> sys_event \<Rightarrow> 'c relay_system \<Rightarrow> 'c relay_system option" where
  "sys_react env DeviceConnects s = Some (open_device env s)"
| "sys_react env (DeviceReceives ch ev) s =
     map_option (\<lambda>ds. device_turn env ch ev ds s) (map_of (sys_devices s) ch)"
| "sys_react env ControllerConnects s = Some (open_controller env s)"
| "sys_react env (ControllerReceives ch msg) s =
     (case map_of (sys_controllers s) ch of
        None \<Rightarrow> None
      | Some cs \<Rightarrow> if cst_waiting cs = None then Some (controller_turn env ch msg cs s) else None)"
| "sys_react env (ControllerResumes ch) s =
     (case map_of (sys_controllers s) ch of
        None \<Rightarrow> None
      | Some cs \<Rightarrow>
          map_option (\<lambda>(cs1, svc). s\<lparr>sys_svc := svc,
              sys_controllers := AList.update ch cs1 (sys_controllers s)\<rparr>)
            (controller_resume env cs (sys_svc s)))"
| "sys_react env (ControllerEnds ch failed) s =
     (case map_of (sys_controllers s) ch of
        None \<Rightarrow> None
      | Some cs \<Rightarrow> if cst_waiting cs = None then Some (end_controller env ch failed cs s) else None)"
| "sys_react env (TimeoutFires t) s =
     (if List.member (svc_timers (sys_svc s)) t \<and> tm_due t \<le> env_now env
      then Some (s\<lparr>sys_svc := fire_timer t
             ((sys_svc s)\<lparr>svc_timers := remove1 t (svc_timers (sys_svc s))\<rparr>)\<rparr>)
      else None)"
| "sys_react env StaleCleanup s = Some (s\<lparr>sys_svc := stale_stream_cleanup env (sys_svc s)\<rparr>)"
| "sys_react env (ListCall req) s = Some (s\<lparr>sys_svc := snd (list_online_devices env req (sys_svc s))\<rparr>)"
| "sys_react env (RevokeCall req) s = Some (s\<lparr>sys_svc := snd (revoke_token env req (sys_svc s))\<rparr>)"

definition sys_step :: "'c step_env \<Rightarrow> sys_event \<Rightarrow> 'c relay_system \<Rightarrow> 'c relay_system option" where
  "sys_step env ev s =
     (if sys_now s \<le> env_now env
      then map_option (\<lambda>s1. s1\<lparr>sys_now := env_now env\<rparr>) (sys_react env ev s) else None)"

fun sys_run :: "('c step_env \<times> sys_event) list \<Rightarrow> 'c relay_system \<Rightarrow> 'c relay_system option" where
  "sys_run [] s = Some s"
| "sys_run ((env, ev) # evs) s =
     (case sys_step env ev s of None \<Rightarrow> None | Some s1 \<Rightarrow> sys_run evs s1)"

section \<open>Reachable states\<close>

inductive relay_reach :: "'c lru_ops \<Rightarrow> 'c relay_service \<Rightarrow> nat \<Rightarrow> 'c relay_system \<Rightarrow> bool"
  for ops :: "'c lru_ops" and svc0 :: "'c relay_service" where
  reach_start: "relay_reach ops svc0 0 (relay_system_new svc0)"
| reach_step: "relay_reach ops svc0 n s \<Longrightarrow> env_lru env = ops \<Longrightarrow> sys_step env ev s = Some s1
    \<Longrightarrow> relay_reach ops svc0 (Suc n) s1"

lemma reach_run:
  assumes "relay_reach ops svc0 n s" "\<forall>(env, ev) \<in> set evs. env_lru env = ops" "sys_run evs s = Some s1"
  shows "relay_reach ops svc0 (n + length evs) s1"
  using assms
proof (induction evs arbitrary: n s)
  case (Cons x evs)
  obtain env ev where x: "x = (env, ev)" by (cases x)
  from Cons.prems(3) obtain s2 where s2: "sys_step env ev s = Some s2" "sys_run evs s2 = Some s1"
    by (auto simp: x split: option.splits)
  from Cons.prems(1,2) s2(1) have "relay_reach ops svc0 (Suc n) s2"
    by (auto simp: x intro: reach_step)
  from Cons.IH [OF this _ s2(2)] Cons.prems(2) show ?case by simp
qed simp

text \<open>What an event may be: the inversion of a step.\<close>

lemma sys_step_cases:
  assumes "sys_step env ev s = Some s1"
  obtains (device_connects) "ev = DeviceConnects" "s1 = (open_device env s)\<lparr>sys_now := env_now env\<rparr>"
  | (device) ch dev ds where "ev = DeviceReceives ch dev" "map_of (sys_devices s) ch = Some ds"
      "s1 = (device_turn env ch dev ds s)\<lparr>sys_now := env_now env\<rparr>"
  | (controller_connects) "ev = ControllerConnects" "s1 = (open_controller env s)\<lparr>sys_now := env_now env\<rparr>"
  | (controller) ch msg cs where "ev = ControllerReceives ch msg"
      "map_of (sys_controllers s) ch = Some cs" "cst_waiting cs = None"
      "s1 = (controller_turn env ch msg cs s)\<lparr>sys_now := env_now env\<rparr>"
  | (resume) ch cs cs1 svc where "ev = ControllerResumes ch" "map_of (sys_controllers s) ch = Some cs"
      "controller_resume env cs (sys_svc s) = Some (cs1, svc)"
      "s1 = s\<lparr>sys_svc := svc, sys_controllers := AList.update ch cs1 (sys_controllers s),
              sys_now := env_now env\<rparr>"
  | (ends) ch failed cs where "ev = ControllerEnds ch failed"
      "map_of (sys_controllers s) ch = Some cs" "cst_waiting cs = None"
      "s1 = (end_controller env ch failed cs s)\<lparr>sys_now := env_now env\<rparr>"
  | (timeout) t where "ev = TimeoutFires t" "t \<in> set (svc_timers (sys_svc s))" "tm_due t \<le> env_now env"
      "s1 = s\<lparr>sys_svc := fire_timer t
                ((sys_svc s)\<lparr>svc_timers := remove1 t (svc_timers (sys_svc s))\<rparr>),
              sys_now := env_now env\<rparr>"
  | (cleanup) "ev = StaleCleanup"
      "s1 = s\<lparr>sys_svc := stale_stream_cleanup env (sys_svc s), sys_now := env_now env\<rparr>"
  | (call) svc where "s1 = s\<lparr>sys_svc := svc, sys_now := env_now env\<rparr>" "same_core svc (sys_svc s)"
  using assms
  by (cases ev)
    (auto simp: sys_step_def same_core_calls split: if_splits option.splits)

lemma sys_step_time: "sys_step env ev s = Some s1 \<Longrightarrow> sys_now s \<le> sys_now s1 \<and> sys_now s1 = env_now env"
  by (auto simp: sys_step_def split: if_splits)

end
