(* ===== verification/Relay_Sample.thy ===== *)
theory Relay_Sample
  imports Relay_System
begin

text \<open>
  A small relay to run: one configured controller, one configured device, the default limits, an
  association list as the response cache. The witnesses of the properties of the relay are
  about its runs.
\<close>

definition sample_token_config :: auth_config where
  "sample_token_config = default_auth_config\<lparr>auth_enabled := True,
     controller_tokens := [(''ct'', \<lparr>cae_controller_id = ''c1'', cae_role = ''operator'',
        cae_allowed_project_ids = [''p1'']\<rparr>),
       (''at'', \<lparr>cae_controller_id = ''root'', cae_role = ''admin'', cae_allowed_project_ids = []\<rparr>)],
     device_tokens := [(''dt'', \<lparr>dae_device_id = ''d1'', dae_project_id = ''p1''\<rparr>)]\<rparr>"

definition sample_relay_config :: relay_config where
  "sample_relay_config =
     \<lparr>relay_id = ''r'', relay_address = ''relay:1'', quic_address = ''relay:2'',
      max_device_connections = 10, heartbeat_interval_seconds = 30, heartbeat_timeout_seconds = 120,
      stream = default_stream_config, rate_limiting = default_rate_limit_config,
      idempotency = default_idempotency_config, auth = sample_token_config,
      mqtt = default_mqtt_config, tls = default_tls_config\<rparr>"

definition sample_config :: app_config where
  "sample_config = \<lparr>relay = sample_relay_config, observability = default_observability_config\<rparr>"

type_synonym sample_cache = "(string \<times> int, device_response) dashmap"

definition sample_env :: "instant \<Rightarrow> sample_cache step_env" where
  "sample_env t =
     \<lparr>env_now = t, env_now_ns = of_nat t, env_audit_io = \<lparr>io_now_text = None, io_to_string = \<lambda>_. None\<rparr>,
      env_sys = \<lparr>global_cpu_usage = 10, used_memory = 0, total_memory = 0\<rparr>,
      env_decode = (\<lambda>_ _ _. None), env_lru = alist_lru, env_closed = (\<lambda>_. False)\<rparr>"

definition sample_service :: "sample_cache relay_service" where
  "sample_service = relay_grpc_service_new alist_lru relay_state_new sample_config metrics_new
     (resource_monitor_new default_rate_limit_config) None None"

definition sample_register :: device_message where
  "sample_register =
     \<lparr>dmsg_device_id = ''d1'', dmsg_token = ''dt'',
      dmsg_payload = Some (Register \<lparr>rr_device_id = ''d1'', rr_metadata = [], rr_previous_connection_id = []\<rparr>)\<rparr>"

definition sample_data :: device_message where
  "sample_data =
     \<lparr>dmsg_device_id = ''d1'', dmsg_token = ''dt'',
      dmsg_payload = Some (Data \<lparr>dresp_connection_id = ''conn-1'', dresp_sequence_number = 7,
        dresp_encrypted_payload = [42], dresp_error = 0\<rparr>)\<rparr>"

definition sample_request :: controller_message where
  "sample_request =
     \<lparr>cmsg_controller_id = ''c1'', cmsg_token = ''ct'', cmsg_target_device_id = ''d1'',
      cmsg_method_name = ''m'', cmsg_sequence_number = 7, cmsg_encrypted_payload = [1, 2]\<rparr>"

text \<open>
  A device connects and registers and a controller connects; the controller sends a request; the
  device answers and the controller gets the answer.
\<close>

definition sample_connecting :: "(sample_cache step_env \<times> sys_event) list" where
  "sample_connecting =
     [(sample_env 1, DeviceConnects), (sample_env 2, DeviceReceives 0 (DeviceMsg sample_register)),
      (sample_env 3, ControllerConnects)]"

definition sample_connected :: "sample_cache relay_system" where
  "sample_connected =
     (case sys_run sample_connecting (relay_system_new sample_service) of
        Some s \<Rightarrow> s | None \<Rightarrow> relay_system_new sample_service)"

definition sample_stream :: controller_stream where
  "sample_stream = controller_stream_new 3 1"

definition sample_waiting :: "sample_cache relay_system" where
  "sample_waiting = (controller_turn (sample_env 4) 1 sample_request sample_stream sample_connected)\<lparr>sys_now := 4\<rparr>"

definition sample_device :: device_stream where
  "sample_device = \<lparr>dst_current_device_id = Some ''d1'', dst_current_connection_id = Some ''conn-1'',
     dst_out_tx = 0\<rparr>"

definition sample_replied :: "sample_cache relay_system" where
  "sample_replied = (device_turn (sample_env 5) 0 (DeviceMsg sample_data) sample_device sample_waiting)\<lparr>sys_now := 5\<rparr>"

section \<open>Evaluation\<close>

text \<open>The definitions that the first events of the sample go through, for the simplifier.\<close>

lemmas sample_defs = sample_token_config_def sample_relay_config_def sample_config_def sample_env_def
  sample_service_def sample_register_def relay_grpc_service_new_def
  relay_state_new_def relay_system_new_def default_auth_config_def default_jwt_config_def
  default_stream_config_def default_rate_limit_config_def default_idempotency_config_def
  idempotency_cache_new_def alist_lru_def stream_router_new_def rate_limiter_new_def
  connection_rate_limiter_new_def bandwidth_tracker_new_def auth_service_new_def rbac_new_def
  metrics_new_def resource_monitor_new_def relay_metrics_new_def

lemmas system_defs = sys_step_def open_device_def open_controller_def device_turn_def
  device_connect_def connect_to_device_def allow_global_def
  prune_and_check_inner_def prune_and_check_def is_healthy_def device_stream_new_def
  controller_stream_new_def answers_of_def Let_def

lemmas device_defs = device_message_step_def device_touch_def device_identity_guard_def
  is_register_def device_register_def authenticate_device_by_token_def device_auth_success_def
  register_limits_def register_session_def effect_defs allow_device_def session_resumes_def
  insert_device_session_def next_connection_id_def record_auth_success_def
  is_device_token_revoked_def token_is_revoked_def relay_message_register_response_def
  connection_id_of_def dec_string.simps

lemmas run_defs = sample_connecting_def sample_defs system_defs device_defs

lemma sample_not_blank:
  "\<not> is_blank ''c1''" "\<not> is_blank ''d1''" "\<not> is_blank ''m''" "\<not> is_blank ''ct''"
  "\<not> is_blank ''root''" "\<not> is_blank ''at''" "\<not> is_blank ''dt''"
  by (simp_all add: is_blank_def trim_start.simps ws_len.simps ascii_ws_def)

lemma sample_connecting_runs:
  "sys_run sample_connecting (relay_system_new sample_service) = Some sample_connected"
proof -
  have "sys_run sample_connecting (relay_system_new sample_service) \<noteq> None"
    by (simp add: run_defs)
  then show ?thesis by (auto simp: sample_connected_def split: option.splits)
qed

definition sample_session :: device_session where
  "sample_session = \<lparr>ds_device_id = ''d1'', ds_connection_id = ''conn-1'', ds_metadata = [], ds_outbound_tx = 0\<rparr>"

lemma sample_connected_system:
  "sys_controllers sample_connected = [(1, sample_stream)]"
  "sys_devices sample_connected = [(0, sample_device)]"
  "sys_now sample_connected = 3" "sys_answers sample_connected = []" "sys_served sample_connected = []"
  by (simp_all add: sample_connected_def run_defs sample_stream_def sample_device_def)

lemma sample_connected_service:
  "svc_auth_service (sys_svc sample_connected) = auth_service_new sample_token_config"
  "svc_rbac (sys_svc sample_connected) = rbac_new sample_token_config"
  "svc_rate_limiter (sys_svc sample_connected) = rate_limiter_new default_rate_limit_config"
  "svc_stream_router (sys_svc sample_connected) = stream_router_new default_stream_config"
  "svc_bandwidth_tracker (sys_svc sample_connected) = bandwidth_tracker_new default_rate_limit_config"
  "ic_inner (svc_cache (sys_svc sample_connected)) = []"
  "inflight_by_sequence (svc_state (sys_svc sample_connected)) = []"
  "sessions_by_device_id (svc_state (sys_svc sample_connected)) = [(''d1'', sample_session)]"
  "oneshot_sent (svc_state (sys_svc sample_connected)) = []"
  "next_oneshot (svc_state (sys_svc sample_connected)) = 0"
  "svc_inflight_timeout (sys_svc sample_connected) = from_secs 60"
  "svc_out (sys_svc sample_connected) = [ToDevice 0 (relay_message_register_response ''conn-1'' False)]"
  by (simp_all add: sample_connected_def run_defs sample_session_def)

section \<open>The request and the answer\<close>

text \<open>The services that still have what the configuration gives for the first request.\<close>

definition sample_like :: "sample_cache relay_service \<Rightarrow> bool" where
  "sample_like svc \<longleftrightarrow>
     svc_auth_service svc = auth_service_new sample_token_config
     \<and> svc_rbac svc = rbac_new sample_token_config
     \<and> svc_rate_limiter svc = rate_limiter_new default_rate_limit_config
     \<and> svc_stream_router svc = stream_router_new default_stream_config"

lemma sample_like_connected: "sample_like (sys_svc sample_connected)"
  by (simp add: sample_like_def sample_connected_service)

lemma sample_like_service: "sample_like sample_service"
  by (simp add: sample_like_def sample_service_def relay_grpc_service_new_def sample_config_def sample_relay_config_def)

lemma sample_admits:
  assumes "sample_like svc"
  shows "admitted (sample_env 4) sample_request svc"
proof -
  have "authenticate_controller (env_decode (sample_env 4)) (auth_service_new sample_token_config) ''c1'' ''ct''
      = Inr \<lparr>cp_controller_id = ''c1'', cp_role = ''operator'', cp_allowed_project_ids = [''p1'']\<rparr>"
    by (simp add: authenticate_controller_def sample_defs is_controller_token_revoked_def token_is_revoked_def Let_def)
  moreover have "get_device_principal_by_id (auth_service_new sample_token_config) ''d1''
      = Inr \<lparr>dp_device_id = ''d1'', dp_project_id = ''p1''\<rparr>"
    by (simp add: get_device_principal_by_id_def sample_defs Let_def)
  moreover have "authorize_controller_to_device (rbac_new sample_token_config)
      \<lparr>cp_controller_id = ''c1'', cp_role = ''operator'', cp_allowed_project_ids = [''p1'']\<rparr>
      \<lparr>dp_device_id = ''d1'', dp_project_id = ''p1''\<rparr> ''m'' = Inr ()"
    by (simp add: authorize_controller_to_device_def is_method_allowed_def sample_defs)
  moreover have "fst (allow 4 ''d1'' ''c1'' (rate_limiter_new default_rate_limit_config))"
    by (simp add: allow_def maybe_cleanup_def check_key_def refill_def sample_defs Let_def)
  ultimately show ?thesis
    using assms by (simp add: sample_like_def admitted_def sample_request_def) (simp add: sample_env_def)
qed

lemma sample_well_formed: "well_formed_request ''c1'' ''d1'' ''m'' [1, 2] 7"
  by (simp add: well_formed_request_def sample_not_blank method_char_allowed_def is_ascii_alphanumeric_def)

lemma sample_like_serves:
  assumes "sample_like svc"
  shows "serves (sample_env 4) sample_request sample_stream svc"
proof -
  have "stream_room sample_request svc"
    using assms by (simp add: sample_like_def stream_room_def device_full_def controller_full_def stream_router_new_def)
  with sample_admits [OF assms] sample_well_formed show ?thesis
    by (simp add: serves_iff sample_stream_def controller_stream_new_def)
      (simp add: sample_request_def sample_not_blank)
qed

lemma sample_reaches_device:
  "reaches_device (sample_env 4) sample_request sample_stream (sys_svc sample_connected) sample_session"
proof -
  have "stream_room sample_request (sys_svc sample_connected)"
    by (simp add: stream_room_def device_full_def controller_full_def sample_connected_service stream_router_new_def)
  moreover have "cache_lookup (sample_env 4) sample_request (sys_svc sample_connected) = None"
    by (simp add: cache_lookup_def cache_get_def sample_connected_service sample_env_def alist_lru_def)
  moreover have "\<not> joins sample_request (sys_svc sample_connected)"
    by (simp add: joins_def sample_connected_service)
  moreover have "device_session_of sample_request (sys_svc sample_connected) = Some sample_session"
    by (simp add: device_session_of_def get_device_session_def sample_connected_service sample_request_def)
  moreover have "in_bandwidth (sample_env 4) sample_request (sys_svc sample_connected)"
    by (simp add: in_bandwidth_def sample_connected_service sample_request_def sample_env_def record_and_check_def
        record_key_def checked_add_u64_def saturating_sub_u64_def bandwidth_tracker_new_def
        default_rate_limit_config_def Let_def)
  ultimately show ?thesis
    using sample_admits [OF sample_like_connected] sample_well_formed
    by (simp add: reaches_device_def sample_request_def sample_not_blank sample_stream_def
        controller_stream_new_def) (simp add: sample_env_def)
qed

lemma sample_serves: "serves (sample_env 4) sample_request sample_stream (sys_svc sample_connected)"
  using sample_like_connected by (rule sample_like_serves)

text \<open>The request, with the controller waiting for the answer.\<close>

definition sample_pending :: pending_request where
  "sample_pending = \<lparr>pr_msg = sample_request, pr_rx = 0, pr_is_new_forwarder = True, pr_request_started_at = 4\<rparr>"

lemma sample_env_simps [simp]:
  "env_now (sample_env t) = t" "env_lru (sample_env t) = alist_lru" "env_closed (sample_env t) ch = False"
  by (simp_all add: sample_env_def)

lemma sample_request_turn:
  "cst_waiting (fst (controller_message_step (sample_env 4) sample_request sample_stream (sys_svc sample_connected)))
     = Some sample_pending"
  "svc_out (snd (controller_message_step (sample_env 4) sample_request sample_stream (sys_svc sample_connected))) =
     [ToDevice 0 (relay_message_register_response ''conn-1'' False),
      ToDevice 0 (relay_message_data_request ''conn-1'' 7 [1, 2])]"
  using reaches_device_sent [OF sample_reaches_device]
  by (simp_all add: waits_for_def sample_pending_def sample_connected_service sample_session_def)
    (simp_all add: sample_request_def)

lemma sample_connected_reach: "relay_reach alist_lru sample_service 3 sample_connected"
proof -
  have 0: "relay_reach alist_lru sample_service 0 (relay_system_new sample_service)" by (rule reach_start)
  have "relay_reach alist_lru sample_service (0 + length sample_connecting) sample_connected"
    by (rule reach_run [OF 0 _ sample_connecting_runs]) (simp add: sample_connecting_def)
  then show ?thesis by (simp add: sample_connecting_def numeral_eq_Suc)
qed

lemma sample_waiting_reach: "relay_reach alist_lru sample_service 4 sample_waiting"
proof -
  have "sys_step (sample_env 4) (ControllerReceives 1 sample_request) sample_connected = Some sample_waiting"
    by (simp add: sys_step_def sample_connected_system sample_waiting_def)
      (simp add: sample_stream_def controller_stream_new_def)
  then have "relay_reach alist_lru sample_service (Suc 3) sample_waiting"
    by (intro reach_step [OF sample_connected_reach]) simp_all
  then show ?thesis by simp
qed

definition sample_waiting_stream :: controller_stream where
  "sample_waiting_stream =
     fst (controller_message_step (sample_env 4) sample_request sample_stream (sys_svc sample_connected))"

lemma sample_waiting_facts:
  "map_of (sys_controllers sample_waiting) 1 = Some sample_waiting_stream"
  "cst_waiting sample_waiting_stream = Some sample_pending"
  "cst_out_tx sample_waiting_stream = 1"
  "sys_now sample_waiting = 4"
  "sys_served sample_waiting = [(1, ''d1'', 7)]"
  "sys_answers sample_waiting = []"
  "sys_devices sample_waiting = [(0, sample_device)]"
  "svc_out (sys_svc sample_waiting) = [ToDevice 0 (relay_message_register_response ''conn-1'' False),
      ToDevice 0 (relay_message_data_request ''conn-1'' 7 [1, 2])]"
proof -
  have "cst_out_tx (fst (controller_message_step env msg cs svc)) = cst_out_tx cs" if "serves env msg cs svc"
    for env msg cs and svc :: "sample_cache relay_service"
    using that by (simp add: message_step_served request_frame ctl_bind_facts(2))
  from this [OF sample_serves] show "cst_out_tx sample_waiting_stream = 1"
    by (simp add: sample_waiting_stream_def sample_stream_def controller_stream_new_def)
qed (simp_all add: sample_waiting_def controller_turn_def case_prod_unfold sample_connected_system
      sample_request_turn sample_serves sample_waiting_stream_def, simp add: sample_request_def)

lemma sample_waiting_state:
  "map_of (inflight_by_sequence (svc_state (sys_svc sample_waiting))) (''d1'', 7) =
     Some \<lparr>if_device_id = ''d1'', if_waiters = [0]\<rparr>"
  "oneshot_sent (svc_state (sys_svc sample_waiting)) = []"
proof -
  have "svc_state (sys_svc sample_waiting) =
      registered sample_request (svc_state (snd (snd (ctl_bind (sample_env 4) sample_request sample_stream (sys_svc sample_connected)))))"
    using sample_reaches_device
    by (simp add: sample_waiting_def controller_turn_def case_prod_unfold message_step_served [OF sample_serves]
        reaches_device_def request_sent bind_keeps)
  then show "map_of (inflight_by_sequence (svc_state (sys_svc sample_waiting))) (''d1'', 7) =
     Some \<lparr>if_device_id = ''d1'', if_waiters = [0]\<rparr>"
    "oneshot_sent (svc_state (sys_svc sample_waiting)) = []"
    by (simp_all add: registered_def ensure_inflight_waiter_def oneshot_channel_def push_waiter_def
        in_flight_new_def ctl_bind_facts(4) increment_controller_connections_def sample_connected_service Let_def
        sample_request_def)
qed

text \<open>The stream the request opened.\<close>

definition sample_mapping :: stream_mapping where
  "sample_mapping = (new_mapping 4 ''d1'' ''c1'' ''m'' 1 1)\<lparr>sm_active_requests := 1\<rparr>"

lemma sample_waiting_mapping:
  "map_of (sr_mappings (svc_stream_router (sys_svc sample_waiting))) (stream_id_of 1) = Some sample_mapping"
proof -
  let ?bind = "ctl_bind (sample_env 4) sample_request sample_stream (sys_svc sample_connected)"
  have none: "cst_stream_id sample_stream = None" "cst_waiting sample_stream = None" "cst_out_tx sample_stream = 1"
    by (simp_all add: sample_stream_def controller_stream_new_def)
  have "binds (sample_env 4) sample_request sample_stream (fst (snd ?bind))
      (stream_router_new default_stream_config) (svc_stream_router (snd (snd ?bind)))"
    using ctl_bind_opens [of "sample_env 4" sample_request sample_stream "sys_svc sample_connected"] sample_serves none
    by (simp add: serves_def sample_connected_service)
  then have b: "cst_stream_id (fst (snd ?bind)) = Some (stream_id_of 1)"
    "sr_mappings (svc_stream_router (snd (snd ?bind))) =
       [(stream_id_of 1, new_mapping 4 ''d1'' ''c1'' ''m'' 1 1)]"
    by (simp_all add: binds_def stream_router_new_def none sample_request_def)
  have "cst_waiting (fst (ctl_request (sample_env 4) sample_request (fst (snd ?bind)) (snd (snd ?bind)))) = Some sample_pending"
    using sample_request_turn(1) by (simp add: message_step_served [OF sample_serves])
  with b none show ?thesis
    by (simp add: sample_waiting_def controller_turn_def case_prod_unfold message_step_served [OF sample_serves]
        request_router ctl_bind_facts(1) begin_request_def update_mapping_def sample_mapping_def new_mapping_def Let_def)
qed

text \<open>The device answers and the controller gets the answer.\<close>

definition sample_answered :: "sample_cache relay_system" where
  "sample_answered = sample_replied\<lparr>
     sys_svc := snd (controller_response_ok (sample_env 6) sample_pending
       (device_response_from_device_data ''d1'' 7 [42] 0) sample_waiting_stream (sys_svc sample_replied)),
     sys_controllers := AList.update 1 (sample_waiting_stream\<lparr>cst_waiting := None\<rparr>) (sys_controllers sample_replied),
     sys_now := 6\<rparr>"

lemma sample_data_step:
  "device_message_step (sample_env 5) sample_data sample_device svc =
     (LContinue, sample_device, on_state (take_and_complete ''d1'' 7 (device_response_from_device_data ''d1'' 7 [42] 0))
       (device_touch (sample_env 5) sample_data sample_device svc))"
  by (simp add: device_message_step_def device_identity_guard_def is_register_def device_data_def
      sample_data_def sample_device_def)

lemma sample_replied_facts:
  "map_of (oneshot_sent (svc_state (sys_svc sample_replied))) 0 = Some (device_response_from_device_data ''d1'' 7 [42] 0)"
  "svc_out (sys_svc sample_replied) = svc_out (sys_svc sample_waiting)"
  "sys_controllers sample_replied = sys_controllers sample_waiting"
  "sys_answers sample_replied = [(''d1'', 7, [42], 0)]" "sys_served sample_replied = [(1, ''d1'', 7)]"
  "sys_now sample_replied = 5"
proof -
  obtain seen where "svc_state (device_touch (sample_env 5) sample_data sample_device (sys_svc sample_waiting)) =
      (svc_state (sys_svc sample_waiting))\<lparr>device_last_seen := seen\<rparr>"
    by (rule device_touch_state)
  then show "map_of (oneshot_sent (svc_state (sys_svc sample_replied))) 0
      = Some (device_response_from_device_data ''d1'' 7 [42] 0)"
    by (simp add: sample_replied_def device_turn_def sample_data_step take_and_complete_sent waiting_def
        sample_waiting_state)
qed (simp_all add: sample_replied_def device_turn_def sample_data_step sample_waiting_facts answers_of_def,
    simp_all add: sample_data_def sample_device_def)

lemma sample_replied_reach: "relay_reach alist_lru sample_service 5 sample_replied"
proof -
  have "sys_step (sample_env 5) (DeviceReceives 0 (DeviceMsg sample_data)) sample_waiting = Some sample_replied"
    by (simp add: sys_step_def sample_waiting_facts sample_replied_def)
  then have "relay_reach alist_lru sample_service (Suc 4) sample_replied"
    by (intro reach_step [OF sample_waiting_reach]) simp_all
  then show ?thesis by simp
qed

lemma sample_resumes:
  "controller_resume (sample_env 6) sample_waiting_stream (sys_svc sample_replied) =
     Some (controller_response_ok (sample_env 6) sample_pending
       (device_response_from_device_data ''d1'' 7 [42] 0) sample_waiting_stream (sys_svc sample_replied))"
  by (simp add: controller_resume_def sample_waiting_facts sample_replied_facts)
    (simp add: sample_pending_def sample_replied_facts)

lemma sample_answered_reach: "relay_reach alist_lru sample_service 6 sample_answered"
proof -
  have "sys_step (sample_env 6) (ControllerResumes 1) sample_replied = Some sample_answered"
    by (simp add: sys_step_def sample_replied_facts sample_waiting_facts case_prod_unfold response_ok_facts(3)
        sample_answered_def sample_resumes del: One_nat_def)
  then have "relay_reach alist_lru sample_service (Suc 5) sample_answered"
    by (intro reach_step [OF sample_replied_reach]) simp_all
  then show ?thesis by simp
qed

lemma sample_answered_facts:
  "svc_out (sys_svc sample_answered) =
     [ToDevice 0 (relay_message_register_response ''conn-1'' False),
      ToDevice 0 (relay_message_data_request ''conn-1'' 7 [1, 2]),
      ToController 1 (device_response_from_device_data ''d1'' 7 [42] 0)]"
  "sys_answers sample_answered = [(''d1'', 7, [42], 0)]" "sys_served sample_answered = [(1, ''d1'', 7)]"
  by (simp_all add: sample_answered_def response_ok_facts sample_replied_facts sample_waiting_facts)

end
