(* ===== verification/System_State.thy ===== *)
theory System_State
  imports Relay_System
begin

text \<open>
  The invariants of the shared tables in every reachable state of the relay. First the moves
  that the turns of the tasks make on the state of \<^verbatim>\<open>state.rs\<close>, then what each move keeps: the
  session tables and the waiters stay well-formed, and a waiting controller is registered with
  the request it made or has the answer to it.
\<close>

section \<open>Answers that are genuine\<close>

text \<open>
  An answer to a request (a device and a sequence number) is genuine when the device sent it on
  a stream registered for it, or when it is the relay's own report that the device is offline.
\<close>

definition genuine :: "(string \<times> int \<times> bytes \<times> int) list \<Rightarrow> string \<times> int \<Rightarrow> device_response \<Rightarrow> bool" where
  "genuine ans k r \<longleftrightarrow>
     r = error_resp (fst k) (snd k) DEVICE_OFFLINE
     \<or> (\<exists>p e. (fst k, snd k, p, e) \<in> set ans \<and> r = device_response_from_device_data (fst k) (snd k) p e)"

definition owed ::
  "(string \<times> int \<times> bytes \<times> int) list \<Rightarrow> relay_state \<Rightarrow> oneshot \<Rightarrow> string \<times> int \<Rightarrow> bool" where
  "owed ans st w k \<longleftrightarrow> waiting st w k \<or> (\<exists>r. map_of (oneshot_sent st) w = Some r \<and> genuine ans k r)"

lemma genuine_mono: "genuine ans k r \<Longrightarrow> set ans \<subseteq> set ans' \<Longrightarrow> genuine ans' k r"
  by (auto simp: genuine_def)

lemma owed_mono: "owed ans st w k \<Longrightarrow> set ans \<subseteq> set ans' \<Longrightarrow> owed ans' st w k"
  by (auto simp: owed_def intro: genuine_mono)

lemma genuine_offline [simp]: "genuine ans (d, s) (error_resp d s DEVICE_OFFLINE)"
  by (simp add: genuine_def)

section \<open>Moves of the shared state\<close>

inductive state_move :: "(string \<times> int \<times> bytes \<times> int) list \<Rightarrow> relay_state \<Rightarrow> relay_state \<Rightarrow> bool"
  for ans :: "(string \<times> int \<times> bytes \<times> int) list" where
  move_touch: "state_move ans st (st\<lparr>device_last_seen := seen\<rparr>)"
| move_register: "state_move ans st (registers d md ch st)"
| move_join: "state_move ans st (snd (ensure_inflight_waiter seq d st))"
| move_complete: "genuine ans (d, seq) r \<Longrightarrow> state_move ans st (take_and_complete d seq r st)"
| move_lose: "state_move ans st (fail_inflight d (\<lambda>seq. error_resp d seq DEVICE_OFFLINE) st)"
| move_remove: "state_move ans st (snd (remove_device_session d st))"
| move_arrive: "state_move ans st (increment_controller_connections st)"
| move_leave: "state_move ans st (decrement_controller_connections st)"

abbreviation state_moves ::
  "(string \<times> int \<times> bytes \<times> int) list \<Rightarrow> relay_state \<Rightarrow> relay_state \<Rightarrow> bool" where
  "state_moves ans \<equiv> (state_move ans)\<^sup>*\<^sup>*"

lemma state_moves_mono:
  "state_moves ans st st1 \<Longrightarrow> set ans \<subseteq> set ans' \<Longrightarrow> state_moves ans' st st1"
proof -
  assume sub: "set ans \<subseteq> set ans'"
  have "state_move ans st st1 \<Longrightarrow> state_move ans' st st1" for st st1
    by (induction rule: state_move.induct) (auto intro: state_move.intros genuine_mono [OF _ sub])
  then have "state_move ans \<le> state_move ans'" by blast
  then show "state_moves ans st st1 \<Longrightarrow> state_moves ans' st st1"
    by (rule rtranclp_mono [THEN predicate2D])
qed

lemma two_moves: "state_move ans a b \<Longrightarrow> state_move ans b c \<Longrightarrow> state_moves ans a c"
  by (blast intro: converse_rtranclp_into_rtranclp r_into_rtranclp)

text \<open>The fields a move leaves alone, by kind of move.\<close>

lemma registers_frame [simp]:
  "inflight_by_sequence (registers d md ch st) = inflight_by_sequence st"
  "oneshot_sent (registers d md ch st) = oneshot_sent st"
  "next_oneshot (registers d md ch st) = next_oneshot st"
  "controller_connection_count (registers d md ch st) = controller_connection_count st"
  "connection_id_counter (registers d md ch st) = connection_id_counter st + 1"
  by (simp_all add: registers_def insert_device_session_def Let_def split: option.split)

lemma remove_session_frame [simp]:
  "inflight_by_sequence (snd (remove_device_session d st)) = inflight_by_sequence st"
  "oneshot_sent (snd (remove_device_session d st)) = oneshot_sent st"
  "next_oneshot (snd (remove_device_session d st)) = next_oneshot st"
  "controller_connection_count (snd (remove_device_session d st)) = controller_connection_count st"
  "connection_id_counter (snd (remove_device_session d st)) = connection_id_counter st"
  by (simp_all add: remove_device_session_def split: option.split)

lemma gauge_frame [simp]:
  "inflight_by_sequence (increment_controller_connections st) = inflight_by_sequence st"
  "oneshot_sent (increment_controller_connections st) = oneshot_sent st"
  "next_oneshot (increment_controller_connections st) = next_oneshot st"
  "inflight_by_sequence (decrement_controller_connections st) = inflight_by_sequence st"
  "oneshot_sent (decrement_controller_connections st) = oneshot_sent st"
  "next_oneshot (decrement_controller_connections st) = next_oneshot st"
  by (simp_all add: increment_controller_connections_def decrement_controller_connections_def)

section \<open>Waiters\<close>

lemma owed_cong:
  "inflight_by_sequence st1 = inflight_by_sequence st \<Longrightarrow> oneshot_sent st1 = oneshot_sent st \<Longrightarrow>
     owed ans st1 w k = owed ans st w k"
  by (simp add: owed_def waiting_def)

lemma owed_ensure: "owed ans st w k \<Longrightarrow> owed ans (snd (ensure_inflight_waiter seq d st)) w k"
proof -
  have "oneshot_sent (snd (ensure_inflight_waiter seq d st)) = oneshot_sent st"
    by (simp add: ensure_inflight_eq)
  then show "owed ans st w k \<Longrightarrow> owed ans (snd (ensure_inflight_waiter seq d st)) w k"
    by (auto simp: owed_def ensure_waiting)
qed

lemma owed_take_and_complete:
  assumes "waiters_wf st" "genuine ans (d, seq) r" "owed ans st w k"
  shows "owed ans (take_and_complete d seq r st) w k"
proof (cases "waiting st w (d, seq)")
  case True
  with assms(3) waiters_wfD(1,2) [OF assms(1) True] have "k = (d, seq)" by (auto simp: owed_def)
  with True assms(2) show ?thesis by (auto simp: owed_def take_and_complete_sent)
next
  case False
  with assms(3) show ?thesis
    by (auto simp: owed_def take_and_complete_waiting take_and_complete_sent)
qed

lemma owed_fail:
  assumes "waiters_wf st" "owed ans st w k"
  shows "owed ans (fail_inflight d (\<lambda>seq. error_resp d seq DEVICE_OFFLINE) st) w k"
proof (cases "\<exists>seq. waiting st w (d, seq)")
  case True
  then obtain seq where w: "waiting st w (d, seq)" by blast
  with assms(2) waiters_wfD(1,2) [OF assms(1) w] have "k = (d, seq)" by (auto simp: owed_def)
  with fail_inflight_sent(1) [OF assms(1) w] show ?thesis by (auto simp: owed_def)
next
  case False
  then have "map_of (oneshot_sent (fail_inflight d (\<lambda>seq. error_resp d seq DEVICE_OFFLINE) st)) w
      = map_of (oneshot_sent st) w"
    by (intro fail_inflight_sent(2) [OF assms(1)]) blast
  with assms(2) False show ?thesis
    by (cases k) (auto simp: owed_def fail_inflight_waiting [OF assms(1)])
qed

lemma move_waiters: "state_move ans st st1 \<Longrightarrow> waiters_wf st \<Longrightarrow> waiters_wf st1"
  by (induction rule: state_move.induct)
    (simp_all add: waiters_wf_ensure waiters_wf_take_and_complete waiters_wf_fail
      waiters_wf_cong [of "registers d md ch st" st for d md ch st]
      waiters_wf_cong [of "st\<lparr>device_last_seen := x\<rparr>" st for st x]
      waiters_wf_cong [of "snd (remove_device_session d st)" st for d st]
      waiters_wf_cong [of "increment_controller_connections st" st for st]
      waiters_wf_cong [of "decrement_controller_connections st" st for st])

lemma move_owed: "state_move ans st st1 \<Longrightarrow> waiters_wf st \<Longrightarrow> owed ans st w k \<Longrightarrow> owed ans st1 w k"
  by (induction rule: state_move.induct)
    (simp_all add: owed_ensure owed_take_and_complete owed_fail
      owed_cong [of "registers d md ch st" st for d md ch st]
      owed_cong [of "st\<lparr>device_last_seen := x\<rparr>" st for st x]
      owed_cong [of "snd (remove_device_session d st)" st for d st]
      owed_cong [of "increment_controller_connections st" st for st]
      owed_cong [of "decrement_controller_connections st" st for st])

lemma moves_waiters: "state_moves ans st st1 \<Longrightarrow> waiters_wf st \<Longrightarrow> waiters_wf st1"
  by (induction rule: rtranclp_induct) (auto intro: move_waiters)

lemma moves_owed:
  "state_moves ans st st1 \<Longrightarrow> waiters_wf st \<Longrightarrow> owed ans st w k \<Longrightarrow> owed ans st1 w k"
  by (induction rule: rtranclp_induct) (auto intro: move_owed moves_waiters)

section \<open>Every event is a sequence of moves\<close>

lemma device_event_moves:
  assumes "\<And>a. a \<in> set (answers_of ev ds) \<Longrightarrow> fst (device_event_step env ev ds svc) = LContinue \<Longrightarrow> a \<in> set ans"
  shows "state_moves ans (svc_state svc) (svc_state (snd (snd (device_event_step env ev ds svc))))"
proof (cases rule: device_event_state [of env ev ds svc])
  case (quiet seen)
  then show ?thesis by (simp add: move_touch r_into_rtranclp)
next
  case (register seen d md)
  then show ?thesis by (simp add: two_moves [OF move_touch [of _ _ seen] move_register])
next
  case (data seen msg r)
  then have "(dmsg_device_id msg, dresp_sequence_number r, dresp_encrypted_payload r, dresp_error r) \<in> set ans"
    by (intro assms) (simp_all add: answers_of_def)
  then have "genuine ans (dmsg_device_id msg, dresp_sequence_number r) (device_answer (dmsg_device_id msg) r)"
    by (auto simp: genuine_def device_answer_def)
  with data show ?thesis by (simp add: two_moves [OF move_touch [of _ _ seen] move_complete])
qed

lemma device_break_quiet:
  assumes "fst (device_event_step env ev ds svc) = LBreak reason"
  obtains seen where
    "svc_state (snd (snd (device_event_step env ev ds svc))) = (svc_state svc)\<lparr>device_last_seen := seen\<rparr>"
  by (cases rule: device_event_state [of env ev ds svc]) (use assms that in auto)

lemma cleanup_moves:
  "state_moves ans (svc_state svc) (svc_state (device_stream_cleanup env reason ds svc))"
proof (cases "dst_current_device_id ds")
  case (Some did)
  then show ?thesis
    by (auto simp: cleanup_state Let_def intro: r_into_rtranclp move_lose two_moves [OF move_lose move_remove])
qed (simp add: cleanup_state)

lemma bind_moves:
  "state_moves ans (svc_state svc) (svc_state (snd (snd (ctl_bind env msg cs svc))))"
  by (simp add: ctl_bind_facts(4) r_into_rtranclp move_arrive)

lemma request_moves:
  "state_moves ans (svc_state svc) (svc_state (snd (ctl_request env msg cs svc)))"
proof (cases rule: request_cases [of env msg svc])
  case (hit r)
  then show ?thesis by (simp add: request_hit)
next
  case join
  then show ?thesis by (simp add: request_join registered_def r_into_rtranclp move_join)
next
  case offline
  then have "svc_state (snd (ctl_request env msg cs svc)) = ended_offline msg (registered msg (svc_state svc))"
    by (rule request_offline)
  then show ?thesis
    by (simp add: registered_def ended_offline_def two_moves [OF move_join move_complete [OF genuine_offline]])
next
  case (limited s)
  then show ?thesis by (simp add: request_limited registered_def r_into_rtranclp move_join)
next
  case (sent s)
  then show ?thesis by (simp add: request_sent registered_def r_into_rtranclp move_join)
qed

lemma message_step_moves:
  "state_moves ans (svc_state svc) (svc_state (snd (controller_message_step env msg cs svc)))"
proof (cases "serves env msg cs svc")
  case True
  then show ?thesis
    by (simp add: message_step_served rtranclp_trans [OF bind_moves request_moves])
next
  case False
  then show ?thesis by (simp add: message_step_refused_state(1) r_into_rtranclp move_arrive)
qed

lemma response_err_facts:
  "svc_state (snd (controller_response_err env p cs svc)) = svc_state svc"
  "svc_timers (snd (controller_response_err env p cs svc)) = svc_timers svc"
  "svc_cache (snd (controller_response_err env p cs svc)) = svc_cache svc"
  "fst (controller_response_err env p cs svc) = cs\<lparr>cst_waiting := None\<rparr>"
  by (simp_all add: controller_response_err_def Let_def)

lemma resume_frame:
  assumes "controller_resume env cs svc = Some (cs1, svc1)"
  shows "svc_state svc1 = svc_state svc" "svc_timers svc1 = svc_timers svc"
    "cs1 = cs\<lparr>cst_waiting := None\<rparr>"
proof -
  obtain p where "(cs1, svc1) = controller_response_err env p cs svc
      \<or> (\<exists>r. (cs1, svc1) = controller_response_ok env p r cs svc)"
    using assms by (cases "cst_waiting cs") (auto simp: controller_resume_def dest: sym split: option.splits if_splits)
  then show "svc_state svc1 = svc_state svc" "svc_timers svc1 = svc_timers svc"
    "cs1 = cs\<lparr>cst_waiting := None\<rparr>"
    using response_ok_facts(1-3) [of env p _ cs svc] response_err_facts [of env p cs svc]
    by (metis fst_conv snd_conv)+
qed

lemma open_device_core:
  "same_core (sys_svc (open_device env s)) (sys_svc s)"
  "sys_controllers (open_device env s) = sys_controllers s"
  "sys_answers (open_device env s) = sys_answers s" "sys_served (open_device env s) = sys_served s"
  "sys_next_chan s \<le> sys_next_chan (open_device env s)"
  using same_core_calls(1) [of env "sys_next_chan s" "sys_svc s"]
  by (auto simp: open_device_def split: prod.splits sum.splits)

lemma open_controller_core:
  "sys_svc (open_controller env s) = sys_svc s"
  "sys_controllers (open_controller env s) =
     AList.update (sys_next_chan s) (controller_stream_new (env_now env) (sys_next_chan s)) (sys_controllers s)"
  "sys_answers (open_controller env s) = sys_answers s" "sys_served (open_controller env s) = sys_served s"
  "sys_next_chan (open_controller env s) = sys_next_chan s + 1"
  by (simp_all add: open_controller_def connect_to_device_def)

lemma device_turn_core:
  "sys_controllers (device_turn env ch ev ds s) = sys_controllers s"
  "sys_served (device_turn env ch ev ds s) = sys_served s"
  "sys_next_chan (device_turn env ch ev ds s) = sys_next_chan s"
  "set (sys_answers s) \<subseteq> set (sys_answers (device_turn env ch ev ds s))"
  by (auto simp: device_turn_def split: prod.split loop_ctl.split)

lemma device_turn_moves:
  "state_moves (sys_answers (device_turn env ch ev ds s)) (svc_state (sys_svc s))
     (svc_state (sys_svc (device_turn env ch ev ds s)))"
proof -
  obtain ctl ds1 svc where step: "device_event_step env ev ds (sys_svc s) = (ctl, ds1, svc)"
    by (cases "device_event_step env ev ds (sys_svc s)") auto
  have m: "state_moves (sys_answers (device_turn env ch ev ds s)) (svc_state (sys_svc s)) (svc_state svc)"
    using device_event_moves [of ev ds env "sys_svc s" "sys_answers (device_turn env ch ev ds s)"]
    by (simp add: step) (simp add: device_turn_def step)
  show ?thesis
  proof (cases ctl)
    case LContinue
    with m show ?thesis by (simp add: device_turn_def step)
  next
    case (LBreak reason)
    with m have "state_moves (sys_answers s) (svc_state (sys_svc s)) (svc_state svc)"
      by (simp add: device_turn_def step)
    with LBreak show ?thesis
      by (simp add: device_turn_def step rtranclp_trans [OF _ cleanup_moves])
  qed
qed

lemma controller_turn_core:
  "sys_svc (controller_turn env ch msg cs s) = snd (controller_message_step env msg cs (sys_svc s))"
  "sys_controllers (controller_turn env ch msg cs s) =
     AList.update ch (fst (controller_message_step env msg cs (sys_svc s))) (sys_controllers s)"
  "sys_answers (controller_turn env ch msg cs s) = sys_answers s"
  "sys_next_chan (controller_turn env ch msg cs s) = sys_next_chan s"
  "sys_served (controller_turn env ch msg cs s) = (if serves env msg cs (sys_svc s)
     then sys_served s @ [(ch, cmsg_target_device_id msg, cmsg_sequence_number msg)] else sys_served s)"
  by (simp_all add: controller_turn_def case_prod_unfold)

lemma end_controller_core:
  "svc_state (sys_svc (end_controller env ch failed cs s)) =
     (if cst_controller_connected cs then decrement_controller_connections (svc_state (sys_svc s))
      else svc_state (sys_svc s))"
  "svc_timers (sys_svc (end_controller env ch failed cs s)) = svc_timers (sys_svc s)"
  "svc_cache (sys_svc (end_controller env ch failed cs s)) = svc_cache (sys_svc s)"
  "svc_out (sys_svc (end_controller env ch failed cs s)) = svc_out (sys_svc s)"
  "svc_stream_router (sys_svc (end_controller env ch failed cs s)) =
     (case cst_stream_id cs of
        None \<Rightarrow> svc_stream_router (sys_svc s)
      | Some sid \<Rightarrow> snd (remove_mapping sid (svc_stream_router (sys_svc s))))"
  "sys_controllers (end_controller env ch failed cs s) = AList.delete ch (sys_controllers s)"
  "sys_answers (end_controller env ch failed cs s) = sys_answers s"
  "sys_served (end_controller env ch failed cs s) = sys_served s"
  "sys_next_chan (end_controller env ch failed cs s) = sys_next_chan s"
  by (simp_all add: end_controller_def finish_facts split: option.split)

lemma sys_step_moves:
  assumes "sys_step env ev s = Some s1"
  shows "state_moves (sys_answers s1) (svc_state (sys_svc s)) (svc_state (sys_svc s1))"
    and "set (sys_answers s) \<subseteq> set (sys_answers s1)" and "set (sys_served s) \<subseteq> set (sys_served s1)"
proof -
  from assms have "state_moves (sys_answers s1) (svc_state (sys_svc s)) (svc_state (sys_svc s1))
      \<and> set (sys_answers s) \<subseteq> set (sys_answers s1) \<and> set (sys_served s) \<subseteq> set (sys_served s1)"
  proof (cases rule: sys_step_cases)
    case device_connects
    with open_device_core(1) [of env s] show ?thesis by (simp add: same_core_def open_device_core(2-4))
  next
    case (device ch dev ds)
    then show ?thesis by (simp add: device_turn_core device_turn_moves)
  next
    case controller_connects
    then show ?thesis by (simp add: open_controller_core)
  next
    case (controller ch msg cs)
    then show ?thesis by (auto simp: controller_turn_core message_step_moves)
  next
    case (resume ch cs cs1 svc)
    with resume_frame(1) [OF resume(3)] show ?thesis by simp
  next
    case (ends ch failed cs)
    then show ?thesis by (simp add: end_controller_core r_into_rtranclp move_leave)
  next
    case (timeout t)
    then show ?thesis by (simp add: r_into_rtranclp move_complete)
  next
    case cleanup
    then show ?thesis by simp
  next
    case (call svc)
    then show ?thesis by (simp add: same_core_def)
  qed
  then show "state_moves (sys_answers s1) (svc_state (sys_svc s)) (svc_state (sys_svc s1))"
    "set (sys_answers s) \<subseteq> set (sys_answers s1)" "set (sys_served s) \<subseteq> set (sys_served s1)"
    by blast+
qed

section \<open>Sessions\<close>

definition session_tables :: "relay_state \<Rightarrow> (string, device_session) dashmap \<times> (string, string) dashmap \<times> u64" where
  "session_tables st = (sessions_by_device_id st, connection_to_device_id st, connection_id_counter st)"

lemma sessions_wf_tables: "session_tables st1 = session_tables st \<Longrightarrow> sessions_wf st1 = sessions_wf st"
  by (simp add: session_tables_def sessions_wf_def)

lemma session_tables_frame [simp]:
  "session_tables (st\<lparr>device_last_seen := x\<rparr>) = session_tables st"
  "session_tables (snd (ensure_inflight_waiter seq d st)) = session_tables st"
  "session_tables (take_and_complete d seq r st) = session_tables st"
  "session_tables (fail_inflight d f st) = session_tables st"
  "session_tables (increment_controller_connections st) = session_tables st"
  "session_tables (decrement_controller_connections st) = session_tables st"
  by (simp_all add: session_tables_def increment_controller_connections_def
      decrement_controller_connections_def ensure_inflight_eq)

lemma session_tables_cong:
  "session_tables st1 = session_tables st \<Longrightarrow>
     session_tables (registers d md ch st1) = session_tables (registers d md ch st)"
  "session_tables st1 = session_tables st \<Longrightarrow>
     session_tables (snd (remove_device_session d st1)) = session_tables (snd (remove_device_session d st))"
  by (auto simp: session_tables_def registers_def insert_device_session_def remove_device_session_def
      Let_def split: option.split)

lemma message_step_sessions [simp]:
  "session_tables (svc_state (snd (controller_message_step env msg cs svc))) = session_tables (svc_state svc)"
proof (cases "serves env msg cs svc")
  case True
  have "session_tables (svc_state (snd (ctl_request env msg cs svc))) = session_tables (svc_state svc)" for cs svc
    by (cases rule: request_cases [of env msg svc])
      (simp_all add: request_hit request_join request_offline request_limited request_sent
        registered_def ended_offline_def)
  with True show ?thesis by (simp add: message_step_served ctl_bind_facts(4))
qed (simp add: message_step_refused_state(1))

text \<open>One event registers at most one session or removes at most one.\<close>

lemma sys_step_sessions:
  assumes "sys_step env ev s = Some s1"
  obtains (same) "session_tables (svc_state (sys_svc s1)) = session_tables (svc_state (sys_svc s))"
  | (registered) d md ch where
      "session_tables (svc_state (sys_svc s1)) = session_tables (registers d md ch (svc_state (sys_svc s)))"
  | (removed) d where
      "session_tables (svc_state (sys_svc s1)) = session_tables (snd (remove_device_session d (svc_state (sys_svc s))))"
  using assms
proof (cases rule: sys_step_cases)
  case device_connects
  with open_device_core(1) [of env s] same show ?thesis by (simp add: same_core_def)
next
  case (device ch dev ds)
  obtain ctl ds1 svc where step: "device_event_step env dev ds (sys_svc s) = (ctl, ds1, svc)"
    by (cases "device_event_step env dev ds (sys_svc s)") auto
  show ?thesis
  proof (cases ctl)
    case LContinue
    then have "svc_state (sys_svc s1) = svc_state svc" by (simp add: device device_turn_def step)
    with step have st: "svc_state (sys_svc s1) = svc_state (snd (snd (device_event_step env dev ds (sys_svc s))))"
      by simp
    show ?thesis
    proof (cases rule: device_event_state [of env dev ds "sys_svc s"])
      case (register seen d md)
      show ?thesis
        by (rule registered [of d md "dst_out_tx ds"])
          (unfold st register, rule session_tables_cong(1), simp)
    qed (rule same, simp add: st)+
  next
    case (LBreak reason)
    obtain seen where "svc_state svc = (svc_state (sys_svc s))\<lparr>device_last_seen := seen\<rparr>"
      by (rule device_break_quiet [of env dev ds "sys_svc s" reason]) (simp_all add: step LBreak)
    then have tables: "session_tables (svc_state svc) = session_tables (svc_state (sys_svc s))" by simp
    have "session_tables (svc_state (sys_svc s1)) = session_tables (svc_state (sys_svc s))
      \<or> (\<exists>d. session_tables (svc_state (sys_svc s1)) =
            session_tables (snd (remove_device_session d (svc_state (sys_svc s)))))"
      using LBreak tables session_tables_cong(2) [of "fail_inflight d f (svc_state svc)" "svc_state (sys_svc s)" for d f]
      by (cases "dst_current_device_id ds1")
        (auto simp: device device_turn_def step cleanup_state Let_def)
    then show ?thesis using same removed by blast
  qed
next
  case controller_connects
  with same show ?thesis by (simp add: open_controller_core)
next
  case (controller ch msg cs)
  with same show ?thesis by (simp add: controller_turn_core)
next
  case (resume ch cs cs1 svc)
  with same resume_frame(1) [OF resume(3)] show ?thesis by simp
next
  case (ends ch failed cs)
  with same show ?thesis by (simp add: end_controller_core split: if_splits)
next
  case (call svc)
  with same show ?thesis by (simp add: same_core_def)
qed (use same in simp_all)

lemma sessions_wf_registers:
  assumes "sessions_wf st" "conn_room st"
  shows "sessions_wf (registers d md ch st)"
proof -
  have "sessions_wf (st\<lparr>connection_id_counter := connection_id_counter st + 1\<rparr>)"
    using sessions_wf_counter [OF assms] by (simp add: next_connection_id_def)
  moreover have "connection_id_counter st < connection_id_counter st + 1"
    using assms(2) by (simp add: conn_room_def less_inc_u64)
  moreover have "map_of (connection_to_device_id st) (connection_id_of (connection_id_counter st)) = None"
    using assms(1) unfolding sessions_wf_def by (metis connection_id_of_inj less_irrefl not_None_eq)
  ultimately show ?thesis
    unfolding registers_def
    by (intro sessions_wf_insert [of _ _ "connection_id_counter st"]) simp_all
qed

section \<open>The state in every reachable state\<close>

definition fresh_service :: "'c lru_ops \<Rightarrow> 'c relay_service \<Rightarrow> bool" where
  "fresh_service ops svc \<longleftrightarrow>
     (\<exists>config mx mon mqtt_pub audit_lg.
        svc = relay_grpc_service_new ops relay_state_new config mx mon mqtt_pub audit_lg)"

lemma fresh_serviceE:
  assumes "fresh_service ops svc"
  obtains cap ttl scfg where "svc_state svc = relay_state_new" "svc_stream_router svc = stream_router_new scfg"
    "svc_cache svc = idempotency_cache_new ops cap ttl" "svc_out svc = []" "svc_timers svc = []"
    "svc_inflight_timeout svc = from_secs 60"
  using assms by (auto simp: fresh_service_def relay_grpc_service_new_def)

definition state_ok :: "nat \<Rightarrow> relay_state \<Rightarrow> bool" where
  "state_ok n st \<longleftrightarrow> state_wf st \<and> unat (connection_id_counter st) \<le> Suc n"

lemma state_ok_step:
  assumes "sys_step env ev s = Some s1" "state_ok n (svc_state (sys_svc s))" "Suc n < 2 ^ 64 - 1"
  shows "state_ok (Suc n) (svc_state (sys_svc s1))"
proof -
  let ?st = "svc_state (sys_svc s)"
  have wf: "sessions_wf ?st" "waiters_wf ?st" and c: "unat (connection_id_counter ?st) \<le> Suc n"
    using assms(2) by (simp_all add: state_ok_def state_wf_def)
  have room: "conn_room ?st" using c assms(3) by (simp add: conn_room_def)
  have "sessions_wf (svc_state (sys_svc s1))
      \<and> unat (connection_id_counter (svc_state (sys_svc s1))) \<le> Suc (Suc n)"
    using assms(1)
  proof (cases rule: sys_step_sessions)
    case same
    with wf c sessions_wf_tables [OF same] show ?thesis by (simp add: session_tables_def)
  next
    case (registered d md ch)
    then have "connection_id_counter (svc_state (sys_svc s1)) = connection_id_counter ?st + 1"
      by (simp add: session_tables_def)
    with c room sessions_wf_tables [OF registered] sessions_wf_registers [OF wf(1) room] show ?thesis
      by (simp add: conn_room_def unat_inc_u64)
  next
    case (removed d)
    with c sessions_wf_tables [OF removed] sessions_wf_remove [OF wf(1)] show ?thesis
      by (simp add: session_tables_def)
  qed
  with moves_waiters [OF sys_step_moves(1) [OF assms(1)] wf(2)] show ?thesis
    by (simp add: state_ok_def state_wf_def)
qed

lemma reach_state_ok:
  assumes "relay_reach ops svc0 n s" "fresh_service ops svc0" "n < 2 ^ 64 - 1"
  shows "state_ok n (svc_state (sys_svc s))"
  using assms
proof (induction rule: relay_reach.induct)
  case reach_start
  then have "svc_state svc0 = relay_state_new" by (auto elim: fresh_serviceE)
  moreover have "connection_id_counter relay_state_new = 1" by (simp add: relay_state_new_def)
  ultimately show ?case
    by (simp add: relay_system_new_def state_ok_def state_wf_def sessions_wf_new waiters_wf_new)
next
  case (reach_step n s env ev s1)
  then show ?case by (auto intro: state_ok_step)
qed

end
