(* ===== verification/System_Answers.thy ===== *)
theory System_Answers
  imports System_State
begin

text \<open>
  What a controller gets, in every reachable state of the relay: a waiting controller stream has
  its request on file or its answer ready; everything in the idempotency cache and everything
  sent to a controller is genuine; every request in flight has a timeout pending, so that no
  controller waits longer than the timeout.
\<close>

section \<open>Controller streams of one event\<close>

definition request_key :: "pending_request \<Rightarrow> string \<times> int" where
  "request_key p = (cmsg_target_device_id (pr_msg p), cmsg_sequence_number (pr_msg p))"

lemma sys_step_controllers:
  assumes "sys_step env ev s = Some s1" "map_of (sys_controllers s1) ch = Some cs1"
  obtains (old) "map_of (sys_controllers s) ch = Some cs1"
  | (new) "ch = sys_next_chan s" "cs1 = controller_stream_new (env_now env) ch"
      "sys_next_chan s1 = sys_next_chan s + 1"
  | (turn) msg cs where "map_of (sys_controllers s) ch = Some cs" "cst_waiting cs = None"
      "cs1 = fst (controller_message_step env msg cs (sys_svc s))"
      "s1 = (controller_turn env ch msg cs s)\<lparr>sys_now := env_now env\<rparr>"
  | (resumed) cs where "map_of (sys_controllers s) ch = Some cs" "cs1 = cs\<lparr>cst_waiting := None\<rparr>"
  using assms(1)
proof (cases rule: sys_step_cases)
  case device_connects
  with assms(2) old show ?thesis by (simp add: open_device_core)
next
  case (device ch' dev ds)
  with assms(2) old show ?thesis by (simp add: device_turn_core)
next
  case controller_connects
  with assms(2) show ?thesis
    by (cases "ch = sys_next_chan s") (use old new in \<open>simp_all add: open_controller_core\<close>)
next
  case (controller ch' msg cs)
  show ?thesis
  proof (cases "ch' = ch")
    case True
    with assms(2) controller(4) have "cs1 = fst (controller_message_step env msg cs (sys_svc s))"
      by (simp add: controller_turn_core)
    with True controller show ?thesis by (intro turn) simp_all
  next
    case False
    with assms(2) controller(4) show ?thesis by (intro old) (simp add: controller_turn_core)
  qed
next
  case (resume ch' cs cs' svc)
  with assms(2) resume_frame(3) [OF resume(3)] show ?thesis
    by (cases "ch = ch'") (use old resumed in simp_all)
next
  case (ends ch' failed cs)
  with assms(2) show ?thesis
    by (cases "ch = ch'") (use old in \<open>simp_all add: end_controller_core\<close>)
qed (use assms(2) old in simp_all)

text \<open>A turn that ends in waiting has registered the waiter with the request.\<close>

lemma request_waiting:
  assumes "cst_waiting cs = None" "cst_waiting (fst (ctl_request env msg cs svc)) = Some p"
  shows "waiting (svc_state (snd (ctl_request env msg cs svc))) (pr_rx p) (request_key p)"
    and "request_key p = (cmsg_target_device_id msg, cmsg_sequence_number msg)"
  using assms
  by (cases rule: request_cases [of env msg svc];
      auto simp: request_hit request_join request_offline request_limited request_sent waits_for_def
        request_key_def registered_def ensure_waiting)+

lemma message_step_waiting:
  assumes "cst_waiting cs = None" "cst_waiting (fst (controller_message_step env msg cs svc)) = Some p"
  shows "serves env msg cs svc"
    and "waiting (svc_state (snd (controller_message_step env msg cs svc))) (pr_rx p) (request_key p)"
    and "request_key p = (cmsg_target_device_id msg, cmsg_sequence_number msg)"
proof -
  show s: "serves env msg cs svc"
    using assms message_step_refused(2) [of env msg cs svc] by force
  let ?cs = "fst (snd (ctl_bind env msg cs svc))" and ?svc = "snd (snd (ctl_bind env msg cs svc))"
  have "cst_waiting ?cs = None" "cst_waiting (fst (ctl_request env msg ?cs ?svc)) = Some p"
    using assms by (simp_all add: ctl_bind_facts(1) message_step_served [OF s])
  from request_waiting [OF this] show
    "waiting (svc_state (snd (controller_message_step env msg cs svc))) (pr_rx p) (request_key p)"
    "request_key p = (cmsg_target_device_id msg, cmsg_sequence_number msg)"
    by (simp_all add: message_step_served [OF s])
qed

lemma message_step_out_tx:
  "cst_out_tx (fst (controller_message_step env msg cs svc)) = cst_out_tx cs"
proof (cases "serves env msg cs svc")
  case True
  then show ?thesis by (simp add: message_step_served request_frame ctl_bind_facts(2))
next
  case False
  from message_step_refused_state(3) [OF this] show ?thesis by (auto simp: ctl_bind_facts(2))
qed

section \<open>No waiter is lost\<close>

definition waiters_ok :: "'c relay_system \<Rightarrow> bool" where
  "waiters_ok s \<longleftrightarrow>
     (\<forall>ch cs p. map_of (sys_controllers s) ch = Some cs \<longrightarrow> cst_waiting cs = Some p \<longrightarrow>
        owed (sys_answers s) (svc_state (sys_svc s)) (pr_rx p) (request_key p)
        \<and> (ch, request_key p) \<in> set (sys_served s))"

definition channels_ok :: "'c relay_system \<Rightarrow> bool" where
  "channels_ok s \<longleftrightarrow>
     (\<forall>ch cs. map_of (sys_controllers s) ch = Some cs \<longrightarrow> cst_out_tx cs = ch \<and> ch < sys_next_chan s)"

lemma sys_step_next_chan: "sys_step env ev s = Some s1 \<Longrightarrow> sys_next_chan s \<le> sys_next_chan s1"
  by (erule sys_step_cases)
    (simp_all add: open_device_core device_turn_core open_controller_core controller_turn_core end_controller_core)

lemma channels_ok_step:
  assumes "sys_step env ev s = Some s1" "channels_ok s"
  shows "channels_ok s1"
  unfolding channels_ok_def
proof (intro allI impI)
  fix ch cs1
  assume cs1: "map_of (sys_controllers s1) ch = Some cs1"
  note mono = sys_step_next_chan [OF assms(1)]
  from assms(1) cs1 show "cst_out_tx cs1 = ch \<and> ch < sys_next_chan s1"
  proof (cases rule: sys_step_controllers)
    case old
    with assms(2) mono show ?thesis by (fastforce simp: channels_ok_def)
  next
    case new
    then show ?thesis by (simp add: controller_stream_new_def)
  next
    case (turn msg cs)
    with assms(2) show ?thesis
      by (simp add: channels_ok_def message_step_out_tx controller_turn_core)
  next
    case (resumed cs)
    with assms(2) mono show ?thesis by (fastforce simp: channels_ok_def)
  qed
qed

lemma waiters_ok_step:
  assumes "sys_step env ev s = Some s1" "waiters_ok s" "waiters_wf (svc_state (sys_svc s))"
  shows "waiters_ok s1"
  unfolding waiters_ok_def
proof (intro allI impI)
  fix ch cs1 p
  assume cs1: "map_of (sys_controllers s1) ch = Some cs1" and p: "cst_waiting cs1 = Some p"
  note mv = sys_step_moves [OF assms(1)]
  have keep: "owed (sys_answers s1) (svc_state (sys_svc s1)) w k" if "owed (sys_answers s) (svc_state (sys_svc s)) w k" for w k
    using moves_owed [OF mv(1) assms(3) owed_mono [OF that mv(2)]] .
  from assms(1) cs1 show "owed (sys_answers s1) (svc_state (sys_svc s1)) (pr_rx p) (request_key p)
      \<and> (ch, request_key p) \<in> set (sys_served s1)"
  proof (cases rule: sys_step_controllers)
    case old
    with assms(2) p mv(3) keep show ?thesis unfolding waiters_ok_def by blast
  next
    case new
    with p show ?thesis by (simp add: controller_stream_new_def)
  next
    case (turn msg cs)
    with p message_step_waiting [OF turn(2), of env msg "sys_svc s" p] show ?thesis
      by (simp add: controller_turn_core owed_def)
  next
    case (resumed cs)
    with p show ?thesis by simp
  qed
qed

lemma reach_waiters_ok:
  assumes "relay_reach ops svc0 n s" "fresh_service ops svc0" "n < 2 ^ 64 - 1"
  shows "waiters_ok s \<and> channels_ok s"
  using assms
proof (induction rule: relay_reach.induct)
  case reach_start
  then show ?case by (simp add: relay_system_new_def waiters_ok_def channels_ok_def)
next
  case (reach_step n s env ev s1)
  then have "waiters_wf (svc_state (sys_svc s))"
    using reach_state_ok [OF reach_step.hyps(1)] by (simp add: state_ok_def state_wf_def)
  with reach_step show ?case by (auto intro: waiters_ok_step channels_ok_step)
qed

lemma owed_not_dropped:
  assumes "waiters_wf st" "owed ans st w k"
  shows "\<not> oneshot_dropped w st"
proof
  assume d: "oneshot_dropped w st"
  with assms(2) obtain fl where fl: "map_of (inflight_by_sequence st) k = Some fl" "w \<in> set (if_waiters fl)"
    by (auto simp: owed_def oneshot_dropped_def waiting_def)
  from map_of_SomeD [OF fl(1)] fl(2) d show False
    by (auto simp: oneshot_dropped_def list_ex_iff)
qed

section \<open>Every request in flight has a timeout pending\<close>

lemma device_inflight_timeout [simp]:
  "svc_inflight_timeout (snd (snd (device_event_step env ev ds svc))) = svc_inflight_timeout svc"
  "svc_inflight_timeout (device_stream_cleanup env reason ds svc) = svc_inflight_timeout svc"
proof -
  have n: "svc_inflight_timeout (notify_controllers env did ms svc) = svc_inflight_timeout svc" for did ms svc
    unfolding notify_controllers_def by (induction ms arbitrary: svc) auto
  show "svc_inflight_timeout (snd (snd (device_event_step env ev ds svc))) = svc_inflight_timeout svc"
    by (cases ev)
      (simp_all add: device_turn_defs device_touch_def device_identity_guard_def device_auth_failure_def
        device_auth_success_def register_limits_def register_session_def next_connection_id_def
        split: option.split device_payload.split sum.split)
  show "svc_inflight_timeout (device_stream_cleanup env reason ds svc) = svc_inflight_timeout svc"
    by (simp add: device_stream_cleanup_def close_session_def n Let_def case_prod_unfold split: option.split)
qed

lemma controller_inflight_timeout [simp]:
  "svc_inflight_timeout (snd (snd (ctl_bind env msg cs svc))) = svc_inflight_timeout svc"
  "svc_inflight_timeout (snd (ctl_request env msg cs svc)) = svc_inflight_timeout svc"
  "svc_inflight_timeout (snd (controller_message_step env msg cs svc)) = svc_inflight_timeout svc"
  "svc_inflight_timeout (controller_stream_finish env cs svc) = svc_inflight_timeout svc"
  "svc_inflight_timeout (controller_receive_error env svc) = svc_inflight_timeout svc"
  "svc_inflight_timeout (fire_timer t svc) = svc_inflight_timeout svc"
proof -
  show b: "svc_inflight_timeout (snd (snd (ctl_bind env msg cs svc))) = svc_inflight_timeout svc"
    by (simp add: ctl_bind_def ctl_open_stream_def ctl_authenticate_def ctl_authorize_def ctl_rate_limit_def
        ctl_create_mapping_def reply_error_def Let_def case_prod_unfold split: sum.split option.split)
  show r: "svc_inflight_timeout (snd (ctl_request env msg cs svc)) = svc_inflight_timeout svc" for cs svc
    by (simp add: ctl_request_def ctl_cached_def ctl_forward_def ctl_abandon_def ctl_bandwidth_exceeded_def
        reply_error_def Let_def case_prod_unfold split: option.split)
  show "svc_inflight_timeout (snd (controller_message_step env msg cs svc)) = svc_inflight_timeout svc"
    by (simp add: controller_message_step_def ctl_token_missing_def reply_error_def b r
        Let_def case_prod_unfold split: sum.split)
qed (simp_all add: controller_stream_finish_def controller_receive_error_def fire_timer_def Let_def
      split: option.split)

lemma resume_inflight_timeout:
  "controller_resume env cs svc = Some (cs1, svc1) \<Longrightarrow> svc_inflight_timeout svc1 = svc_inflight_timeout svc"
  by (auto simp: controller_resume_def controller_response_ok_def controller_response_err_def reply_error_def
      Let_def split: option.splits if_splits)

lemma stale_inflight_timeout [simp]:
  "svc_inflight_timeout (stale_stream_cleanup env svc) = svc_inflight_timeout svc"
proof -
  have "svc_inflight_timeout (fold (\<lambda>m. send_controller env (f m) (g m)) ms svc) = svc_inflight_timeout svc"
    for f g and ms :: "stream_mapping list" and svc
    by (induction ms arbitrary: svc) auto
  then show ?thesis by (simp add: stale_stream_cleanup_def case_prod_unfold Let_def)
qed

lemma device_turn_inflight_timeout:
  "svc_inflight_timeout (sys_svc (device_turn env ch ev ds s)) = svc_inflight_timeout (sys_svc s)"
  by (simp add: device_turn_def case_prod_unfold split: loop_ctl.split)

lemma sys_step_inflight_timeout:
  assumes "sys_step env ev s = Some s1"
  shows "svc_inflight_timeout (sys_svc s1) = svc_inflight_timeout (sys_svc s)"
  using assms
proof (cases rule: sys_step_cases)
  case device_connects
  with open_device_core(1) [of env s] show ?thesis by (simp add: same_core_def)
next
  case (resume ch cs cs1 svc)
  with resume_inflight_timeout [OF resume(3)] show ?thesis by simp
qed (simp_all add: device_turn_inflight_timeout open_controller_core controller_turn_core
    end_controller_def same_core_def)

definition timed :: "relay_state \<Rightarrow> timer list \<Rightarrow> bool" where
  "timed st ts \<longleftrightarrow>
     (\<forall>k. map_of (inflight_by_sequence st) k \<noteq> None \<longrightarrow> (\<exists>t \<in> set ts. (tm_device_id t, tm_seq t) = k))"

lemma timed_less:
  assumes "timed st ts" "\<And>k. map_of (inflight_by_sequence st1) k \<noteq> None \<Longrightarrow> map_of (inflight_by_sequence st) k \<noteq> None"
  shows "timed st1 ts"
  using assms unfolding timed_def by blast

lemma device_turn_requests:
  assumes "waiters_wf (svc_state (sys_svc s))"
    "map_of (inflight_by_sequence (svc_state (sys_svc (device_turn env ch ev ds s)))) k \<noteq> None"
  shows "map_of (inflight_by_sequence (svc_state (sys_svc s))) k \<noteq> None"
proof -
  let ?svc = "snd (snd (device_event_step env ev ds (sys_svc s)))"
  have step: "map_of (inflight_by_sequence (svc_state ?svc)) k \<noteq> None
      \<Longrightarrow> map_of (inflight_by_sequence (svc_state (sys_svc s))) k \<noteq> None"
    by (cases rule: device_event_state [of env ev ds "sys_svc s"]) (auto split: if_splits)
  have "state_moves (sys_answers s @ answers_of ev ds) (svc_state (sys_svc s)) (svc_state ?svc)"
    by (rule device_event_moves) simp
  then have wf: "waiters_wf (svc_state ?svc)" using assms(1) by (rule moves_waiters)
  show ?thesis
  proof (cases "fst (device_event_step env ev ds (sys_svc s))")
    case LContinue
    with assms(2) step show ?thesis by (simp add: device_turn_def case_prod_unfold)
  next
    case (LBreak reason)
    with assms(2) have "map_of (inflight_by_sequence (svc_state (device_stream_cleanup env reason
        (fst (snd (device_event_step env ev ds (sys_svc s)))) ?svc))) k \<noteq> None"
      by (simp add: device_turn_def case_prod_unfold)
    then have "map_of (inflight_by_sequence (svc_state ?svc)) k \<noteq> None"
      by (auto simp: cleanup_state Let_def fail_inflight_lookup [OF wf] split: option.splits if_splits)
    then show ?thesis by (rule step)
  qed
qed

lemma request_timed:
  assumes "timed (svc_state svc) (svc_timers svc)"
  shows "timed (svc_state (snd (ctl_request env msg cs svc))) (svc_timers (snd (ctl_request env msg cs svc)))"
proof -
  have reg: "timed (registered msg (svc_state svc)) (svc_timers svc @ [timeout_of env msg svc])"
    using assms by (auto simp: timed_def registered_def ensure_inflight_eq timeout_of_def)
  have off: "timed (ended_offline msg (registered msg (svc_state svc))) (svc_timers svc @ [timeout_of env msg svc])"
    using reg by (rule timed_less) (auto simp: ended_offline_def split: if_splits)
  show ?thesis
  proof (cases rule: request_cases [of env msg svc])
    case (hit r)
    with assms show ?thesis by (simp add: request_hit)
  next
    case join
    have "timed (registered msg (svc_state svc)) (svc_timers svc)"
      using assms join(2) by (auto simp: timed_def registered_def ensure_inflight_eq joins_def)
    with join show ?thesis by (simp add: request_join)
  next
    case offline
    note r = request_offline [OF offline]
    from off show ?thesis by (simp only: r)
  next
    case (limited x)
    with reg show ?thesis by (simp add: request_limited)
  next
    case (sent x)
    with reg show ?thesis by (simp add: request_sent)
  qed
qed

lemma message_step_timed:
  assumes "timed (svc_state svc) (svc_timers svc)"
  shows "timed (svc_state (snd (controller_message_step env msg cs svc)))
    (svc_timers (snd (controller_message_step env msg cs svc)))"
proof (cases "serves env msg cs svc")
  case True
  have "timed (svc_state (snd (snd (ctl_bind env msg cs svc)))) (svc_timers (snd (snd (ctl_bind env msg cs svc))))"
    using assms by (simp add: timed_def ctl_bind_facts(4,5))
  then show ?thesis unfolding message_step_served [OF True] by (rule request_timed)
next
  case False
  with assms show ?thesis
    by (simp add: message_step_refused_state(1) message_step_refused(3)) (simp add: timed_def)
qed

definition timers_ok :: "'c relay_system \<Rightarrow> bool" where
  "timers_ok s \<longleftrightarrow> timed (svc_state (sys_svc s)) (svc_timers (sys_svc s))
     \<and> svc_inflight_timeout (sys_svc s) = from_secs 60
     \<and> (\<forall>t \<in> set (svc_timers (sys_svc s)). tm_due t \<le> sys_now s + from_secs 60)"

lemma timed_step:
  assumes "sys_step env ev s = Some s1" "timed (svc_state (sys_svc s)) (svc_timers (sys_svc s))"
    "waiters_wf (svc_state (sys_svc s))"
  shows "timed (svc_state (sys_svc s1)) (svc_timers (sys_svc s1))"
  using assms(1)
proof (cases rule: sys_step_cases)
  case device_connects
  with assms(2) open_device_core(1) [of env s] show ?thesis by (simp add: same_core_def)
next
  case (device ch dev ds)
  have "svc_timers (sys_svc s1) = svc_timers (sys_svc s)"
    by (simp add: device device_turn_def case_prod_unfold split: loop_ctl.split)
  with timed_less [OF assms(2), of "svc_state (sys_svc s1)"] device_turn_requests [OF assms(3)]
  show ?thesis by (simp add: device)
next
  case controller_connects
  with assms(2) show ?thesis by (simp add: open_controller_core)
next
  case (controller ch msg cs)
  with message_step_timed [OF assms(2)] show ?thesis by (simp add: controller_turn_core)
next
  case (resume ch cs cs1 svc)
  with assms(2) resume_frame [OF resume(3)] show ?thesis by simp
next
  case (ends ch failed cs)
  with assms(2) show ?thesis by (simp add: end_controller_core timed_def)
next
  case (timeout t)
  show ?thesis
    unfolding timed_def
  proof (intro allI impI)
    fix k
    assume k: "map_of (inflight_by_sequence (svc_state (sys_svc s1))) k \<noteq> None"
    then have "k \<noteq> (tm_device_id t, tm_seq t)" "map_of (inflight_by_sequence (svc_state (sys_svc s))) k \<noteq> None"
      by (auto simp: timeout split: if_splits)
    with assms(2) obtain t' where "t' \<in> set (svc_timers (sys_svc s))" "(tm_device_id t', tm_seq t') = k" "t' \<noteq> t"
      unfolding timed_def by blast
    then show "\<exists>t \<in> set (svc_timers (sys_svc s1)). (tm_device_id t, tm_seq t) = k"
      by (auto simp: timeout in_set_remove1 intro!: bexI [of _ t'])
  qed
next
  case cleanup
  with assms(2) show ?thesis by simp
next
  case (call svc)
  with assms(2) show ?thesis by (simp add: same_core_def)
qed

lemma message_step_due:
  assumes "t \<in> set (svc_timers (snd (controller_message_step env msg cs svc)))"
  shows "t \<in> set (svc_timers svc) \<or> tm_due t = env_now env + svc_inflight_timeout svc"
proof (cases "serves env msg cs svc")
  case True
  let ?svc = "snd (snd (ctl_bind env msg cs svc))"
  from assms have "t \<in> set (svc_timers ?svc) \<or> t = timeout_of env msg ?svc"
    unfolding message_step_served [OF True]
    by (cases rule: request_cases [of env msg ?svc])
      (auto simp: request_hit request_join request_offline request_limited request_sent)
  then show ?thesis by (auto simp: ctl_bind_facts(5) timeout_of_def)
next
  case False
  with assms show ?thesis by (simp add: message_step_refused(3))
qed

lemma timers_step:
  assumes "sys_step env ev s = Some s1" "t \<in> set (svc_timers (sys_svc s1))"
  shows "t \<in> set (svc_timers (sys_svc s)) \<or> tm_due t = sys_now s1 + svc_inflight_timeout (sys_svc s)"
  using assms(1)
proof (cases rule: sys_step_cases)
  case device_connects
  with assms(2) open_device_core(1) [of env s] show ?thesis by (simp add: same_core_def)
next
  case (device ch dev ds)
  with assms(2) show ?thesis
    by (simp add: device_turn_def case_prod_unfold split: loop_ctl.splits)
next
  case (controller ch msg cs)
  with assms(2) have "t \<in> set (svc_timers (snd (controller_message_step env msg cs (sys_svc s))))"
    by (simp add: controller_turn_core)
  from message_step_due [OF this] controller(4) show ?thesis by simp
next
  case (resume ch cs cs1 svc)
  with assms(2) resume_frame [OF resume(3)] show ?thesis by simp
next
  case (timeout t')
  with assms(2) set_remove1_subset [of t' "svc_timers (sys_svc s)"] show ?thesis by auto
qed (use assms(2) in \<open>simp_all add: open_controller_core end_controller_core same_core_def\<close>)

lemma reach_timers_ok:
  assumes "relay_reach ops svc0 n s" "fresh_service ops svc0" "n < 2 ^ 64 - 1"
  shows "timers_ok s"
  using assms
proof (induction rule: relay_reach.induct)
  case reach_start
  then show ?case
    by (auto simp: relay_system_new_def timers_ok_def timed_def relay_state_new_def elim!: fresh_serviceE)
next
  case (reach_step n s env ev s1)
  have "waiters_wf (svc_state (sys_svc s))"
    using reach_state_ok [OF reach_step.hyps(1)] reach_step.prems by (simp add: state_ok_def state_wf_def)
  moreover have "timers_ok s" using reach_step by simp
  ultimately show ?case
    using timed_step [OF reach_step.hyps(3)] timers_step [OF reach_step.hyps(3)]
      sys_step_time [OF reach_step.hyps(3)] sys_step_inflight_timeout [OF reach_step.hyps(3)]
    by (fastforce simp: timers_ok_def)
qed

section \<open>The cache and the responses are genuine\<close>

lemma cache_all_mono:
  "cache_all holds P ic \<Longrightarrow> (\<And>k v. P k v \<Longrightarrow> Q k v) \<Longrightarrow> cache_all holds Q ic"
  by (auto simp: cache_all_def)

definition response_ok ::
  "(string \<times> int \<times> bytes \<times> int) list \<Rightarrow> (chan \<times> string \<times> int) list \<Rightarrow> out_msg \<Rightarrow> bool" where
  "response_ok ans served x \<longleftrightarrow>
     (case x of
        ToDevice _ _ \<Rightarrow> True
      | ToController ch r \<Rightarrow>
          (\<exists>d sq e. r = error_resp d sq e)
          \<or> (\<exists>d sq p e. (d, sq, p, e) \<in> set ans \<and> (ch, d, sq) \<in> set served
                \<and> r = device_response_from_device_data d sq p e))"

definition answers_ok :: "('c \<Rightarrow> string \<times> int \<Rightarrow> device_response \<Rightarrow> bool) \<Rightarrow> 'c relay_system \<Rightarrow> bool" where
  "answers_ok holds s \<longleftrightarrow>
     cache_all holds (genuine (sys_answers s)) (svc_cache (sys_svc s))
     \<and> (\<forall>x \<in> set (svc_out (sys_svc s)). response_ok (sys_answers s) (sys_served s) x)"

lemma response_ok_mono:
  "response_ok ans served x \<Longrightarrow> set ans \<subseteq> set ans' \<Longrightarrow> set served \<subseteq> set served' \<Longrightarrow> response_ok ans' served' x"
  unfolding response_ok_def by (cases x) (simp_all, blast)

lemma response_ok_error [simp]: "response_ok ans served (ToController ch (error_resp d sq e))"
  by (auto simp: response_ok_def)

lemma response_ok_device [simp]: "response_ok ans served (ToDevice ch m)"
  by (simp add: response_ok_def)

lemma response_ok_genuine:
  "genuine ans (d, sq) r \<Longrightarrow> (ch, d, sq) \<in> set served \<Longrightarrow> response_ok ans served (ToController ch r)"
  unfolding response_ok_def genuine_def fst_conv snd_conv out_msg.case by blast

lemma only_replies_ok: "only_replies ch outs \<Longrightarrow> x \<in> set outs \<Longrightarrow> response_ok ans served x"
  unfolding only_replies_def by force

text \<open>What a message makes the relay send: replies with errors, or the cached answer, or the request.\<close>

lemma message_step_out:
  assumes "lru_documented (env_lru env) holds" "cache_all holds (genuine ans) (svc_cache svc)"
    and "x \<in> set (svc_out (snd (controller_message_step env msg cs svc)))"
  shows "x \<in> set (svc_out svc) \<or> (\<exists>d sq e. x = ToController (cst_out_tx cs) (error_resp d sq e))
    \<or> (\<exists>ch m. x = ToDevice ch m)
    \<or> serves env msg cs svc \<and> (\<exists>r. x = ToController (cst_out_tx cs) r
        \<and> genuine ans (cmsg_target_device_id msg, cmsg_sequence_number msg) r)"
proof (cases "serves env msg cs svc")
  case True
  let ?cs = "fst (snd (ctl_bind env msg cs svc))" and ?svc = "snd (snd (ctl_bind env msg cs svc))"
  have out: "svc_out ?svc = svc_out svc"
    using True ctl_bind_out [of env msg cs svc] by (auto simp: serves_def adds_replies_def)
  have x: "x \<in> set (svc_out (snd (ctl_request env msg ?cs ?svc)))"
    using assms(3) by (simp add: message_step_served [OF True])
  note get = cache_all_get(2) [OF assms(1,2)]
  show ?thesis
  proof (cases rule: request_cases [of env msg ?svc])
    case (hit r)
    have "fst (cache_get (env_lru env) (env_now env) (cmsg_target_device_id msg) (cmsg_sequence_number msg)
        (svc_cache svc)) = Some r"
      using hit by (simp add: cache_lookup_def ctl_bind_facts(6))
    from get [OF this] x show ?thesis
      by (auto simp: request_hit [OF hit] out ctl_bind_facts(2) True split: if_splits)
  next
    case join
    with x show ?thesis by (simp add: request_join out)
  next
    case offline
    from x show ?thesis unfolding request_offline(4) [OF offline] out by simp
  next
    case (limited y)
    with x show ?thesis by (auto simp: request_limited out ctl_bind_facts(2) split: if_splits)
  next
    case (sent y)
    with x show ?thesis by (auto simp: request_sent out)
  qed
next
  case False
  with message_step_refused(1) [OF False] assms(3) show ?thesis
    by (auto simp: adds_replies_def only_replies_def)
qed

lemma message_step_cache:
  assumes "lru_documented (env_lru env) holds" "cache_all holds P (svc_cache svc)"
  shows "cache_all holds P (svc_cache (snd (controller_message_step env msg cs svc)))"
proof (cases "serves env msg cs svc")
  case True
  with assms show ?thesis
    by (simp add: message_step_served request_frame(5) ctl_bind_facts(6) cache_all_get(1))
next
  case False
  with assms show ?thesis by (simp add: message_step_refused(4))
qed

text \<open>The answer to a waiting stream is the one that was sent to its waiter.\<close>

lemma resume_answer:
  assumes "waiters_wf (svc_state svc)" "cst_waiting cs = Some p"
    and "owed ans (svc_state svc) (pr_rx p) (request_key p)"
    and "controller_resume env cs svc = Some (cs1, svc1)"
  obtains r where "genuine ans (request_key p) r" "(cs1, svc1) = controller_response_ok env p r cs svc"
proof -
  obtain r where "map_of (oneshot_sent (svc_state svc)) (pr_rx p) = Some r"
    using assms(4) owed_not_dropped [OF assms(1,3)]
    by (auto simp: controller_resume_def assms(2) split: option.splits if_splits)
  moreover from this assms(3) waiters_wfD(2) [OF assms(1), of "pr_rx p" "request_key p"]
  have "genuine ans (request_key p) r" by (auto simp: owed_def)
  ultimately show ?thesis using assms(2,4) that by (auto simp: controller_resume_def)
qed

lemma device_turn_out:
  assumes "x \<in> set (svc_out (sys_svc (device_turn env ch ev ds s)))"
  shows "x \<in> set (svc_out (sys_svc s)) \<or> response_ok ans served x"
proof -
  let ?svc = "snd (snd (device_event_step env ev ds (sys_svc s)))"
  have step: "x \<in> set (svc_out ?svc) \<Longrightarrow> x \<in> set (svc_out (sys_svc s)) \<or> response_ok ans served x" for x
    using device_event_out [of "sys_svc s" env ev ds] by (fastforce simp: sends_to_devices_def to_devices_def)
  show ?thesis
  proof (cases "fst (device_event_step env ev ds (sys_svc s))")
    case LContinue
    with assms step show ?thesis by (simp add: device_turn_def case_prod_unfold)
  next
    case (LBreak reason)
    with assms step show ?thesis
      by (auto simp: device_turn_def case_prod_unfold cleanup_out split: option.splits)
  qed
qed

lemma stale_cleanup_out:
  assumes "x \<in> set (svc_out (stale_stream_cleanup env svc))"
  shows "x \<in> set (svc_out svc) \<or> response_ok ans served x"
proof -
  have "x \<in> set (svc_out (fold (\<lambda>m. send_controller env (sm_controller_tx m)
      (error_resp (sm_device_id m) 0 DEVICE_OFFLINE)) ms svc)) \<Longrightarrow>
      x \<in> set (svc_out svc) \<or> response_ok ans served x" for ms svc
  proof (induction ms arbitrary: svc)
    case (Cons m ms)
    then show ?case by (fastforce simp: out_sends split: if_splits)
  qed simp
  from this [of _ "svc\<lparr>svc_stream_router := snd (cleanup_stale (env_now env) (svc_stream_router svc))\<rparr>"] assms
  show ?thesis by (auto simp: stale_stream_cleanup_def case_prod_unfold Let_def)
qed

lemma answers_ok_step:
  assumes step: "sys_step env ev s = Some s1" and lru: "lru_documented (env_lru env) holds"
    and ok: "answers_ok holds s" "waiters_ok s" "channels_ok s" "waiters_wf (svc_state (sys_svc s))"
  shows "answers_ok holds s1"
proof -
  note mono = sys_step_moves(2,3) [OF step]
  have cache: "cache_all holds (genuine (sys_answers s)) (svc_cache (sys_svc s))"
    and out: "\<And>x. x \<in> set (svc_out (sys_svc s)) \<Longrightarrow> response_ok (sys_answers s1) (sys_served s1) x"
    using ok(1) response_ok_mono [OF _ mono] by (auto simp: answers_ok_def)
  have cache1: "cache_all holds (genuine (sys_answers s)) c \<Longrightarrow> cache_all holds (genuine (sys_answers s1)) c" for c
    by (erule cache_all_mono) (rule genuine_mono [OF _ mono(1)])
  from step show ?thesis
  proof (cases rule: sys_step_cases)
    case device_connects
    with cache1 [OF cache] out open_device_core(1) [of env s] show ?thesis
      by (simp add: same_core_def answers_ok_def)
  next
    case (device ch dev ds)
    have "svc_cache (sys_svc s1) = svc_cache (sys_svc s)"
      by (simp add: device device_turn_def case_prod_unfold split: loop_ctl.split)
    with cache1 [OF cache] out device show ?thesis
      by (auto simp: answers_ok_def dest: device_turn_out)
  next
    case controller_connects
    with cache1 [OF cache] out show ?thesis by (simp add: answers_ok_def open_controller_core)
  next
    case (controller ch msg cs)
    have "cst_out_tx cs = ch" using controller(2) ok(3) by (simp add: channels_ok_def)
    have "response_ok (sys_answers s1) (sys_served s1) x" if "x \<in> set (svc_out (sys_svc s1))" for x
    proof -
      from that have "x \<in> set (svc_out (snd (controller_message_step env msg cs (sys_svc s))))"
        by (simp add: controller(4) controller_turn_core)
      from message_step_out [OF lru cache this] show ?thesis
        using out [of x] \<open>cst_out_tx cs = ch\<close>
        by (auto simp: controller(4) controller_turn_core intro: response_ok_genuine)
    qed
    with message_step_cache [OF lru cache] show ?thesis
      by (simp add: answers_ok_def controller(4) controller_turn_core)
  next
    case (resume ch cs cs1 svc)
    obtain p where p: "cst_waiting cs = Some p"
      using resume(3) by (auto simp: controller_resume_def split: option.splits)
    with resume(2) ok(2) have o: "owed (sys_answers s) (svc_state (sys_svc s)) (pr_rx p) (request_key p)"
      "(ch, request_key p) \<in> set (sys_served s)" by (auto simp: waiters_ok_def)
    obtain r where r: "genuine (sys_answers s) (request_key p) r"
      "(cs1, svc) = controller_response_ok env p r cs (sys_svc s)"
      by (rule resume_answer [OF ok(4) p o(1) resume(3)])
    have svc: "svc = snd (controller_response_ok env p r cs (sys_svc s))" using r(2) by (metis snd_conv)
    have "cst_out_tx cs = ch" using resume(2) ok(3) by (simp add: channels_ok_def)
    moreover have "cache_all holds (genuine (sys_answers s)) (svc_cache svc)"
      using cache r(1) lru
      by (simp add: svc response_ok_facts(4) request_key_def cache_all_insert)
    ultimately show ?thesis
      using out r(1) o(2) resume(4)
      by (auto simp: answers_ok_def svc response_ok_facts(5) request_key_def
          intro: response_ok_genuine split: if_splits)
  next
    case (ends ch failed cs)
    with cache1 [OF cache] out show ?thesis by (simp add: answers_ok_def end_controller_core)
  next
    case (timeout t)
    with cache1 [OF cache] out show ?thesis by (simp add: answers_ok_def)
  next
    case cleanup
    with cache1 [OF cache] out show ?thesis by (auto simp: answers_ok_def dest: stale_cleanup_out)
  next
    case (call svc)
    with cache1 [OF cache] out show ?thesis by (simp add: answers_ok_def same_core_def)
  qed
qed

lemma reach_answers_ok:
  assumes "relay_reach ops svc0 n s" "fresh_service ops svc0" "n < 2 ^ 64 - 1" "lru_documented ops holds"
  shows "answers_ok holds s"
  using assms
proof (induction rule: relay_reach.induct)
  case reach_start
  then show ?case
    by (auto simp: relay_system_new_def answers_ok_def cache_all_new elim!: fresh_serviceE)
next
  case (reach_step n s env ev s1)
  have "waiters_wf (svc_state (sys_svc s))" "waiters_ok s \<and> channels_ok s"
    using reach_state_ok [OF reach_step.hyps(1)] reach_waiters_ok [OF reach_step.hyps(1)] reach_step.prems
    by (simp_all add: state_ok_def state_wf_def)
  with reach_step show ?case by (auto intro!: answers_ok_step [OF reach_step.hyps(3)])
qed

section \<open>Every wait ends\<close>

text \<open>Once the answer has been sent to the waiter, the stream goes on.\<close>

lemma resume_sent:
  assumes "map_of (sys_controllers s) ch = Some cs" "cst_waiting cs = Some p" "channels_ok s"
    and "map_of (oneshot_sent (svc_state (sys_svc s))) (pr_rx p) = Some r" "sys_now s \<le> env_now env"
  obtains s1 where "sys_step env (ControllerResumes ch) s = Some s1"
    "map_of (sys_controllers s1) ch = Some (cs\<lparr>cst_waiting := None\<rparr>)"
    "svc_out (sys_svc s1) = svc_out (sys_svc s) @ (if env_closed env ch then [] else [ToController ch r])"
proof (rule that)
  have "cst_out_tx cs = ch" using assms(1,3) by (simp add: channels_ok_def)
  let ?s = "s\<lparr>sys_svc := snd (controller_response_ok env p r cs (sys_svc s)),
    sys_controllers := AList.update ch (cs\<lparr>cst_waiting := None\<rparr>) (sys_controllers s), sys_now := env_now env\<rparr>"
  show "sys_step env (ControllerResumes ch) s = Some ?s"
    using assms by (simp add: sys_step_def controller_resume_def case_prod_unfold response_ok_facts(3))
  show "map_of (sys_controllers ?s) ch = Some (cs\<lparr>cst_waiting := None\<rparr>)" by simp
  show "svc_out (sys_svc ?s) = svc_out (sys_svc s) @ (if env_closed env ch then [] else [ToController ch r])"
    using \<open>cst_out_tx cs = ch\<close> by (simp add: response_ok_facts(5))
qed

lemma waiting_timed:
  assumes "timers_ok s" "waiting (svc_state (sys_svc s)) w k"
  obtains t where "t \<in> set (svc_timers (sys_svc s))" "(tm_device_id t, tm_seq t) = k"
    "tm_due t \<le> sys_now s + from_secs 60"
proof -
  have "map_of (inflight_by_sequence (svc_state (sys_svc s))) k \<noteq> None"
    using assms(2) by (auto simp: waiting_def)
  then obtain t where "t \<in> set (svc_timers (sys_svc s))" "(tm_device_id t, tm_seq t) = k"
    using assms(1) unfolding timers_ok_def timed_def by blast
  with assms(1) that show ?thesis unfolding timers_ok_def by blast
qed

text \<open>The timeout of a request sends an answer to each of its waiters.\<close>

lemma timeout_answers:
  assumes "waiting (svc_state (sys_svc s)) w k" "t \<in> set (svc_timers (sys_svc s))"
    "(tm_device_id t, tm_seq t) = k" "tm_due t \<le> env_now env" "sys_now s \<le> env_now env"
  obtains s1 where "sys_step env (TimeoutFires t) s = Some s1"
    "map_of (oneshot_sent (svc_state (sys_svc s1))) w = Some (error_resp (fst k) (snd k) DEVICE_OFFLINE)"
    "sys_controllers s1 = sys_controllers s" "svc_out (sys_svc s1) = svc_out (sys_svc s)"
    "sys_now s1 = env_now env" "sys_next_chan s1 = sys_next_chan s"
proof (rule that)
  let ?s = "s\<lparr>sys_svc := fire_timer t ((sys_svc s)\<lparr>svc_timers := remove1 t (svc_timers (sys_svc s))\<rparr>),
    sys_now := env_now env\<rparr>"
  show "sys_step env (TimeoutFires t) s = Some ?s" using assms by (simp add: sys_step_def)
  show "map_of (oneshot_sent (svc_state (sys_svc ?s))) w = Some (error_resp (fst k) (snd k) DEVICE_OFFLINE)"
    using assms(1) unfolding assms(3) [symmetric] by (simp add: take_and_complete_sent)
qed simp_all

end
