(* ===== verification/System_Streams.thy ===== *)
theory System_Streams
  imports System_Answers
begin

text \<open>
  The stream table and the connection gauge in every reachable state of the relay: every stream
  of the table belongs to exactly one open controller stream and counts its running request,
  and the gauge of controller connections is the number of authenticated controller streams.
\<close>

section \<open>Counting entries\<close>

definition dm_count :: "('v \<Rightarrow> bool) \<Rightarrow> ('k, 'v) dashmap \<Rightarrow> nat" where
  "dm_count P m = length (filter (\<lambda>e. P (snd e)) m)"

definition counted :: "('v \<Rightarrow> bool) \<Rightarrow> 'v option \<Rightarrow> nat" where
  "counted P x = (case x of None \<Rightarrow> 0 | Some v \<Rightarrow> if P v then 1 else 0)"

lemma dm_count_absent: "k \<notin> fst ` set m \<Longrightarrow> AList.delete k m = m"
  by (induction m) (auto simp: AList.delete_eq)

lemma dm_count_update:
  "dm_wf m \<Longrightarrow> dm_count P (AList.update k v m) + counted P (map_of m k) = dm_count P m + counted P (Some v)"
proof (induction m)
  case (Cons e m)
  then show ?case by (cases e) (auto simp: dm_count_def counted_def dm_wf_def map_of_eq_None_iff split: option.splits)
qed (simp add: dm_count_def counted_def)

lemma dm_count_delete:
  "dm_wf m \<Longrightarrow> dm_count P (AList.delete k m) + counted P (map_of m k) = dm_count P m"
proof (induction m)
  case (Cons e m)
  have "k = fst e \<Longrightarrow> AList.delete k m = m"
    using Cons.prems by (intro dm_count_absent) (auto simp: dm_wf_def)
  with Cons show ?case by (cases e) (auto simp: dm_count_def counted_def dm_wf_def)
qed (simp add: dm_count_def counted_def)

section \<open>The gauge of controller connections\<close>

definition gauge_ok :: "nat \<Rightarrow> 'c relay_system \<Rightarrow> bool" where
  "gauge_ok n s \<longleftrightarrow> dm_wf (sys_controllers s)
     \<and> unat (controller_connection_count (svc_state (sys_svc s)))
         = dm_count cst_controller_connected (sys_controllers s)
     \<and> dm_count cst_controller_connected (sys_controllers s) \<le> n"

lemma controller_connection_frame [simp]:
  "controller_connection_count (snd (ensure_inflight_waiter sq d st)) = controller_connection_count st"
  "controller_connection_count (st\<lparr>device_last_seen := x\<rparr>) = controller_connection_count st"
  by (simp_all add: ensure_inflight_eq)

lemma request_gauge:
  "controller_connection_count (svc_state (snd (ctl_request env msg cs svc))) =
     controller_connection_count (svc_state svc)"
  by (cases rule: request_cases [of env msg svc])
    (simp_all add: request_hit request_join request_offline request_limited request_sent
      registered_def ended_offline_def)

lemma message_step_gauge:
  "controller_connection_count (svc_state (snd (controller_message_step env msg cs svc))) =
     controller_connection_count (svc_state svc) +
       (if cst_controller_connected (fst (controller_message_step env msg cs svc))
          \<and> \<not> cst_controller_connected cs then 1 else 0)"
  "cst_controller_connected cs \<Longrightarrow> cst_controller_connected (fst (controller_message_step env msg cs svc))"
proof -
  show "controller_connection_count (svc_state (snd (controller_message_step env msg cs svc))) =
     controller_connection_count (svc_state svc) +
       (if cst_controller_connected (fst (controller_message_step env msg cs svc))
          \<and> \<not> cst_controller_connected cs then 1 else 0)"
  proof (cases "serves env msg cs svc")
    case True
    then show ?thesis
      by (simp add: message_step_served request_gauge request_frame(4) ctl_bind_facts(4)
          controller_gauge.reading_inc)
  next
    case False
    then show ?thesis by (simp add: message_step_refused_state(1) controller_gauge.reading_inc)
  qed
  show "cst_controller_connected cs \<Longrightarrow> cst_controller_connected (fst (controller_message_step env msg cs svc))"
    by (cases "serves env msg cs svc")
      (simp_all add: message_step_served request_frame(4) ctl_bind_facts(3) message_step_refused_state(2))
qed

lemma device_turn_gauge:
  "controller_connection_count (svc_state (sys_svc (device_turn env ch ev ds s))) =
     controller_connection_count (svc_state (sys_svc s))"
proof -
  have step: "controller_connection_count (svc_state (snd (snd (device_event_step env ev ds svc)))) =
      controller_connection_count (svc_state svc)" for svc
    by (cases rule: device_event_state [of env ev ds svc]) simp_all
  have "controller_connection_count (svc_state (device_stream_cleanup env r ds svc)) =
      controller_connection_count (svc_state svc)" for r ds svc
    by (simp add: cleanup_state Let_def split: option.split)
  with step show ?thesis by (simp add: device_turn_def case_prod_unfold split: loop_ctl.split)
qed

lemma gauge_ok_same:
  assumes "gauge_ok n s" "sys_controllers s1 = sys_controllers s"
    "controller_connection_count (svc_state (sys_svc s1)) = controller_connection_count (svc_state (sys_svc s))"
  shows "gauge_ok (Suc n) s1"
  using assms by (simp add: gauge_ok_def)

lemma fresh_chan: "channels_ok s \<Longrightarrow> map_of (sys_controllers s) (sys_next_chan s) = None"
  unfolding channels_ok_def by (metis less_irrefl not_None_eq)

lemma gauge_ok_step:
  assumes "sys_step env ev s = Some s1" "gauge_ok n s" "Suc n < 2 ^ 64 - 1" "channels_ok s"
  shows "gauge_ok (Suc n) s1"
proof -
  have wf: "dm_wf (sys_controllers s)"
    and eq: "unat (controller_connection_count (svc_state (sys_svc s)))
         = dm_count cst_controller_connected (sys_controllers s)"
    and le: "dm_count cst_controller_connected (sys_controllers s) \<le> n"
    using assms(2) by (simp_all add: gauge_ok_def)
  note up = dm_count_update [OF wf, of cst_controller_connected]
    and del = dm_count_delete [OF wf, of cst_controller_connected]
  from assms(1) show ?thesis
  proof (cases rule: sys_step_cases)
    case device_connects
    with open_device_core(1) [of env s] show ?thesis
      by (intro gauge_ok_same [OF assms(2)]) (simp_all add: same_core_def open_device_core(2))
  next
    case (device ch dev ds)
    then show ?thesis
      by (intro gauge_ok_same [OF assms(2)]) (simp_all add: device_turn_core device_turn_gauge)
  next
    case controller_connects
    have "map_of (sys_controllers s) (sys_next_chan s) = None"
      using assms(4) fresh_chan by blast
    with up [of "sys_next_chan s" "controller_stream_new (env_now env) (sys_next_chan s)"] wf eq le
      controller_connects show ?thesis
      by (simp add: gauge_ok_def open_controller_core counted_def controller_stream_new_def)
  next
    case (controller ch msg cs)
    let ?c1 = "fst (controller_message_step env msg cs (sys_svc s))"
    have "unat (controller_connection_count (svc_state (sys_svc s)) + 1)
        = Suc (dm_count cst_controller_connected (sys_controllers s))"
      using eq le assms(3) by (simp add: unat_inc_u64)
    with up [of ch ?c1] wf eq le controller message_step_gauge(1) [of env msg cs "sys_svc s"]
      message_step_gauge(2) [of cs env msg "sys_svc s"] show ?thesis
      by (auto simp: gauge_ok_def controller_turn_core counted_def split: if_splits)
  next
    case (resume ch cs cs1 svc)
    with up [of ch cs1] wf eq le resume_frame [OF resume(3)] show ?thesis
      by (auto simp: gauge_ok_def counted_def split: if_splits)
  next
    case (ends ch failed cs)
    with del [of ch] wf eq le show ?thesis
      by (auto simp: gauge_ok_def end_controller_core counted_def controller_gauge.dec_no_underflow split: if_splits)
  next
    case (call svc)
    then show ?thesis by (intro gauge_ok_same [OF assms(2)]) (simp_all add: same_core_def)
  qed (auto intro!: gauge_ok_same [OF assms(2)])
qed

lemma reach_gauge_ok:
  assumes "relay_reach ops svc0 n s" "fresh_service ops svc0" "n < 2 ^ 64 - 1"
  shows "gauge_ok n s"
  using assms
proof (induction rule: relay_reach.induct)
  case reach_start
  then show ?case
    by (auto simp: relay_system_new_def gauge_ok_def relay_state_new_def dm_count_def elim!: fresh_serviceE)
next
  case (reach_step n s env ev s1)
  then show ?case
    using reach_waiters_ok [OF reach_step.hyps(1)] by (auto intro: gauge_ok_step)
qed

section \<open>Effect of a turn on the stream table\<close>

lemma update_mapping_lookup:
  "map_of (sr_mappings (update_mapping sid f r)) x =
     (if x = sid then map_option f (map_of (sr_mappings r) sid) else map_of (sr_mappings r) x)"
  "sr_counter (update_mapping sid f r) = sr_counter r"
  by (auto simp: update_mapping_def split: option.split)

lemma request_ops_inv:
  "router_inv r \<Longrightarrow> router_inv (begin_request now sid r)"
  "router_inv r \<Longrightarrow> router_inv (finish_request now sid r)"
  "sr_counter (begin_request now sid r) = sr_counter r"
  "sr_counter (finish_request now sid r) = sr_counter r"
  by (simp_all add: router_inv_def begin_request_def finish_request_def update_mapping_wf
      update_mapping_caps update_mapping_lookup(2))

text \<open>The part of a mapping that says whose it is and whether a request runs on it.\<close>

definition mapping_of :: "chan \<Rightarrow> controller_stream \<Rightarrow> stream_mapping \<Rightarrow> bool" where
  "mapping_of ch cs m \<longleftrightarrow> sm_controller_tx m = ch
     \<and> cst_stream_binding cs = Some (sm_device_id m, sm_controller_id m, sm_method_name m)
     \<and> sm_active_requests m = (if cst_waiting cs = None then 0 else 1)"

text \<open>
  What one stream does to the table: it may enter its own stream under a fresh id and update the
  mapping of its own stream.
\<close>

definition stream_turn ::
  "chan \<Rightarrow> controller_stream \<Rightarrow> controller_stream \<Rightarrow> stream_router \<Rightarrow> stream_router \<Rightarrow> bool" where
  "stream_turn ch cs cs' r r' \<longleftrightarrow>
     (cst_stream_id cs' = cst_stream_id cs
        \<or> cst_stream_id cs = None \<and> cst_stream_id cs' = Some (stream_id_of (sr_counter r))
          \<and> sr_counter r' = sr_counter r + 1)
     \<and> (sr_counter r' = sr_counter r \<or> sr_counter r' = sr_counter r + 1)
     \<and> (\<forall>x. cst_stream_id cs' \<noteq> Some x \<longrightarrow> map_of (sr_mappings r') x = map_of (sr_mappings r) x)
     \<and> (\<forall>x m. cst_stream_id cs = Some x \<longrightarrow> map_of (sr_mappings r') x = Some m \<longrightarrow>
          map_of (sr_mappings r) x \<noteq> None)
     \<and> ((\<forall>x m. cst_stream_id cs = Some x \<longrightarrow> map_of (sr_mappings r) x = Some m \<longrightarrow> mapping_of ch cs m) \<longrightarrow>
        (\<forall>x m. cst_stream_id cs' = Some x \<longrightarrow> map_of (sr_mappings r') x = Some m \<longrightarrow> mapping_of ch cs' m))"

lemma stream_turn_bind:
  assumes "cst_waiting cs' = None" "cst_waiting cs = None" "cst_out_tx cs = ch"
    and "binds env msg cs cs' r r' \<or> keeps_streams cs cs' r r'"
  shows "stream_turn ch cs cs' r r'"
  using assms(4)
proof
  assume "binds env msg cs cs' r r'"
  with assms show ?thesis
    by (auto simp: stream_turn_def binds_def mapping_of_def new_mapping_def)
next
  assume "keeps_streams cs cs' r r'"
  with assms show ?thesis by (auto simp: stream_turn_def keeps_streams_def mapping_of_def)
qed

text \<open>Starting a request on the stream, and starting and finishing it at once.\<close>

lemma stream_turn_begin:
  assumes "cst_stream_id cs = Some sid" "cst_waiting cs = None" "cst_waiting cs' \<noteq> None"
    and "cst_stream_id cs' = cst_stream_id cs" "cst_stream_binding cs' = cst_stream_binding cs"
  shows "stream_turn ch cs cs' r (begin_request now sid r)"
  using assms
  by (auto simp: stream_turn_def begin_request_def update_mapping_lookup mapping_of_def)

lemma stream_turn_finish:
  assumes "cst_stream_id cs = Some sid" "cst_waiting cs' = None"
    and "cst_stream_id cs' = cst_stream_id cs" "cst_stream_binding cs' = cst_stream_binding cs"
  shows "stream_turn ch cs cs' r (finish_request now sid r)"
  using assms
  by (auto simp: stream_turn_def finish_request_def update_mapping_lookup mapping_of_def)

lemma stream_turn_both:
  assumes "cst_stream_id cs = Some sid" "cst_waiting cs = None" "cst_waiting cs' = None"
    and "cst_stream_id cs' = cst_stream_id cs" "cst_stream_binding cs' = cst_stream_binding cs"
  shows "stream_turn ch cs cs' r (finish_request now sid (begin_request now sid r))"
  using assms
  by (auto simp: stream_turn_def begin_request_def finish_request_def update_mapping_lookup mapping_of_def)

lemma stream_turn_trans:
  assumes "stream_turn ch cs cs1 r r1" "stream_turn ch cs1 cs' r1 r'"
    "cst_stream_id cs' = cst_stream_id cs1" "sr_counter r' = sr_counter r1"
  shows "stream_turn ch cs cs' r r'"
proof -
  have other: "map_of (sr_mappings r') x = map_of (sr_mappings r) x" if "cst_stream_id cs' \<noteq> Some x" for x
    using assms(1,2) that unfolding stream_turn_def by (metis assms(3))
  have own: "map_of (sr_mappings r) x \<noteq> None"
    if "cst_stream_id cs = Some x" "map_of (sr_mappings r') x = Some m" for x m
    using assms(1,2) that unfolding stream_turn_def by (metis not_None_eq assms(3) option.distinct(1))
  have ok: "(\<forall>x m. cst_stream_id cs = Some x \<longrightarrow> map_of (sr_mappings r) x = Some m \<longrightarrow> mapping_of ch cs m) \<longrightarrow>
        (\<forall>x m. cst_stream_id cs' = Some x \<longrightarrow> map_of (sr_mappings r') x = Some m \<longrightarrow> mapping_of ch cs' m)"
    using assms(1,2) unfolding stream_turn_def by blast
  have "(cst_stream_id cs' = cst_stream_id cs
        \<or> cst_stream_id cs = None \<and> cst_stream_id cs' = Some (stream_id_of (sr_counter r))
          \<and> sr_counter r' = sr_counter r + 1)
     \<and> (sr_counter r' = sr_counter r \<or> sr_counter r' = sr_counter r + 1)"
    using assms(1) unfolding stream_turn_def assms(3,4) by blast
  with other own ok show ?thesis unfolding stream_turn_def by blast
qed

lemma request_stream_turn:
  assumes "cst_waiting cs = None"
  shows "stream_turn ch cs (fst (ctl_request env msg cs svc)) (svc_stream_router svc)
      (svc_stream_router (snd (ctl_request env msg cs svc)))"
    and "sr_counter (svc_stream_router (snd (ctl_request env msg cs svc))) = sr_counter (svc_stream_router svc)"
    and "router_inv (svc_stream_router svc) \<Longrightarrow> router_inv (svc_stream_router (snd (ctl_request env msg cs svc)))"
proof -
  have none: "stream_turn ch cs (fst (ctl_request env msg cs svc)) (svc_stream_router svc) (svc_stream_router svc)"
    if "cst_stream_id cs = None"
    using that by (simp add: stream_turn_def request_frame)
  show "stream_turn ch cs (fst (ctl_request env msg cs svc)) (svc_stream_router svc)
      (svc_stream_router (snd (ctl_request env msg cs svc)))"
  proof (cases "cst_stream_id cs")
    case (Some sid)
    with assms show ?thesis
      by (auto simp: request_router [OF assms] Let_def request_frame
          intro!: stream_turn_begin stream_turn_both)
  qed (simp add: request_router [OF assms] none)
qed (auto simp: request_router [OF assms] Let_def request_ops_inv split: option.split)

lemma message_step_stream_turn:
  assumes "cst_waiting cs = None" "cst_out_tx cs = ch" "router_inv (svc_stream_router svc)"
    "counter_room (svc_stream_router svc)"
  shows "stream_turn ch cs (fst (controller_message_step env msg cs svc)) (svc_stream_router svc)
      (svc_stream_router (snd (controller_message_step env msg cs svc)))"
    and "router_inv (svc_stream_router (snd (controller_message_step env msg cs svc)))"
proof -
  let ?b = "ctl_bind env msg cs svc"
  have bind: "stream_turn ch cs (fst (snd ?b)) (svc_stream_router svc) (svc_stream_router (snd (snd ?b)))"
    using ctl_bind_streams [of env msg cs svc] assms(1,2)
    by (intro stream_turn_bind) (auto simp: ctl_bind_facts(1))
  have inv: "router_inv (svc_stream_router (snd (snd ?b)))"
    using ctl_bind_facts(7) [of env msg cs svc] assms(3,4)
    by (auto simp: router_inv_def create_wf create_caps)
  have w: "cst_waiting (fst (snd ?b)) = None" using assms(1) by (simp add: ctl_bind_facts(1))
  have "stream_turn ch cs (fst (controller_message_step env msg cs svc)) (svc_stream_router svc)
      (svc_stream_router (snd (controller_message_step env msg cs svc)))
    \<and> router_inv (svc_stream_router (snd (controller_message_step env msg cs svc)))"
  proof (cases "serves env msg cs svc")
    case True
    show ?thesis
      unfolding message_step_served [OF True]
      by (intro conjI stream_turn_trans [OF bind request_stream_turn(1) [OF w]]
          request_frame(1) request_stream_turn(2,3) [OF w] inv)
  next
    case False
    have "stream_turn ch cs cs (svc_stream_router svc) (svc_stream_router svc)"
      by (simp add: stream_turn_def)
    with message_step_refused_state(3) [OF False] bind inv assms(3) show ?thesis by force
  qed
  then show "stream_turn ch cs (fst (controller_message_step env msg cs svc)) (svc_stream_router svc)
      (svc_stream_router (snd (controller_message_step env msg cs svc)))"
    "router_inv (svc_stream_router (snd (controller_message_step env msg cs svc)))"
    by blast+
qed

section \<open>Every stream of the table has an owner\<close>

definition owned :: "(chan \<rightharpoonup> controller_stream) \<Rightarrow> stream_router \<Rightarrow> bool" where
  "owned c r \<longleftrightarrow>
     (\<forall>ch cs sid. c ch = Some cs \<longrightarrow> cst_stream_id cs = Some sid \<longrightarrow>
        (\<exists>i. sid = stream_id_of i \<and> i < sr_counter r)
        \<and> (\<forall>m. map_of (sr_mappings r) sid = Some m \<longrightarrow> mapping_of ch cs m))
     \<and> (\<forall>ch ch' cs cs' sid. c ch = Some cs \<longrightarrow> c ch' = Some cs' \<longrightarrow>
          cst_stream_id cs = Some sid \<longrightarrow> cst_stream_id cs' = Some sid \<longrightarrow> ch = ch')
     \<and> (\<forall>sid m. map_of (sr_mappings r) sid = Some m \<longrightarrow>
          (\<exists>ch cs. c ch = Some cs \<and> cst_stream_id cs = Some sid))"

lemma owned_shrink:
  assumes "owned c r" "map_of (sr_mappings r') \<subseteq>\<^sub>m map_of (sr_mappings r)" "sr_counter r' = sr_counter r"
  shows "owned c r'"
proof -
  have sub: "map_of (sr_mappings r') sid = Some m \<Longrightarrow> map_of (sr_mappings r) sid = Some m" for sid m
    using assms(2) by (metis domI map_le_def)
  show ?thesis using assms(1) sub unfolding owned_def assms(3) by blast
qed

lemma ownedD:
  assumes "owned c r"
  shows "c ch = Some cs \<Longrightarrow> cst_stream_id cs = Some sid \<Longrightarrow> \<exists>i. sid = stream_id_of i \<and> i < sr_counter r"
    and "c ch = Some cs \<Longrightarrow> cst_stream_id cs = Some sid \<Longrightarrow> map_of (sr_mappings r) sid = Some m \<Longrightarrow> mapping_of ch cs m"
    and "c ch = Some cs \<Longrightarrow> c ch' = Some cs' \<Longrightarrow> cst_stream_id cs = Some sid \<Longrightarrow> cst_stream_id cs' = Some sid \<Longrightarrow> ch = ch'"
    and "map_of (sr_mappings r) sid = Some m \<Longrightarrow> \<exists>ch cs. c ch = Some cs \<and> cst_stream_id cs = Some sid"
  using assms unfolding owned_def by blast+

lemma ownedI:
  assumes "\<And>ch cs sid. c ch = Some cs \<Longrightarrow> cst_stream_id cs = Some sid \<Longrightarrow> \<exists>i. sid = stream_id_of i \<and> i < sr_counter r"
    and "\<And>ch cs sid m. c ch = Some cs \<Longrightarrow> cst_stream_id cs = Some sid \<Longrightarrow> map_of (sr_mappings r) sid = Some m \<Longrightarrow> mapping_of ch cs m"
    and "\<And>ch ch' cs cs' sid. c ch = Some cs \<Longrightarrow> c ch' = Some cs' \<Longrightarrow> cst_stream_id cs = Some sid \<Longrightarrow>
      cst_stream_id cs' = Some sid \<Longrightarrow> ch = ch'"
    and "\<And>sid m. map_of (sr_mappings r) sid = Some m \<Longrightarrow> \<exists>ch cs. c ch = Some cs \<and> cst_stream_id cs = Some sid"
  shows "owned c r"
  unfolding owned_def
  by (intro conjI allI impI) (erule (1) assms(1), erule (2) assms(2), erule (3) assms(3), erule assms(4))

lemma owned_new:
  assumes "owned c r" "c ch = None" "cst_stream_id cs = None"
  shows "owned (c(ch \<mapsto> cs)) r"
proof -
  have old: "c x = Some y" if "(c(ch \<mapsto> cs)) x = Some y" "cst_stream_id y = Some sid" for x y sid
    using that assms(3) by (auto split: if_splits)
  show ?thesis
  proof (rule ownedI)
    fix sid m assume "map_of (sr_mappings r) sid = Some m"
    from ownedD(4) [OF assms(1) this] obtain ch' cs' where "c ch' = Some cs'" "cst_stream_id cs' = Some sid"
      by blast
    with assms(2) show "\<exists>ch' cs'. (c(ch \<mapsto> cs)) ch' = Some cs' \<and> cst_stream_id cs' = Some sid"
      by (intro exI [of _ ch']) auto
  qed (blast dest: old ownedD(1-3) [OF assms(1)])+
qed

lemma owned_end:
  assumes "owned c r" "c ch = Some cs" "\<And>sid. cst_stream_id cs = Some sid \<Longrightarrow> map_of (sr_mappings r) sid = None"
  shows "owned (c(ch := None)) r"
proof -
  have old: "c x = Some y" if "(c(ch := None)) x = Some y" for x y
    using that by (auto split: if_splits)
  show ?thesis
  proof (rule ownedI)
    fix sid m assume m: "map_of (sr_mappings r) sid = Some m"
    from ownedD(4) [OF assms(1) this] obtain ch' cs' where o: "c ch' = Some cs'" "cst_stream_id cs' = Some sid"
      by blast
    with assms(2) assms(3) [of sid] m have "ch' \<noteq> ch" by auto
    with o show "\<exists>ch' cs'. (c(ch := None)) ch' = Some cs' \<and> cst_stream_id cs' = Some sid"
      by (intro exI [of _ ch']) auto
  qed (blast dest: old ownedD(1-3) [OF assms(1)])+
qed

lemma owned_turn:
  assumes own: "owned c r" and cs: "c ch = Some cs" and turn: "stream_turn ch cs cs' r r'"
    and wf: "router_wf r" and room: "counter_room r"
  shows "owned (c(ch \<mapsto> cs')) r'"
proof -
  have up: "i < sr_counter r \<Longrightarrow> i < sr_counter r'" for i
    using turn room less_inc_u64 [of "sr_counter r"] unfolding stream_turn_def counter_room_def
    by (metis order.strict_trans)
  have ids: "cst_stream_id cs' = cst_stream_id cs
      \<or> cst_stream_id cs = None \<and> cst_stream_id cs' = Some (stream_id_of (sr_counter r))
        \<and> sr_counter r' = sr_counter r + 1"
    using turn by (simp add: stream_turn_def)
  have other: "map_of (sr_mappings r') x = map_of (sr_mappings r) x" if "cst_stream_id cs' \<noteq> Some x" for x
    using turn that by (simp add: stream_turn_def)
  have mine: "mapping_of ch cs' m" if "cst_stream_id cs' = Some x" "map_of (sr_mappings r') x = Some m" for x m
    using turn that ownedD(2) [OF own cs] unfolding stream_turn_def by blast
  have fresh: "y = stream_id_of (sr_counter r) \<Longrightarrow> c x = Some z \<Longrightarrow> cst_stream_id z \<noteq> Some y" for x y z
    using ownedD(1) [OF own, of x z y] by auto
  have apart: "cst_stream_id cs' \<noteq> Some x" if "c ch' = Some z" "ch' \<noteq> ch" "cst_stream_id z = Some x" for ch' z x
    using ids fresh [of x ch' z] that ownedD(3) [OF own that(1) cs that(3)] by auto
  show ?thesis
  proof (rule ownedI)
    fix x z sid
    assume "(c(ch \<mapsto> cs')) x = Some z" "cst_stream_id z = Some sid"
    then consider "c x = Some z" | "cst_stream_id cs = Some sid"
      | "sid = stream_id_of (sr_counter r)" "sr_counter r' = sr_counter r + 1"
      using ids by (cases "x = ch") auto
    then show "\<exists>i. sid = stream_id_of i \<and> i < sr_counter r'"
    proof cases
      case 1
      from ownedD(1) [OF own 1 \<open>cst_stream_id z = Some sid\<close>] up show ?thesis by blast
    next
      case 2
      from ownedD(1) [OF own cs 2] up show ?thesis by blast
    next
      case 3
      with room show ?thesis by (metis counter_room_def less_inc_u64)
    qed
  next
    fix x z sid m
    assume z: "(c(ch \<mapsto> cs')) x = Some z" "cst_stream_id z = Some sid" and m: "map_of (sr_mappings r') sid = Some m"
    show "mapping_of x z m"
    proof (cases "x = ch")
      case True
      with z m mine show ?thesis by auto
    next
      case False
      with z have zc: "c x = Some z" by simp
      with m other [OF apart [OF zc False z(2)]] z(2) show ?thesis
        using ownedD(2) [OF own zc] by simp
    qed
  next
    fix x y a b sid
    assume "(c(ch \<mapsto> cs')) x = Some a" "(c(ch \<mapsto> cs')) y = Some b"
      "cst_stream_id a = Some sid" "cst_stream_id b = Some sid"
    then show "x = y"
      using apart ownedD(3) [OF own] by (auto split: if_splits)
  next
    fix sid m
    assume m: "map_of (sr_mappings r') sid = Some m"
    show "\<exists>x z. (c(ch \<mapsto> cs')) x = Some z \<and> cst_stream_id z = Some sid"
    proof (cases "cst_stream_id cs' = Some sid")
      case True
      then show ?thesis by (intro exI [of _ ch]) simp
    next
      case False
      with m other obtain x z where x: "c x = Some z" "cst_stream_id z = Some sid"
        using ownedD(4) [OF own, of sid m] by auto
      with False ids cs have "x \<noteq> ch" by auto
      with x show ?thesis by (intro exI [of _ x]) simp
    qed
  qed
qed

definition streams_ok :: "nat \<Rightarrow> 'c relay_system \<Rightarrow> bool" where
  "streams_ok n s \<longleftrightarrow> router_inv (svc_stream_router (sys_svc s))
     \<and> unat (sr_counter (svc_stream_router (sys_svc s))) \<le> Suc n
     \<and> owned (map_of (sys_controllers s)) (svc_stream_router (sys_svc s))"

lemma streams_ok_same:
  assumes "streams_ok n s" "sys_controllers s1 = sys_controllers s"
    "svc_stream_router (sys_svc s1) = svc_stream_router (sys_svc s)"
  shows "streams_ok (Suc n) s1"
  using assms by (simp add: streams_ok_def)

lemma streams_ok_shrink:
  assumes "streams_ok n s" "sys_controllers s1 = sys_controllers s"
    and "router_inv (svc_stream_router (sys_svc s1))"
    and "map_of (sr_mappings (svc_stream_router (sys_svc s1))) \<subseteq>\<^sub>m map_of (sr_mappings (svc_stream_router (sys_svc s)))"
    and "sr_counter (svc_stream_router (sys_svc s1)) = sr_counter (svc_stream_router (sys_svc s))"
  shows "streams_ok (Suc n) s1"
  using assms owned_shrink by (simp add: streams_ok_def) blast

lemma streams_ok_turn:
  assumes "streams_ok n s" "Suc n < 2 ^ 64 - 1" "map_of (sys_controllers s) ch = Some cs"
    and "stream_turn ch cs cs' (svc_stream_router (sys_svc s)) (svc_stream_router (sys_svc s1))"
    and "router_inv (svc_stream_router (sys_svc s1))"
    and "sys_controllers s1 = AList.update ch cs' (sys_controllers s)"
  shows "streams_ok (Suc n) s1"
proof -
  let ?r = "svc_stream_router (sys_svc s)" and ?r1 = "svc_stream_router (sys_svc s1)"
  have room: "counter_room ?r" and wf: "router_wf ?r" and own: "owned (map_of (sys_controllers s)) ?r"
    and le: "unat (sr_counter ?r) \<le> Suc n"
    using assms(1,2) by (simp_all add: streams_ok_def counter_room_def router_inv_def)
  have "unat (sr_counter ?r1) \<le> Suc (Suc n)"
    using assms(4) le room unat_inc_u64 [of "sr_counter ?r"]
    by (auto simp: stream_turn_def counter_room_def)
  with owned_turn [OF own assms(3,4) wf room] assms(5,6) show ?thesis
    by (simp add: streams_ok_def fun_upd_def)
qed

lemma remove_all_frame:
  assumes "router_inv r"
  shows "router_inv (snd (remove_all_for_device d r))"
    and "map_of (sr_mappings (snd (remove_all_for_device d r))) \<subseteq>\<^sub>m map_of (sr_mappings r)"
    and "sr_counter (snd (remove_all_for_device d r)) = sr_counter r"
proof -
  show "router_inv (snd (remove_all_for_device d r))"
    using assms by (simp add: router_inv_def remove_all_wf remove_all_caps)
  show "map_of (sr_mappings (snd (remove_all_for_device d r))) \<subseteq>\<^sub>m map_of (sr_mappings r)"
    using assms by (auto simp: router_inv_def remove_all_lookup map_le_def split: option.splits if_splits)
  show "sr_counter (snd (remove_all_for_device d r)) = sr_counter r"
    by (simp add: remove_all_for_device_def remove_streams_counter split: option.split)
qed

lemma remove_mapping_shrink:
  "map_of (sr_mappings (snd (remove_mapping sid r))) \<subseteq>\<^sub>m map_of (sr_mappings r)"
  by (simp add: remove_mapping_lookup map_le_def)

lemma device_turn_router:
  "svc_stream_router (sys_svc (device_turn env ch ev ds s)) = svc_stream_router (sys_svc s)
   \<or> (\<exists>d. svc_stream_router (sys_svc (device_turn env ch ev ds s)) =
         snd (remove_all_for_device d (svc_stream_router (sys_svc s))))"
  by (auto simp: device_turn_def case_prod_unfold cleanup_router split: loop_ctl.split option.split)

lemma cleanup_shrink:
  assumes "router_wf r"
  shows "map_of (sr_mappings (snd (cleanup_stale now r))) \<subseteq>\<^sub>m map_of (sr_mappings r)"
    and "sr_counter (snd (cleanup_stale now r)) = sr_counter r"
  using assms
  by (auto simp: cleanup_stale_lookup map_le_def split: option.splits if_splits)
    (simp add: cleanup_stale_def Let_def remove_mappings_frame)

lemma resume_router:
  assumes "controller_resume env cs svc = Some (cs1, svc1)"
  shows "svc_stream_router svc1 =
    (case cst_stream_id cs of
       None \<Rightarrow> svc_stream_router svc
     | Some sid \<Rightarrow> finish_request (env_now env) sid (svc_stream_router svc))"
proof -
  have err: "svc_stream_router (snd (controller_response_err env p cs svc)) =
      (case cst_stream_id cs of
         None \<Rightarrow> svc_stream_router svc
       | Some sid \<Rightarrow> finish_request (env_now env) sid (svc_stream_router svc))" for p
    by (simp add: controller_response_err_def Let_def with_stream_router)
  obtain p where "(cs1, svc1) = controller_response_err env p cs svc
      \<or> (\<exists>r. (cs1, svc1) = controller_response_ok env p r cs svc)"
    using assms by (cases "cst_waiting cs") (auto simp: controller_resume_def dest: sym split: option.splits if_splits)
  then show ?thesis
    using response_ok_facts(6) [of env p _ cs svc] err [of p] by (metis snd_conv)
qed

lemma streams_ok_step:
  assumes "sys_step env ev s = Some s1" "streams_ok n s" "Suc n < 2 ^ 64 - 1" "channels_ok s"
  shows "streams_ok (Suc n) s1"
proof -
  let ?r = "svc_stream_router (sys_svc s)"
  have inv: "router_inv ?r" and room: "counter_room ?r" and own: "owned (map_of (sys_controllers s)) ?r"
    using assms(2,3) by (simp_all add: streams_ok_def counter_room_def)
  from assms(1) show ?thesis
  proof (cases rule: sys_step_cases)
    case device_connects
    with open_device_core(1) [of env s] show ?thesis
      by (intro streams_ok_same [OF assms(2)]) (simp_all add: same_core_def open_device_core(2))
  next
    case (device ch dev ds)
    have "router_inv (svc_stream_router (sys_svc s1))
        \<and> map_of (sr_mappings (svc_stream_router (sys_svc s1))) \<subseteq>\<^sub>m map_of (sr_mappings ?r)
        \<and> sr_counter (svc_stream_router (sys_svc s1)) = sr_counter ?r"
      using device_turn_router [of env ch dev ds s] remove_all_frame [OF inv] inv
      by (auto simp: device(3))
    then show ?thesis
      by (intro streams_ok_shrink [OF assms(2)]) (simp_all add: device(3) device_turn_core(1))
  next
    case controller_connects
    have "owned ((map_of (sys_controllers s))(sys_next_chan s \<mapsto> controller_stream_new (env_now env) (sys_next_chan s))) ?r"
      by (rule owned_new [OF own fresh_chan [OF assms(4)]]) (simp add: controller_stream_new_def)
    with assms(2) controller_connects show ?thesis
      by (simp add: streams_ok_def open_controller_core fun_upd_def)
  next
    case (controller ch msg cs)
    have out: "cst_out_tx cs = ch" using controller(2) assms(4) by (simp add: channels_ok_def)
    note t = message_step_stream_turn [OF controller(3) out inv room, of env msg]
    show ?thesis
      by (rule streams_ok_turn [OF assms(2,3) controller(2),
            of "fst (controller_message_step env msg cs (sys_svc s))"])
        (simp_all add: controller(4) controller_turn_core t)
  next
    case (resume ch cs cs1 svc)
    have "stream_turn ch cs cs1 ?r (svc_stream_router svc) \<and> router_inv (svc_stream_router svc)"
    proof (cases "cst_stream_id cs")
      case None
      with inv resume_frame(3) [OF resume(3)] show ?thesis
        by (simp add: resume_router [OF resume(3)] stream_turn_def)
    next
      case (Some sid)
      with inv resume_frame(3) [OF resume(3)] show ?thesis
        by (simp add: resume_router [OF resume(3)] request_ops_inv stream_turn_finish)
    qed
    then show ?thesis
      by (intro streams_ok_turn [OF assms(2,3) resume(2), of cs1]) (simp_all add: resume(4))
  next
    case (ends ch failed cs)
    let ?r1 = "svc_stream_router (sys_svc s1)"
    have r1: "?r1 = (case cst_stream_id cs of None \<Rightarrow> ?r | Some sid \<Rightarrow> snd (remove_mapping sid ?r))"
      by (simp add: ends end_controller_core)
    have inv1: "router_inv ?r1" "sr_counter ?r1 = sr_counter ?r"
      and own1: "owned (map_of (sys_controllers s)) ?r1"
      using inv own owned_shrink [OF own remove_mapping_shrink]
      by (auto simp: r1 router_inv_def remove_mapping_wf remove_mapping_caps split: option.split)
    have "owned ((map_of (sys_controllers s))(ch := None)) ?r1"
      by (rule owned_end [OF own1 ends(2)]) (simp add: r1 remove_mapping_lookup)
    with assms(2) inv1 show ?thesis
      by (simp add: streams_ok_def ends end_controller_core fun_upd_def)
  next
    case (timeout t)
    then show ?thesis by (intro streams_ok_same [OF assms(2)]) simp_all
  next
    case cleanup
    with inv cleanup_shrink [of ?r "env_now env"] cleanup_inv [OF inv] show ?thesis
      by (intro streams_ok_shrink [OF assms(2)]) (simp_all add: router_inv_def)
  next
    case (call svc)
    then show ?thesis by (intro streams_ok_same [OF assms(2)]) (simp_all add: same_core_def)
  qed
qed

lemma reach_streams_ok:
  assumes "relay_reach ops svc0 n s" "fresh_service ops svc0" "n < 2 ^ 64 - 1"
  shows "streams_ok n s"
  using assms
proof (induction rule: relay_reach.induct)
  case reach_start
  have "sr_mappings (stream_router_new cfg) = []" "sr_counter (stream_router_new cfg) = 1" for cfg
    by (simp_all add: stream_router_new_def)
  with reach_start show ?case
    by (auto simp: relay_system_new_def streams_ok_def owned_def router_new_inv elim!: fresh_serviceE)
next
  case (reach_step n s env ev s1)
  then show ?case
    using reach_waiters_ok [OF reach_step.hyps(1)] by (auto intro: streams_ok_step)
qed

end
