(* ===== verification/Stream_Contracts.thy ===== *)
theory Stream_Contracts
  imports Relay_Sample System_Streams
begin

text \<open>
  What one turn of the stream handlers and one unary call promise: which requests reach a device,
  which answer the others get, what a device stream may change, and who may revoke and list.
\<close>

section \<open>Requests\<close>

text \<open>
  C6. A controller's message makes the relay send something to a device exactly when the request
  is well-formed and carries a token, the stream is open for this device, controller and method
  or the controller is authenticated, authorised, within its rate and there is room to open it,
  no cached response and no request in flight covers it, the device is connected and the
  transfer is within the bandwidth limit; and then it sends exactly the request, unchanged, to
  the channel of the device's current session.
\<close>
theorem request_forwarded_exactly:
  "ToDevice ch m \<in> set (drop (length (svc_out svc)) (svc_out (snd (controller_message_step env msg cs svc)))) \<longleftrightarrow>
     (\<exists>sess. reaches_device env msg cs svc sess \<and> ch = ds_outbound_tx sess
        \<and> m = relay_message_data_request (ds_connection_id sess)
                (cmsg_sequence_number msg) (cmsg_encrypted_payload msg))"
proof (cases "\<exists>sess. reaches_device env msg cs svc sess")
  case True
  then obtain sess where sess: "reaches_device env msg cs svc sess" by blast
  have "reaches_device env msg cs svc sess' \<longleftrightarrow> sess' = sess" for sess'
    using sess by (auto simp: reaches_device_def)
  then show ?thesis by (simp add: reaches_device_sent(1) [OF sess])
next
  case False
  then show ?thesis using reaches_device_only [of env msg cs svc] by auto
qed

text \<open>
  The error code of a message that is turned away before its request is looked at.
\<close>

definition refusal_code :: "'c step_env \<Rightarrow> controller_message \<Rightarrow> controller_stream \<Rightarrow> 'c relay_service \<Rightarrow> error_code" where
  "refusal_code env msg cs svc =
     (case validate_controller_message (cmsg_controller_id msg) (cmsg_target_device_id msg)
             (cmsg_method_name msg) (cmsg_encrypted_payload msg) (cmsg_sequence_number msg) of
        Inl err \<Rightarrow> ve_code err
      | Inr _ \<Rightarrow>
          if is_blank (cmsg_token msg) then UNAUTHORIZED
          else if cst_stream_id cs \<noteq> None then INTERNAL_ERROR
          else case authenticate_controller (env_decode env) (svc_auth_service svc)
                      (cmsg_controller_id msg) (cmsg_token msg) of
                 Inl _ \<Rightarrow> UNAUTHORIZED
               | Inr p \<Rightarrow>
                   (case get_device_principal_by_id (svc_auth_service svc) (cmsg_target_device_id msg) of
                      Inl _ \<Rightarrow> DEVICE_NOT_FOUND
                    | Inr dp \<Rightarrow>
                        if authorize_controller_to_device (svc_rbac svc) p dp (cmsg_method_name msg) \<noteq> Inr ()
                        then UNAUTHORIZED else RATE_LIMITED))"

lemma authorize_sum:
  "authorize_controller_to_device rb p d m \<in> {Inr (), Inl DeviceProjectForbidden, Inl MethodNotAllowed}"
  by (auto simp: authorize_controller_to_device_def)

lemma create_mapping_kind: "fst (create_mapping now d c m tx r) = Inl e \<Longrightarrow> sre_kind e = MaxStreamsExceeded"
  by (cases "device_full d r"; cases "controller_full c r")
    (auto simp: create_device_full create_controller_full create_ok max_streams_error_def)

lemma ctl_create_mapping_reply:
  "\<not> fst (ctl_create_mapping env msg cs svc) \<Longrightarrow>
     svc_out (snd (snd (ctl_create_mapping env msg cs svc))) = svc_out svc @
       (if env_closed env (cst_out_tx cs) then []
        else [ToController (cst_out_tx cs) (error_resp (cmsg_target_device_id msg) (cmsg_sequence_number msg) RATE_LIMITED)])"
  by (auto simp: ctl_create_mapping_def Let_def case_prod_unfold out_reply_error dest: create_mapping_kind
      split: sum.splits if_splits)

lemma ctl_open_stream_reply:
  assumes "\<not> fst (ctl_open_stream env msg cs svc)"
  shows "svc_out (snd (snd (ctl_open_stream env msg cs svc))) = svc_out svc @
    (if env_closed env (cst_out_tx cs) then []
     else [ToController (cst_out_tx cs) (error_resp (cmsg_target_device_id msg) (cmsg_sequence_number msg)
       (case authenticate_controller (env_decode env) (svc_auth_service svc)
                      (cmsg_controller_id msg) (cmsg_token msg) of
                 Inl _ \<Rightarrow> UNAUTHORIZED
               | Inr p \<Rightarrow>
                   (case get_device_principal_by_id (svc_auth_service svc) (cmsg_target_device_id msg) of
                      Inl _ \<Rightarrow> DEVICE_NOT_FOUND
                    | Inr dp \<Rightarrow>
                        if authorize_controller_to_device (svc_rbac svc) p dp (cmsg_method_name msg) \<noteq> Inr ()
                        then UNAUTHORIZED else RATE_LIMITED)))])"
proof (cases "authenticate_controller (env_decode env) (svc_auth_service svc) (cmsg_controller_id msg) (cmsg_token msg)")
  case (Inl e)
  then show ?thesis
    by (simp add: ctl_open_stream_def ctl_authenticate_def out_reply_error Let_def)
next
  case (Inr p)
  let ?cs1 = "fst (snd (ctl_authenticate env msg cs svc))"
  let ?svc1 = "snd (snd (ctl_authenticate env msg cs svc))"
  have same: "svc_auth_service ?svc1 = svc_auth_service svc" "svc_rbac ?svc1 = svc_rbac svc"
    "fst (ctl_authenticate env msg cs svc) = Some p" "svc_out ?svc1 = svc_out svc" "cst_out_tx ?cs1 = cst_out_tx cs"
    by (simp_all add: ctl_authenticate_def Inr Let_def)
  show ?thesis
  proof (cases "fst (ctl_authorize env msg p ?cs1 ?svc1)")
    case False
    then show ?thesis
      using authorize_sum [of "svc_rbac svc" p _ "cmsg_method_name msg"]
      by (auto simp: ctl_open_stream_def same Inr Let_def case_prod_unfold ctl_authorize_def out_reply_error
          split: sum.splits if_splits)
  next
    case True
    then obtain dp where dp: "get_device_principal_by_id (svc_auth_service svc) (cmsg_target_device_id msg) = Inr dp"
      "authorize_controller_to_device (svc_rbac svc) p dp (cmsg_method_name msg) = Inr ()"
      "snd (ctl_authorize env msg p ?cs1 ?svc1) = ?svc1"
      by (auto simp: ctl_authorize_def Let_def same split: sum.splits if_splits intro: authorize_verdicts)
    show ?thesis
    proof (cases "fst (ctl_rate_limit env msg ?cs1 ?svc1)")
      case False
      then have "svc_out (snd (ctl_rate_limit env msg ?cs1 ?svc1)) = svc_out svc @
          (if env_closed env (cst_out_tx cs) then []
           else [ToController (cst_out_tx cs) (error_resp (cmsg_target_device_id msg) (cmsg_sequence_number msg) RATE_LIMITED)])"
        by (auto simp: ctl_rate_limit_def Let_def case_prod_unfold out_reply_error same split: if_splits)
      with False dp True show ?thesis
        by (simp add: ctl_open_stream_def same Inr Let_def case_prod_unfold)
    next
      case True
      let ?svc3 = "snd (ctl_rate_limit env msg ?cs1 ?svc1)"
      have opens: "ctl_open_stream env msg cs svc = ctl_create_mapping env msg ?cs1 ?svc3"
        using True \<open>fst (ctl_authorize env msg p ?cs1 ?svc1)\<close> dp
        by (simp add: ctl_open_stream_def same Let_def case_prod_unfold)
      have "svc_out ?svc3 = svc_out svc"
        using ctl_rate_limit_out [of env msg ?cs1 ?svc1] True by (simp add: adds_replies_def same)
      with assms dp ctl_create_mapping_reply [of env msg ?cs1 ?svc3] show ?thesis
        unfolding opens by (simp add: same Inr)
    qed
  qed
qed

text \<open>
  C11. A message that is turned away is answered exactly once, on its own channel, with an error
  response that names its device and sequence number and whose code is that of the first check
  that failed; then no request is registered, and no session, timer or cached response changes.
\<close>
theorem refused_request_answered:
  assumes "\<not> serves env msg cs svc"
  shows "svc_out (snd (controller_message_step env msg cs svc)) = svc_out svc @
           (if env_closed env (cst_out_tx cs) then []
            else [ToController (cst_out_tx cs)
                    (error_resp (cmsg_target_device_id msg) (cmsg_sequence_number msg) (refusal_code env msg cs svc))])
    \<and> inflight_by_sequence (svc_state (snd (controller_message_step env msg cs svc))) = inflight_by_sequence (svc_state svc)
    \<and> sessions_by_device_id (svc_state (snd (controller_message_step env msg cs svc))) = sessions_by_device_id (svc_state svc)
    \<and> svc_timers (snd (controller_message_step env msg cs svc)) = svc_timers svc
    \<and> svc_cache (snd (controller_message_step env msg cs svc)) = svc_cache svc"
proof (cases "validate_controller_message (cmsg_controller_id msg) (cmsg_target_device_id msg)
             (cmsg_method_name msg) (cmsg_encrypted_payload msg) (cmsg_sequence_number msg)")
  case (Inl err)
  then show ?thesis by (simp add: controller_message_step_def refusal_code_def out_reply_error)
next
  case (Inr u)
  then have bound: "is_blank (cmsg_token msg) \<or> \<not> fst (ctl_bind env msg cs svc)"
    using assms by (auto simp: serves_def validate_ok_iff)
  have "svc_out (snd (controller_message_step env msg cs svc)) = svc_out svc @
           (if env_closed env (cst_out_tx cs) then []
            else [ToController (cst_out_tx cs)
                    (error_resp (cmsg_target_device_id msg) (cmsg_sequence_number msg) (refusal_code env msg cs svc))])"
    using bound ctl_open_stream_reply [of env msg cs svc]
    by (auto simp: controller_message_step_def refusal_code_def Inr out_reply_error ctl_token_missing_def
        ctl_bind_def case_prod_unfold Let_def split: if_splits)
  moreover have "inflight_by_sequence (svc_state (snd (controller_message_step env msg cs svc))) = inflight_by_sequence (svc_state svc)
      \<and> sessions_by_device_id (svc_state (snd (controller_message_step env msg cs svc))) = sessions_by_device_id (svc_state svc)"
    using message_step_refused_state(1) [OF assms] by (auto simp: increment_controller_connections_def)
  ultimately show ?thesis using message_step_refused(3,4) [OF assms] by simp
qed

theorem refused_request_answered_witness:
  "svc_out (snd (controller_message_step (sample_env 4) (sample_request\<lparr>cmsg_token := []\<rparr>) sample_stream (sys_svc sample_connected)))
     = svc_out (sys_svc sample_connected) @ [ToController 1 (error_resp ''d1'' 7 UNAUTHORIZED)]"
proof -
  have bad: "\<not> serves (sample_env 4) (sample_request\<lparr>cmsg_token := []\<rparr>) sample_stream (sys_svc sample_connected)"
    by (simp add: serves_def is_blank_def trim_start.simps)
  have "refusal_code (sample_env 4) (sample_request\<lparr>cmsg_token := []\<rparr>) sample_stream (sys_svc sample_connected) = UNAUTHORIZED"
    
    using sample_well_formed [folded validate_ok_iff [of _ _ _ _ _ "()"]]
    by (simp add: refusal_code_def sample_request_def is_blank_def trim_start.simps)
  with refused_request_answered [OF bad] show ?thesis
    by (simp add: sample_stream_def controller_stream_new_def) (simp add: sample_request_def)
qed

text \<open>
  C12. A repeated request whose response is cached is answered with that response at once and has
  no other effect on the device side: nothing is forwarded, no request is registered, no timeout
  started, and the stream does not wait.
\<close>
theorem duplicate_answered_from_cache:
  assumes "serves env msg cs svc" "cst_waiting cs = None" "cache_lookup env msg svc = Some r"
  shows "svc_out (snd (controller_message_step env msg cs svc)) = svc_out svc @
      (if env_closed env (cst_out_tx cs) then [] else [ToController (cst_out_tx cs) r])
    \<and> inflight_by_sequence (svc_state (snd (controller_message_step env msg cs svc))) = inflight_by_sequence (svc_state svc)
    \<and> svc_timers (snd (controller_message_step env msg cs svc)) = svc_timers svc
    \<and> cst_waiting (fst (controller_message_step env msg cs svc)) = None"
proof -
  have out: "svc_out (snd (snd (ctl_bind env msg cs svc))) = svc_out svc"
    using assms(1) ctl_bind_out [of env msg cs svc] by (auto simp: serves_def adds_replies_def)
  have "cache_lookup env msg (snd (snd (ctl_bind env msg cs svc))) = Some r"
    using assms(3) by (simp add: bind_keeps)
  from request_hit [OF this] assms(2) show ?thesis
    by (simp add: message_step_served [OF assms(1)] out ctl_bind_facts(1,2,4,5)
        increment_controller_connections_def)
qed

definition sample_cached_service :: "sample_cache relay_service" where
  "sample_cached_service = (sys_svc sample_connected)\<lparr>svc_cache :=
     cache_insert alist_lru 3 ''d1'' 7 (device_response_from_device_data ''d1'' 7 [42] 0)
       (svc_cache (sys_svc sample_connected))\<rparr>"

theorem duplicate_answered_from_cache_witness:
  "svc_out (snd (controller_message_step (sample_env 4) sample_request sample_stream sample_cached_service)) =
     svc_out sample_cached_service @ [ToController 1 (device_response_from_device_data ''d1'' 7 [42] 0)]
   \<and> cst_waiting (fst (controller_message_step (sample_env 4) sample_request sample_stream sample_cached_service)) = None"
proof -
  have "sample_like sample_cached_service"
    using sample_like_connected by (simp add: sample_like_def sample_cached_service_def)
  moreover have "cache_lookup (sample_env 4) sample_request sample_cached_service
      = Some (device_response_from_device_data ''d1'' 7 [42] 0)"
    by (simp add: cache_lookup_def cache_get_def cache_insert_def alist_lru_def sample_cached_service_def sample_request_def)
  ultimately show ?thesis
    using duplicate_answered_from_cache [OF sample_like_serves, of sample_cached_service]
    by (simp add: sample_stream_def controller_stream_new_def)
qed

text \<open>
  C15. A request that passes the checks, has no cached response and is not in flight, for a device
  that has no session, gets no answer: the handler completes the request in flight with
  DEVICE_OFFLINE, but the only waiter is its own receiver, which it drops when it goes on to the
  next message. Nothing is sent on the controller's channel, the stream does not wait, and no
  request is left in flight that could answer it later.
\<close>
theorem offline_request_unanswered:
  assumes "serves env msg cs svc" "cst_waiting cs = None" "cache_lookup env msg svc = None" "\<not> joins msg svc"
    and "device_session_of msg svc = None"
  shows "svc_out (snd (controller_message_step env msg cs svc)) = svc_out svc
    \<and> cst_waiting (fst (controller_message_step env msg cs svc)) = None
    \<and> \<not> joins msg (snd (controller_message_step env msg cs svc))"
proof -
  have out: "svc_out (snd (snd (ctl_bind env msg cs svc))) = svc_out svc"
    using assms(1) ctl_bind_out [of env msg cs svc] by (auto simp: serves_def adds_replies_def)
  note r = request_offline [of env msg "snd (snd (ctl_bind env msg cs svc))", unfolded bind_keeps, OF assms(3,4)]
  from r assms(5) have "svc_out (snd (controller_message_step env msg cs svc)) = svc_out svc"
    by (simp add: message_step_served [OF assms(1)] out)
  moreover from r assms(2,5) have "cst_waiting (fst (controller_message_step env msg cs svc)) = None"
    by (simp add: message_step_served [OF assms(1)] ctl_bind_facts(1))
  moreover from r assms(5) have "\<not> joins msg (snd (controller_message_step env msg cs svc))"
    by (simp add: message_step_served [OF assms(1)] joins_def ended_offline_def)
  ultimately show ?thesis by simp
qed

theorem offline_request_unanswered_witness:
  "svc_out (snd (controller_message_step (sample_env 4) sample_request sample_stream sample_service)) = []
   \<and> cst_waiting (fst (controller_message_step (sample_env 4) sample_request sample_stream sample_service)) = None
   \<and> \<not> joins sample_request (snd (controller_message_step (sample_env 4) sample_request sample_stream sample_service))"
proof -
  have "cache_lookup (sample_env 4) sample_request sample_service = None" "\<not> joins sample_request sample_service"
    "device_session_of sample_request sample_service = None" "svc_out sample_service = []"
    by (simp_all add: cache_lookup_def cache_get_def joins_def device_session_of_def get_device_session_def
        sample_service_def relay_grpc_service_new_def relay_state_new_def idempotency_cache_new_def alist_lru_def Let_def)
  then show ?thesis
    using offline_request_unanswered [OF sample_like_serves [OF sample_like_service]]
    by (simp add: sample_stream_def controller_stream_new_def)
qed

text \<open>A request with the key of one in flight joins it: nothing is sent, and its stream waits.\<close>

lemma joining_request_waits:
  assumes "serves env msg cs svc" "cache_lookup env msg svc = None" "joins msg svc"
  shows "svc_out (snd (controller_message_step env msg cs svc)) = svc_out svc"
    and "\<exists>p. cst_waiting (fst (controller_message_step env msg cs svc)) = Some p
      \<and> pr_msg p = msg \<and> \<not> pr_is_new_forwarder p"
    and "svc_timers (snd (controller_message_step env msg cs svc)) = svc_timers svc"
proof -
  have out: "svc_out (snd (snd (ctl_bind env msg cs svc))) = svc_out svc"
    using assms(1) ctl_bind_out [of env msg cs svc] by (auto simp: serves_def adds_replies_def)
  note r = request_join [of env msg "snd (snd (ctl_bind env msg cs svc))", unfolded bind_keeps, OF assms(2,3)]
  from r show "svc_out (snd (controller_message_step env msg cs svc)) = svc_out svc"
    by (simp add: message_step_served [OF assms(1)] out)
  from r show "\<exists>p. cst_waiting (fst (controller_message_step env msg cs svc)) = Some p
      \<and> pr_msg p = msg \<and> \<not> pr_is_new_forwarder p"
    by (simp add: message_step_served [OF assms(1)] waits_for_def)
  from r show "svc_timers (snd (controller_message_step env msg cs svc)) = svc_timers svc"
    by (simp add: message_step_served [OF assms(1)] ctl_bind_facts(5))
qed

text \<open>
  C16. A request refused for bandwidth is answered with RATE_LIMITED but stays in flight: after
  the step its entry is in the table. A retry in that state, from any controller stream and
  whatever the bandwidth is by then, that passes the checks and has no cached response is
  therefore not forwarded and not answered at once: nothing is sent, no new timeout is started,
  and its stream waits as one that joined a request in flight.
\<close>
theorem bandwidth_refusal_stays_in_flight:
  assumes "serves env msg cs svc" "cst_waiting cs = None" "cache_lookup env msg svc = None" "\<not> joins msg svc"
    and "device_session_of msg svc = Some sess" "\<not> in_bandwidth env msg svc"
    and after: "svc1 = snd (controller_message_step env msg cs svc)"
    and retry: "cmsg_target_device_id msg' = cmsg_target_device_id msg"
      "cmsg_sequence_number msg' = cmsg_sequence_number msg"
      "serves env' msg' cs' svc1" "cache_lookup env' msg' svc1 = None"
  shows "svc_out svc1 = svc_out svc @
      (if env_closed env (cst_out_tx cs) then []
       else [ToController (cst_out_tx cs)
               (error_resp (cmsg_target_device_id msg) (cmsg_sequence_number msg) RATE_LIMITED)])
    \<and> cst_waiting (fst (controller_message_step env msg cs svc)) = None
    \<and> joins msg svc1
    \<and> svc_out (snd (controller_message_step env' msg' cs' svc1)) = svc_out svc1
    \<and> svc_timers (snd (controller_message_step env' msg' cs' svc1)) = svc_timers svc1
    \<and> (\<exists>p. cst_waiting (fst (controller_message_step env' msg' cs' svc1)) = Some p
        \<and> pr_msg p = msg' \<and> \<not> pr_is_new_forwarder p)"
proof -
  have out: "svc_out (snd (snd (ctl_bind env msg cs svc))) = svc_out svc"
    using assms(1) ctl_bind_out [of env msg cs svc] by (auto simp: serves_def adds_replies_def)
  note r = request_limited [of env msg "snd (snd (ctl_bind env msg cs svc))", unfolded bind_keeps, OF assms(3-6)]
  have there: "joins msg svc1"
    unfolding after by (simp add: message_step_served [OF assms(1)] joins_def r(2) registered_def ensure_inflight_eq)
  with retry(1,2) have "joins msg' svc1" by (simp add: joins_def)
  note j = joining_request_waits [OF retry(3,4) this]
  have "svc_out svc1 = svc_out svc @
      (if env_closed env (cst_out_tx cs) then []
       else [ToController (cst_out_tx cs)
               (error_resp (cmsg_target_device_id msg) (cmsg_sequence_number msg) RATE_LIMITED)])"
    using r(4) by (simp add: after message_step_served [OF assms(1)] out ctl_bind_facts(2))
  moreover have "cst_waiting (fst (controller_message_step env msg cs svc)) = None"
    using r(1) assms(2) by (simp add: message_step_served [OF assms(1)] ctl_bind_facts(1))
  ultimately show ?thesis using there j by blast
qed

text \<open>A stream that has served a message serves it again, whatever has become of the relay.\<close>

lemma served_again:
  assumes "serves env msg cs svc"
  shows "serves env' msg (fst (controller_message_step env msg cs svc)) svc'"
proof -
  have "cst_stream_id (fst (snd (ctl_bind env msg cs svc))) \<noteq> None
      \<and> cst_stream_binding (fst (snd (ctl_bind env msg cs svc))) =
          Some (cmsg_target_device_id msg, cmsg_controller_id msg, cmsg_method_name msg)"
    using assms ctl_bind_opens [of env msg cs svc]
    by (cases "cst_stream_id cs") (auto simp: serves_def binds_def ctl_bind_def split: if_splits)
  with assms show ?thesis
    by (auto simp: serves_def message_step_served [OF assms] request_frame ctl_bind_def)
qed

definition sample_narrow_service :: "sample_cache relay_service" where
  "sample_narrow_service = (sys_svc sample_connected)\<lparr>svc_bandwidth_tracker :=
     bandwidth_tracker_new (default_rate_limit_config\<lparr>device_bandwidth_bytes_per_sec := 1\<rparr>)\<rparr>"

theorem bandwidth_refusal_stays_in_flight_witness:
  "\<exists>cs1 svc1. controller_message_step (sample_env 4) sample_request sample_stream sample_narrow_service = (cs1, svc1)
   \<and> svc_out svc1 = svc_out sample_narrow_service @ [ToController 1 (error_resp ''d1'' 7 RATE_LIMITED)]
   \<and> joins sample_request svc1
   \<and> svc_out (snd (controller_message_step (sample_env 5) sample_request cs1 svc1)) = svc_out svc1
   \<and> cst_waiting (fst (controller_message_step (sample_env 5) sample_request cs1 svc1)) \<noteq> None"
proof -
  let ?step = "controller_message_step (sample_env 4) sample_request sample_stream sample_narrow_service"
  have like: "sample_like sample_narrow_service"
    using sample_like_connected by (simp add: sample_like_def sample_narrow_service_def)
  note s = sample_like_serves [OF this]
  have "cache_lookup (sample_env 4) sample_request sample_narrow_service = None"
    "\<not> joins sample_request sample_narrow_service"
    "device_session_of sample_request sample_narrow_service = Some sample_session"
    using sample_reaches_device
    by (simp_all add: reaches_device_def cache_lookup_def joins_def device_session_of_def sample_narrow_service_def)
  moreover have "\<not> in_bandwidth (sample_env 4) sample_request sample_narrow_service"
    by (simp add: in_bandwidth_def sample_narrow_service_def sample_request_def sample_env_def record_and_check_def
        record_key_def checked_add_u64_def saturating_sub_u64_def bandwidth_tracker_new_def
        default_rate_limit_config_def Let_def word_le_nat_alt)
  moreover have "cst_waiting sample_stream = None" "cst_out_tx sample_stream = 1"
    "cmsg_target_device_id sample_request = ''d1''" "cmsg_sequence_number sample_request = 7"
    "\<not> env_closed (sample_env 4) 1"
    by (simp_all add: sample_stream_def controller_stream_new_def sample_request_def sample_env_def)
  moreover have "cache_lookup (sample_env 5) sample_request (snd ?step) = None"
    by (simp add: cache_lookup_def message_step_served [OF s] request_frame(5) ctl_bind_facts(6))
      (simp add: cache_get_def sample_narrow_service_def sample_connected_service sample_env_def alist_lru_def)
  ultimately have "svc_out (snd ?step) = svc_out sample_narrow_service @ [ToController 1 (error_resp ''d1'' 7 RATE_LIMITED)]
      \<and> joins sample_request (snd ?step)
      \<and> svc_out (snd (controller_message_step (sample_env 5) sample_request (fst ?step) (snd ?step))) = svc_out (snd ?step)
      \<and> cst_waiting (fst (controller_message_step (sample_env 5) sample_request (fst ?step) (snd ?step))) \<noteq> None"
    using bandwidth_refusal_stays_in_flight [OF s, of sample_session "snd ?step" sample_request "sample_env 5" "fst ?step"]
      served_again [OF s] by auto
  then show ?thesis by (metis prod.collapse)
qed

text \<open>The relay with other tokens, revocations, policy and request limits.\<close>

definition with_policy :: "auth_service \<Rightarrow> rbac_policy_engine \<Rightarrow> rate_limiter \<Rightarrow> 'c relay_service \<Rightarrow> 'c relay_service" where
  "with_policy a b l svc = svc\<lparr>svc_auth_service := a, svc_rbac := b, svc_rate_limiter := l\<rparr>"

lemma policy_effects [simp]:
  "on_state f (with_policy a b l svc) = with_policy a b l (on_state f svc)"
  "on_router g (with_policy a b l svc) = with_policy a b l (on_router g svc)"
  "on_metrics h (with_policy a b l svc) = with_policy a b l (on_metrics h svc)"
  "on_relay_metrics i (with_policy a b l svc) = with_policy a b l (on_relay_metrics i svc)"
  "on_audit j (with_policy a b l svc) = with_policy a b l (on_audit j svc)"
  "send_controller (env\<lparr>env_decode := dec\<rparr>) ch r (with_policy a b l svc) =
     with_policy a b l (send_controller env ch r svc)"
  "send_error_response (env\<lparr>env_decode := dec\<rparr>) ch d sq e (with_policy a b l svc) =
     with_policy a b l (send_error_response env ch d sq e svc)"
  "send_device (env\<lparr>env_decode := dec\<rparr>) ch m (with_policy a b l svc) =
     map_prod id (with_policy a b l) (send_device env ch m svc)"
  "spawn_timeout (env\<lparr>env_decode := dec\<rparr>) d sq (with_policy a b l svc) =
     with_policy a b l (spawn_timeout env d sq svc)"
  "with_stream k cs (with_policy a b l svc) = with_policy a b l (with_stream k cs svc)"
  "svc_state (with_policy a b l svc) = svc_state svc" "svc_cache (with_policy a b l svc) = svc_cache svc"
  "svc_bandwidth_tracker (with_policy a b l svc) = svc_bandwidth_tracker svc"
  "(with_policy a b l svc)\<lparr>svc_cache := c\<rparr> = with_policy a b l (svc\<lparr>svc_cache := c\<rparr>)"
  "(with_policy a b l svc)\<lparr>svc_state := st\<rparr> = with_policy a b l (svc\<lparr>svc_state := st\<rparr>)"
  "(with_policy a b l svc)\<lparr>svc_bandwidth_tracker := bt\<rparr> = with_policy a b l (svc\<lparr>svc_bandwidth_tracker := bt\<rparr>)"
  by (simp_all add: with_policy_def effect_defs with_stream_def split: option.split)

lemma policy_forward:
  "ctl_forward (env\<lparr>env_decode := dec\<rparr>) msg cs (with_policy a b l svc) =
     map_prod id (with_policy a b l) (ctl_forward env msg cs svc)"
  by (simp add: ctl_forward_def ctl_abandon_def ctl_bandwidth_exceeded_def reply_error_def Let_def case_prod_unfold
      split: option.split)

lemma policy_request:
  "ctl_request (env\<lparr>env_decode := dec\<rparr>) msg cs (with_policy a b l svc) =
     map_prod id (with_policy a b l) (ctl_request env msg cs svc)"
  by (simp add: ctl_request_def ctl_cached_def policy_forward Let_def case_prod_unfold split: option.split)

text \<open>
  C17. On a stream that has been opened nobody is checked any more: what a message does, to the relay
  and in what is sent, does not depend on the tokens, revocations, policy and request limits the
  relay has at that moment, and the decoder of tokens is not called. So a revoked controller keeps
  every stream it has open, and the request limits count streams, not requests.
\<close>
theorem open_stream_unchecked:
  assumes "cst_stream_id cs \<noteq> None"
  shows "controller_message_step (env\<lparr>env_decode := dec\<rparr>) msg cs (with_policy a b l svc) =
    map_prod id (with_policy a b l) (controller_message_step env msg cs svc)"
  using assms
  by (auto simp: controller_message_step_def ctl_bind_def policy_request reply_error_def ctl_token_missing_def split: sum.split)

lemma sample_waiting_open: "cst_stream_id sample_waiting_stream \<noteq> None"
proof -
  have none: "cst_stream_id sample_stream = None" "cst_waiting sample_stream = None" "cst_out_tx sample_stream = 1"
    by (simp_all add: sample_stream_def controller_stream_new_def)
  with ctl_bind_opens [of "sample_env 4" sample_request sample_stream "sys_svc sample_connected"] sample_serves
  show ?thesis
    by (auto simp: serves_def binds_def sample_waiting_stream_def message_step_served [OF sample_serves] request_frame(1))
qed

theorem open_stream_unchecked_witness:
  "controller_message_step ((sample_env 7)\<lparr>env_decode := \<lambda>_ _ _. None\<rparr>) sample_request (sample_waiting_stream\<lparr>cst_waiting := None\<rparr>)
      (with_policy (revoke_controller_token ''ct'' (auth_service_new sample_token_config)) (rbac_new sample_token_config)
        (rate_limiter_new default_rate_limit_config) (sys_svc sample_answered)) =
    map_prod id (with_policy (revoke_controller_token ''ct'' (auth_service_new sample_token_config)) (rbac_new sample_token_config)
        (rate_limiter_new default_rate_limit_config))
      (controller_message_step (sample_env 7) sample_request (sample_waiting_stream\<lparr>cst_waiting := None\<rparr>) (sys_svc sample_answered))"
  by (rule open_stream_unchecked) (simp add: sample_waiting_open)

section \<open>Device streams\<close>

lemma device_touch_more [simp]:
  "inflight_by_sequence (svc_state (device_touch env msg ds svc)) = inflight_by_sequence (svc_state svc)"
  "oneshot_sent (svc_state (device_touch env msg ds svc)) = oneshot_sent (svc_state svc)"
  "sessions_by_device_id (svc_state (device_touch env msg ds svc)) = sessions_by_device_id (svc_state svc)"
  "connection_id_counter (svc_state (device_touch env msg ds svc)) = connection_id_counter (svc_state svc)"
  "svc_connection_limiter (device_touch env msg ds svc) = svc_connection_limiter svc"
  "svc_resource_monitor (device_touch env msg ds svc) = svc_resource_monitor svc"
  by (simp_all add: device_touch_def touch_device_def on_state_def split: option.split)

lemma device_auth_limits [simp]:
  "svc_connection_limiter (device_auth_success env d svc) = svc_connection_limiter svc"
  "svc_resource_monitor (device_auth_success env d svc) = svc_resource_monitor svc"
  by (simp_all add: device_auth_success_def effect_defs)

lemma register_limits_iff:
  "fst (register_limits env d svc) \<longleftrightarrow>
     fst (allow_device (env_now env) d (svc_connection_limiter svc)) \<and> is_healthy (env_sys env) (svc_resource_monitor svc)"
  by (simp add: register_limits_def Let_def case_prod_unfold)

lemma registers_lookup:
  "map_of (sessions_by_device_id (registers d md ch st)) = (map_of (sessions_by_device_id st))(d \<mapsto>
     \<lparr>ds_device_id = d, ds_connection_id = connection_id_of (connection_id_counter st),
      ds_metadata = md, ds_outbound_tx = ch\<rparr>)"
  "inflight_by_sequence (registers d md ch st) = inflight_by_sequence st"
  "oneshot_sent (registers d md ch st) = oneshot_sent st"
  by (auto simp: registers_def insert_device_session_def Let_def split: option.split)

lemma waiting_touch [simp]: "waiting (svc_state (device_touch env msg ds svc)) w k = waiting (svc_state svc) w k"
  by (simp add: waiting_def)

lemma device_message_register:
  assumes "dmsg_payload msg = Some (Register req)"
  shows "svc_state (snd (snd (device_message_step env msg ds svc))) =
    (if (\<exists>dp. authenticate_device_by_token (svc_auth_service svc) (dmsg_device_id msg) (dmsg_token msg) = Inr dp)
        \<and> fst (allow_device (env_now env) (dmsg_device_id msg) (svc_connection_limiter svc))
        \<and> is_healthy (env_sys env) (svc_resource_monitor svc)
     then registers (dmsg_device_id msg) (rr_metadata req) (dst_out_tx ds) (svc_state (device_touch env msg ds svc))
     else svc_state (device_touch env msg ds svc))"
  by (simp add: device_message_step_def device_identity_guard_def is_register_def assms device_register_def
      Let_def case_prod_unfold register_limits_iff register_session_state split: sum.split)

lemma device_message_data:
  assumes "dmsg_payload msg = Some (Data r)"
  shows "svc_state (snd (snd (device_message_step env msg ds svc))) =
    (if dst_current_device_id ds = Some (dmsg_device_id msg)
     then take_and_complete (dmsg_device_id msg) (dresp_sequence_number r) (device_answer (dmsg_device_id msg) r)
            (svc_state (device_touch env msg ds svc))
     else svc_state (device_touch env msg ds svc))"
  by (simp add: device_message_step_def device_identity_guard_def is_register_def assms device_data_def
      device_answer_def Let_def case_prod_unfold split: option.split)

lemma device_message_other:
  assumes "\<And>req. dmsg_payload msg \<noteq> Some (Register req)" "\<And>r. dmsg_payload msg \<noteq> Some (Data r)"
  shows "svc_state (snd (snd (device_message_step env msg ds svc))) = svc_state (device_touch env msg ds svc)"
  using assms
  by (auto simp: device_message_step_def device_heartbeat_def Let_def case_prod_unfold
      split: option.split device_payload.split sum.split)

text \<open>
  C9. What a message on a device stream may change. The requests in flight and the answers change
  only by data that the stream sends for the device it is registered for: every waiter of that
  device and sequence number, and nobody else, gets the data, and the request is gone. The
  session table changes only by a registration with a token that authenticates the device, within
  the connection limit and on a healthy host: it then has a session of this device under a new
  connection id, on this stream's channel.
\<close>
theorem device_message_authority:
  "(let st = svc_state svc; st' = svc_state (snd (snd (device_event_step env (DeviceMsg msg) ds svc))) in
     (case dmsg_payload msg of
        Some (Data r) \<Rightarrow>
          (if dst_current_device_id ds = Some (dmsg_device_id msg)
           then (let k = (dmsg_device_id msg, dresp_sequence_number r) in
             map_of (inflight_by_sequence st') = (map_of (inflight_by_sequence st))(k := None)
             \<and> map_of (oneshot_sent st') =
                 (\<lambda>w. if waiting st w k then Some (device_answer (dmsg_device_id msg) r)
                      else map_of (oneshot_sent st) w))
           else inflight_by_sequence st' = inflight_by_sequence st \<and> oneshot_sent st' = oneshot_sent st)
      | _ \<Rightarrow> inflight_by_sequence st' = inflight_by_sequence st \<and> oneshot_sent st' = oneshot_sent st)
     \<and> (case dmsg_payload msg of
          Some (Register req) \<Rightarrow>
            map_of (sessions_by_device_id st') =
              (if (\<exists>dp. authenticate_device_by_token (svc_auth_service svc) (dmsg_device_id msg) (dmsg_token msg) = Inr dp)
                  \<and> fst (allow_device (env_now env) (dmsg_device_id msg) (svc_connection_limiter svc))
                  \<and> is_healthy (env_sys env) (svc_resource_monitor svc)
               then (map_of (sessions_by_device_id st))(dmsg_device_id msg \<mapsto>
                 \<lparr>ds_device_id = dmsg_device_id msg, ds_connection_id = connection_id_of (connection_id_counter st),
                  ds_metadata = rr_metadata req, ds_outbound_tx = dst_out_tx ds\<rparr>)
               else map_of (sessions_by_device_id st))
        | _ \<Rightarrow> sessions_by_device_id st' = sessions_by_device_id st))"
proof (cases "dmsg_payload msg")
  case None
  then show ?thesis by (simp add: device_message_other Let_def)
next
  case (Some payload)
  then show ?thesis
  proof (cases payload)
    case (Register req)
    with Some show ?thesis by (auto simp: device_message_register registers_lookup Let_def)
  next
    case (Heartbeat h)
    with Some show ?thesis by (simp add: device_message_other Let_def)
  next
    case (Data r)
    with Some show ?thesis
      by (auto simp: device_message_data Let_def take_and_complete_sent fun_eq_iff)
  qed
qed

text \<open>
  C10. When a registered device stream ends, for whatever reason, exactly the requests in flight of
  its device end, each waiter being told DEVICE_OFFLINE for its own sequence number; exactly the
  streams of the device leave the table, and each controller among them that is not waiting for
  an answer is told; and the session is removed exactly when it is the one this stream
  registered. In particular a stream that a newer one has replaced still ends the newer
  session's requests and streams, although the session itself stays.
\<close>
theorem device_stream_end_exact:
  assumes "waiters_wf (svc_state svc)" "router_wf (svc_stream_router svc)" "dst_current_device_id ds = Some did"
  shows "let st = svc_state svc; svc' = device_stream_cleanup env reason ds svc; st' = svc_state svc' in
    map_of (inflight_by_sequence st') = (\<lambda>k. if fst k = did then None else map_of (inflight_by_sequence st) k)
    \<and> (\<forall>w seq. waiting st w (did, seq) \<longrightarrow>
         map_of (oneshot_sent st') w = Some (error_resp did seq DEVICE_OFFLINE))
    \<and> (\<forall>w. (\<forall>seq. \<not> waiting st w (did, seq)) \<longrightarrow>
         map_of (oneshot_sent st') w = map_of (oneshot_sent st) w)
    \<and> map_of (sr_mappings (svc_stream_router svc')) =
        (\<lambda>sid. case map_of (sr_mappings (svc_stream_router svc)) sid of
                 Some m \<Rightarrow> if sm_device_id m = did then None else Some m
               | None \<Rightarrow> None)
    \<and> set (svc_out svc') = set (svc_out svc) \<union>
        {ToController (sm_controller_tx m) (error_resp did 0 DEVICE_OFFLINE) |m.
           map_of (sr_mappings (svc_stream_router svc)) (sm_stream_id m) = Some m \<and> sm_device_id m = did
           \<and> sm_active_requests m = 0 \<and> \<not> env_closed env (sm_controller_tx m)}
    \<and> map_of (sessions_by_device_id st') =
        (if map_option ds_connection_id (map_of (sessions_by_device_id st) did) = dst_current_connection_id ds
         then (map_of (sessions_by_device_id st))(did := None) else map_of (sessions_by_device_id st))"
proof -
  let ?st = "svc_state svc" and ?svc' = "device_stream_cleanup env reason ds svc"
  let ?failed = "fail_inflight did (\<lambda>seq. error_resp did seq DEVICE_OFFLINE) ?st"
  have state: "inflight_by_sequence (svc_state ?svc') = inflight_by_sequence ?failed"
    "oneshot_sent (svc_state ?svc') = oneshot_sent ?failed"
    by (simp_all add: cleanup_state assms(3) Let_def remove_device_session_def split: option.split)
  have sessions: "map_of (sessions_by_device_id (svc_state ?svc')) =
      (if map_option ds_connection_id (map_of (sessions_by_device_id ?st) did) = dst_current_connection_id ds
       then (map_of (sessions_by_device_id ?st))(did := None) else map_of (sessions_by_device_id ?st))"
    by (cases "dst_current_connection_id ds"; cases "map_of (sessions_by_device_id ?st) did")
      (auto simp: cleanup_state assms(3) Let_def remove_device_session_def has_active_device_connection_def)
  have out: "set (svc_out ?svc') = set (svc_out svc) \<union>
        {ToController (sm_controller_tx m) (error_resp did 0 DEVICE_OFFLINE) |m.
           map_of (sr_mappings (svc_stream_router svc)) (sm_stream_id m) = Some m \<and> sm_device_id m = did
           \<and> sm_active_requests m = 0 \<and> \<not> env_closed env (sm_controller_tx m)}"
    using remove_all_result [OF assms(2), of _ did] by (auto simp: cleanup_out assms(3))
  show ?thesis
    unfolding Let_def state sessions out cleanup_router assms(3) option.case
    using fail_inflight_sent [OF assms(1)] fail_inflight_lookup [OF assms(1)] remove_all_lookup [OF assms(2)]
    by (simp add: fun_eq_iff)
qed

lemma sample_fresh: "fresh_service alist_lru sample_service"
  unfolding fresh_service_def sample_service_def by blast

lemma sample_waiting_wf:
  "waiters_wf (svc_state (sys_svc sample_waiting))" "router_wf (svc_stream_router (sys_svc sample_waiting))"
  using reach_state_ok [OF sample_waiting_reach sample_fresh] reach_streams_ok [OF sample_waiting_reach sample_fresh]
  by (simp_all add: state_ok_def state_wf_def streams_ok_def router_inv_def)

theorem device_stream_end_exact_witness:
  "map_of (inflight_by_sequence (svc_state (device_stream_cleanup (sample_env 5) ''closed'' sample_device (sys_svc sample_waiting))))
     (''d1'', 7) = None
   \<and> map_of (oneshot_sent (svc_state (device_stream_cleanup (sample_env 5) ''closed'' sample_device (sys_svc sample_waiting)))) 0
     = Some (error_resp ''d1'' 7 DEVICE_OFFLINE)"
proof -
  have "dst_current_device_id sample_device = Some ''d1''" by (simp add: sample_device_def)
  moreover have "waiting (svc_state (sys_svc sample_waiting)) 0 (''d1'', 7)"
    by (simp add: waiting_def sample_waiting_state)
  ultimately show ?thesis
    using device_stream_end_exact [OF sample_waiting_wf, of sample_device "''d1''" "sample_env 5" "''closed''"]
    unfolding Let_def by simp
qed

section \<open>Calls\<close>

text \<open>
  C13. Only an administrator revokes tokens, and the call does nothing else to who may come in: the
  revocation lists change exactly when the call carries credentials and a target, the
  credentials authenticate a controller with the role \<open>admin\<close>, and the target type is one of the
  two known ones; then exactly the target is added to the list of that type, and the call is
  answered with success exactly in this case.
\<close>
theorem revoke_token_admin_only:
  "let ok = (\<not> is_blank (rt_controller_id req) \<and> \<not> is_blank (rt_admin_token req)
       \<and> \<not> is_blank (rt_target_token_hash_or_prefix req)
       \<and> (\<exists>p. authenticate_controller (env_decode env) (svc_auth_service svc)
                (rt_controller_id req) (rt_admin_token req) = Inr p \<and> cp_role p = ''admin'')
       \<and> token_target_type_try_from (rt_target_type req) \<in> {Some CONTROLLER, Some DEVICE})
   in svc_auth_service (snd (revoke_token env req svc)) =
        (if \<not> ok then svc_auth_service svc
         else if token_target_type_try_from (rt_target_type req) = Some CONTROLLER
         then revoke_controller_token (rt_target_token_hash_or_prefix req) (svc_auth_service svc)
         else revoke_device_token (rt_target_token_hash_or_prefix req) (svc_auth_service svc))
      \<and> fst (revoke_token env req svc) \<in> range Inl \<union> {Inr True}
      \<and> (fst (revoke_token env req svc) = Inr True \<longleftrightarrow> ok)"
proof (cases "authenticate_controller (env_decode env) (svc_auth_service svc) (rt_controller_id req) (rt_admin_token req)")
  case (Inl e)
  then show ?thesis
    by (simp add: revoke_token_def missing_credentials_def unary_authenticate_def Let_def)
next
  case (Inr p)
  then show ?thesis
    by (simp add: revoke_token_def missing_credentials_def unary_authenticate_def Let_def
        split: option.split token_target_type.split)
qed

lemma device_visible_iff:
  "device_visible a p rf d \<longleftrightarrow>
     (is_blank rf \<or> (case map_of (di_metadata d) ''region'' of Some r \<Rightarrow> r | None \<Rightarrow> []) = rf)
     \<and> (cp_role p = ''admin''
        \<or> (\<exists>dp. get_device_principal_by_id a (di_device_id d) = Inr dp
             \<and> dp_project_id dp \<in> set (cp_allowed_project_ids p)))"
  by (cases "get_device_principal_by_id a (di_device_id d)") (auto simp: device_visible_def list_ex_iff)

lemma effect_address:
  "svc_relay_address (on_audit f svc) = svc_relay_address svc"
  "svc_relay_address (on_metrics g svc) = svc_relay_address svc"
  by (simp_all add: effect_defs)

text \<open>
  C14. The list of online devices: a call that succeeds was made by an authenticated controller and
  returns exactly the devices that have a session, are in the region asked for, and, unless the
  caller is an administrator, are configured for a project the caller may see.
\<close>
theorem list_online_exact:
  assumes "fst (list_online_devices env req svc) = Inr ds"
  shows "\<exists>p. authenticate_controller (env_decode env) (svc_auth_service svc) (lod_controller_id req) (lod_token req) = Inr p
    \<and> ds = map (\<lambda>s. \<lparr>di_device_id = ds_device_id s, di_connection_id = ds_connection_id s,
               di_relay_address = svc_relay_address svc, di_connected_at = 0, di_metadata = ds_metadata s\<rparr>)
        (filter (\<lambda>s. (is_blank (lod_region_filter req)
              \<or> (case map_of (ds_metadata s) ''region'' of Some r \<Rightarrow> r | None \<Rightarrow> []) = lod_region_filter req)
            \<and> (cp_role p = ''admin''
               \<or> (\<exists>dp. get_device_principal_by_id (svc_auth_service svc) (ds_device_id s) = Inr dp
                    \<and> dp_project_id dp \<in> set (cp_allowed_project_ids p))))
          (map snd (sessions_by_device_id (svc_state svc))))"
proof -
  obtain p where p: "authenticate_controller (env_decode env) (svc_auth_service svc) (lod_controller_id req) (lod_token req) = Inr p"
    using assms by (auto simp: list_online_devices_def unary_authenticate_def Let_def split: if_splits sum.splits)
  then have "ds = filter (device_visible (svc_auth_service svc) p (lod_region_filter req))
      (registry_list_online_devices (svc_relay_address svc) (svc_state svc))"
    using assms
    by (auto simp: list_online_devices_def unary_authenticate_def effect_address Let_def case_prod_unfold split: if_splits)
  with p show ?thesis
    by (simp add: registry_list_online_devices_def filter_map o_def device_visible_iff)
qed

lemma blank_empty: "is_blank []"
  by (simp add: is_blank_def trim_start.simps)

definition sample_list_request :: list_online_devices_request where
  "sample_list_request = \<lparr>lod_controller_id = ''c1'', lod_token = ''ct'', lod_region_filter = []\<rparr>"

lemma sample_list_runs:
  "fst (list_online_devices (sample_env 4) sample_list_request (sys_svc sample_connected)) =
     Inr [\<lparr>di_device_id = ''d1'', di_connection_id = ''conn-1'',
           di_relay_address = svc_relay_address (sys_svc sample_connected), di_connected_at = 0, di_metadata = []\<rparr>]"
proof -
  have "authenticate_controller (env_decode (sample_env 4)) (auth_service_new sample_token_config) ''c1'' ''ct''
      = Inr \<lparr>cp_controller_id = ''c1'', cp_role = ''operator'', cp_allowed_project_ids = [''p1'']\<rparr>"
    by (simp add: authenticate_controller_def sample_defs is_controller_token_revoked_def token_is_revoked_def Let_def)
  moreover have "get_device_principal_by_id (auth_service_new sample_token_config) ''d1''
      = Inr \<lparr>dp_device_id = ''d1'', dp_project_id = ''p1''\<rparr>"
    by (simp add: get_device_principal_by_id_def sample_defs Let_def)
  moreover have "fst (allow 4 ''*'' ''c1'' (rate_limiter_new default_rate_limit_config))"
    by (simp add: allow_def maybe_cleanup_def check_key_def refill_def sample_defs Let_def)
  ultimately show ?thesis
    by (simp add: list_online_devices_def unary_authenticate_def sample_list_request_def sample_not_blank
        sample_connected_service case_prod_unfold Let_def registry_list_online_devices_def device_visible_def
        effect_address sample_session_def blank_empty)
qed

theorem list_online_exact_witness:
  "\<exists>p. authenticate_controller (env_decode (sample_env 4)) (svc_auth_service (sys_svc sample_connected)) ''c1'' ''ct'' = Inr p
    \<and> [''d1''] = map ds_device_id
        (filter (\<lambda>s. cp_role p = ''admin''
               \<or> (\<exists>dp. get_device_principal_by_id (svc_auth_service (sys_svc sample_connected)) (ds_device_id s) = Inr dp
                    \<and> dp_project_id dp \<in> set (cp_allowed_project_ids p)))
          (map snd (sessions_by_device_id (svc_state (sys_svc sample_connected)))))"
proof -
  obtain p where p: "authenticate_controller (env_decode (sample_env 4)) (svc_auth_service (sys_svc sample_connected)) ''c1'' ''ct'' = Inr p"
    and l: "map di_device_id [\<lparr>di_device_id = ''d1'', di_connection_id = ''conn-1'',
        di_relay_address = svc_relay_address (sys_svc sample_connected), di_connected_at = 0, di_metadata = []\<rparr>] =
      map ds_device_id (filter (\<lambda>s. cp_role p = ''admin''
               \<or> (\<exists>dp. get_device_principal_by_id (svc_auth_service (sys_svc sample_connected)) (ds_device_id s) = Inr dp
                    \<and> dp_project_id dp \<in> set (cp_allowed_project_ids p)))
          (map snd (sessions_by_device_id (svc_state (sys_svc sample_connected)))))"
    using list_online_exact [OF sample_list_runs] by (auto simp: sample_list_request_def blank_empty comp_def)
  from p l show ?thesis by auto
qed

end
