(* ===== verification/Device_Sdk.thy ===== *)
theory Device_Sdk
  imports Relay_Proto "HOL-Library.Multiset"
begin

text \<open>
  The client library of the devices, \<^verbatim>\<open>crates/device-sdk\<close>: retry back-off, configuration, one
  connection to the relay and the loop that reconnects. What the network does is an argument:
  the outcome of dialling, the messages and the end of the response stream, whether the outbound
  channel is closed. The handler of the application is an argument as well. The \<open>f64\<close> arithmetic
  of the back-off is rounded as the machine rounds it.
\<close>

section \<open>Errors\<close>

datatype device_sdk_error =
    InvalidConfig string
  | Tonic string
  | Grpc string
  | SdkIo string
  | Time string
  | ConnectionClosed
  | MissingToken
  | RecoveryDisabled

section \<open>Back-off\<close>

record retry_backoff =
  rb_initial_seconds :: u64
  rb_max_seconds :: u64

definition retry_backoff_new :: "u64 \<Rightarrow> u64 \<Rightarrow> retry_backoff" where
  "retry_backoff_new initial_seconds max_seconds =
     (let initial = max initial_seconds 1
      in \<lparr>rb_initial_seconds = initial, rb_max_seconds = max max_seconds initial\<rparr>)"

definition saturating_pow2_u64 :: "nat \<Rightarrow> u64" where
  "saturating_pow2_u64 n = (if n < 64 then 2 ^ n else - 1)"

definition backoff_capped :: "retry_backoff \<Rightarrow> 32 word \<Rightarrow> u64" where
  "backoff_capped b attempt =
     (let base = saturating_mul_u64 (rb_initial_seconds b) (saturating_pow2_u64 (min (unat attempt) 30))
      in min base (rb_max_seconds b))"

text \<open>
  \<open>f64\<close>: an operation is the exact operation on the reals, rounded to 53 significant bits, to
  nearest and ties to even. Here all values are zero or positive and far from the smallest and
  the largest finite ones. \<open>as f64\<close> rounds; \<open>as u64\<close> cuts off and saturates.
\<close>

definition round_ties_even :: "real \<Rightarrow> int" where
  "round_ties_even y =
     (let f = \<lfloor>y\<rfloor>; d = y - of_int f
      in if d < 1 / 2 \<or> d = 1 / 2 \<and> even f then f else f + 1)"

definition f64_ulp :: "real \<Rightarrow> real" where
  "f64_ulp x = 2 powi (\<lfloor>log 2 x\<rfloor> - 52)"

definition f64_rnd :: "real \<Rightarrow> real" where
  "f64_rnd x = (if x \<le> 0 then 0 else of_int (round_ties_even (x / f64_ulp x)) * f64_ulp x)"

definition f64_of_u64 :: "u64 \<Rightarrow> real" where
  "f64_of_u64 n = f64_rnd (real (unat n))"

definition f64_to_u64 :: "real \<Rightarrow> u64" where
  "f64_to_u64 x = of_nat (min (nat \<lfloor>x\<rfloor>) (2 ^ 64 - 1))"

definition backoff_jitter :: "32 word \<Rightarrow> real" where
  "backoff_jitter attempt =
     (let x = (ucast attempt :: u64);
          hashed = x * 6364136223846793005 + 1442695040888963407;
          frac = f64_rnd (f64_of_u64 (hashed mod 1000) / 1000)
      in f64_rnd (1 / 2 + frac))"

definition next_sleep_seconds :: "retry_backoff \<Rightarrow> 32 word \<Rightarrow> u64" where
  "next_sleep_seconds b attempt =
     (let with_jitter =
            real_of_int (round (f64_rnd (f64_of_u64 (backoff_capped b attempt) * backoff_jitter attempt)));
          clamped = max 1 (min (f64_of_u64 (rb_max_seconds b)) with_jitter)
      in f64_to_u64 clamped)"

section \<open>Configuration\<close>

record relay_endpoint_config =
  tcp_addr :: string
  quic_addr :: "string option"

record transport_config =
  tc_max_payload_bytes :: nat
  enable_tcp_fallback :: bool

record device_sdk_config =
  sdk_relay :: relay_endpoint_config
  sdk_device_id :: string
  sdk_token :: string
  sdk_metadata :: metadata
  session_recovery_window_seconds :: u64
  sdk_heartbeat_interval_seconds :: u64
  backoff_initial_seconds :: u64
  backoff_max_seconds :: u64
  sdk_transport :: transport_config

definition default_recovery_window_seconds :: u64 where "default_recovery_window_seconds = 300"

definition default_heartbeat_interval_seconds :: u64 where "default_heartbeat_interval_seconds = 30"

definition default_backoff_initial_seconds :: u64 where "default_backoff_initial_seconds = 1"

definition default_backoff_max_seconds :: u64 where "default_backoff_max_seconds = 60"

definition default_max_payload_bytes :: nat where "default_max_payload_bytes = 10 * 1024 * 1024"

definition default_enable_tcp_fallback :: bool where "default_enable_tcp_fallback = True"

definition default_transport_config :: transport_config where
  "default_transport_config =
     \<lparr>tc_max_payload_bytes = default_max_payload_bytes, enable_tcp_fallback = default_enable_tcp_fallback\<rparr>"

definition validate_device_config :: "device_sdk_config \<Rightarrow> device_sdk_error + unit" where
  "validate_device_config c =
     (if is_blank (tcp_addr (sdk_relay c)) then Inl (InvalidConfig ''relay.tcp_addr must not be empty'')
      else if is_blank (sdk_device_id c) then Inl (InvalidConfig ''device_id must not be empty'')
      else if is_blank (sdk_token c) then Inl MissingToken
      else if sdk_heartbeat_interval_seconds c = 0
      then Inl (InvalidConfig ''heartbeat_interval_seconds must be greater than 0'')
      else if backoff_initial_seconds c = 0 \<or> backoff_max_seconds c = 0
      then Inl (InvalidConfig ''backoff settings must be greater than 0'')
      else if tc_max_payload_bytes (sdk_transport c) = 0
      then Inl (InvalidConfig ''transport.max_payload_bytes must be greater than 0'')
      else Inr ())"

text \<open>
  The environment is the list of its variables. \<open>parse::<u64>()\<close> and \<open>parse::<usize>()\<close> accept a
  leading plus sign; the texts are those of \<open>ParseIntError\<close> and \<open>ParseBoolError\<close>.
\<close>

type_synonym environment = "(string \<times> string) list"

fun parse_u64_digits :: "nat \<Rightarrow> string \<Rightarrow> string + nat" where
  "parse_u64_digits n [] = Inr n"
| "parse_u64_digits n (c # s) =
     (if \<not> is_digit c then Inl ''invalid digit found in string''
      else let n1 = n * 10 + (of_char c - 48)
           in if n1 < 2 ^ 64 then parse_u64_digits n1 s
              else Inl ''number too large to fit in target type'')"

definition parse_unsigned :: "string \<Rightarrow> string + nat" where
  "parse_unsigned s =
     (case s of
        [] \<Rightarrow> Inl ''cannot parse integer from empty string''
      | c # r \<Rightarrow> parse_u64_digits 0 (if c = CHR ''+'' \<and> r \<noteq> [] then r else s))"

definition read_u64_env :: "environment \<Rightarrow> string \<Rightarrow> u64 \<Rightarrow> device_sdk_error + u64" where
  "read_u64_env env name def_value =
     (case map_of env name of
        None \<Rightarrow> Inr def_value
      | Some v \<Rightarrow> (case parse_unsigned v of
                     Inl err \<Rightarrow> Inl (InvalidConfig (name @ '' must be u64: '' @ err))
                   | Inr n \<Rightarrow> Inr (of_nat n)))"

definition read_usize_env :: "environment \<Rightarrow> string \<Rightarrow> nat \<Rightarrow> device_sdk_error + nat" where
  "read_usize_env env name def_value =
     (case map_of env name of
        None \<Rightarrow> Inr def_value
      | Some v \<Rightarrow> (case parse_unsigned v of
                     Inl err \<Rightarrow> Inl (InvalidConfig (name @ '' must be usize: '' @ err))
                   | Inr n \<Rightarrow> Inr n))"

definition read_bool_env :: "environment \<Rightarrow> string \<Rightarrow> bool \<Rightarrow> device_sdk_error + bool" where
  "read_bool_env env name def_value =
     (case map_of env name of
        None \<Rightarrow> Inr def_value
      | Some v \<Rightarrow>
          (if v = ''true'' then Inr True else if v = ''false'' then Inr False
           else Inl (InvalidConfig (name @ '' must be bool: provided string was not `true` or `false`''))))"

definition to_ascii_lowercase :: "string \<Rightarrow> string" where
  "to_ascii_lowercase s =
     map (\<lambda>c. if 65 \<le> (of_char c :: nat) \<and> (of_char c :: nat) \<le> 90 then char_of (of_char c + 32 :: nat) else c) s"

text \<open>\<open>str::replace\<close> for a two-character pattern, from left to right.\<close>

fun replace2 :: "char \<Rightarrow> char \<Rightarrow> string \<Rightarrow> string \<Rightarrow> string" where
  "replace2 a b by [] = []"
| "replace2 a b by [c] = [c]"
| "replace2 a b by (c # d # s) =
     (if c = a \<and> d = b then by @ replace2 a b by s else c # replace2 a b by (d # s))"

definition metadata_from_env :: "environment \<Rightarrow> string \<Rightarrow> metadata" where
  "metadata_from_env env pre =
     fold (\<lambda>(key, val) m.
        if starts_with key pre
        then AList.update (replace2 (CHR ''_'') (CHR ''_'') ''.'' (to_ascii_lowercase (drop (length pre) key))) val m
        else m) env []"

definition require_env :: "environment \<Rightarrow> string \<Rightarrow> device_sdk_error + string" where
  "require_env env name =
     (case map_of env name of
        Some v \<Rightarrow> Inr v
      | None \<Rightarrow> Inl (InvalidConfig (name @ '' is required'')))"

definition bind_sum :: "'e + 'a \<Rightarrow> ('a \<Rightarrow> 'e + 'b) \<Rightarrow> 'e + 'b" where
  "bind_sum x f = (case x of Inl e \<Rightarrow> Inl e | Inr a \<Rightarrow> f a)"

definition device_config_from_env :: "environment \<Rightarrow> device_sdk_error + device_sdk_config" where
  "device_config_from_env env =
     bind_sum (require_env env ''RELAY_TCP_ADDR'') (\<lambda>relay_tcp_addr.
     bind_sum (require_env env ''DEVICE_ID'') (\<lambda>did.
     bind_sum (require_env env ''DEVICE_TOKEN'') (\<lambda>token.
     bind_sum (read_u64_env env ''SESSION_RECOVERY_WINDOW_SECONDS'' default_recovery_window_seconds) (\<lambda>window.
     bind_sum (read_u64_env env ''HEARTBEAT_INTERVAL_SECONDS'' default_heartbeat_interval_seconds) (\<lambda>hb.
     bind_sum (read_u64_env env ''BACKOFF_INITIAL_SECONDS'' default_backoff_initial_seconds) (\<lambda>b_initial.
     bind_sum (read_u64_env env ''BACKOFF_MAX_SECONDS'' default_backoff_max_seconds) (\<lambda>b_max.
     bind_sum (read_usize_env env ''MAX_PAYLOAD_BYTES'' default_max_payload_bytes) (\<lambda>max_payload.
     bind_sum (read_bool_env env ''ENABLE_TCP_FALLBACK'' default_enable_tcp_fallback) (\<lambda>fallback.
       let c = \<lparr>sdk_relay = \<lparr>tcp_addr = relay_tcp_addr, quic_addr = map_of env ''RELAY_QUIC_ADDR''\<rparr>,
                sdk_device_id = did, sdk_token = token,
                sdk_metadata = metadata_from_env env ''DEVICE_METADATA_'',
                session_recovery_window_seconds = window, sdk_heartbeat_interval_seconds = hb,
                backoff_initial_seconds = b_initial, backoff_max_seconds = b_max,
                sdk_transport = \<lparr>tc_max_payload_bytes = max_payload, enable_tcp_fallback = fallback\<rparr>\<rparr>
       in bind_sum (validate_device_config c) (\<lambda>_. Inr c))))))))))"

text \<open>\<open>DeviceSdkConfig::load\<close>: the \<open>config\<close> crate builds and deserialises, or reports an error.\<close>

definition load_device_config ::
  "(string \<Rightarrow> environment \<Rightarrow> string + device_sdk_config) \<Rightarrow> string \<Rightarrow> environment \<Rightarrow> device_sdk_error + device_sdk_config" where
  "load_device_config build path env =
     (case build path env of
        Inl err \<Rightarrow> Inl (InvalidConfig err)
      | Inr c \<Rightarrow> bind_sum (validate_device_config c) (\<lambda>_. Inr c))"

section \<open>One connection\<close>

text \<open>\<open>DeviceConnectClient::new\<close>; the application's handler is an argument of the steps that need it.\<close>

definition device_connect_client_new :: "device_sdk_config \<Rightarrow> device_sdk_error + device_sdk_config" where
  "device_connect_client_new c = bind_sum (validate_device_config c) (\<lambda>_. Inr c)"

definition normalize_http_uri :: "string \<Rightarrow> string" where
  "normalize_http_uri addr =
     (if starts_with addr ''http://'' \<or> starts_with addr ''https://'' then addr else ''http://'' @ addr)"

text \<open>
  The request context of the handler; \<open>received_at\<close> is not read again. \<open>anyhow::Error\<close> is left
  out: a failed handler call is \<^const>\<open>None\<close>.
\<close>

record data_request_context =
  ctx_device_id :: string
  ctx_connection_id :: string
  ctx_sequence_number :: int

definition MAX_CONCURRENT_DATA_HANDLERS :: nat where "MAX_CONCURRENT_DATA_HANDLERS = 64"

datatype heartbeat_task = HbNone | HbRunning string | HbStopped

text \<open>
  The local state of \<open>connect_once\<close>: the connection id, the heartbeat task, the handler tasks
  that hold a permit, the request for which the reader waits for a permit, and what has gone
  into the outbound channel.
\<close>

record device_client =
  dc_registered :: "string option"
  dc_heartbeat :: heartbeat_task
  dc_running :: "(data_request_context \<times> bytes) list"
  dc_blocked :: "(data_request_context \<times> bytes) option"
  dc_sent :: "device_message list"

datatype client_event =
    RelayMsg relay_message
  | RelayEnd
  | RelayError string
  | HandlerDone nat "bytes option"
  | HeartbeatTick int

datatype client_ctl = CContinue | CBreak | CFail device_sdk_error

definition device_data_message :: "device_sdk_config \<Rightarrow> string \<Rightarrow> int \<Rightarrow> bytes \<Rightarrow> error_code \<Rightarrow> device_message" where
  "device_data_message cfg cid seq payload code =
     \<lparr>dmsg_device_id = sdk_device_id cfg, dmsg_token = sdk_token cfg,
      dmsg_payload = Some (Data \<lparr>dresp_connection_id = cid, dresp_sequence_number = seq,
        dresp_encrypted_payload = payload, dresp_error = error_code_i32 code\<rparr>)\<rparr>"

text \<open>A send on the outbound channel is lost when the channel is closed.\<close>

definition client_send :: "bool \<Rightarrow> device_message \<Rightarrow> device_client \<Rightarrow> device_client" where
  "client_send shut m c = (if shut then c else c\<lparr>dc_sent := dc_sent c @ [m]\<rparr>)"

definition client_register_response :: "register_response \<Rightarrow> device_client \<Rightarrow> device_client" where
  "client_register_response r c =
     (let c1 = c\<lparr>dc_registered := Some (rresp_connection_id r)\<rparr>
      in if dc_heartbeat c1 = HbNone then c1\<lparr>dc_heartbeat := HbRunning (rresp_connection_id r)\<rparr> else c1)"

definition client_data_request ::
  "device_sdk_config \<Rightarrow> bool \<Rightarrow> data_request \<Rightarrow> device_client \<Rightarrow> client_ctl \<times> device_client" where
  "client_data_request cfg shut r c =
     (if tc_max_payload_bytes (sdk_transport cfg) < length (dreq_encrypted_payload r) then
        (if shut then (CFail ConnectionClosed, c)
         else (CContinue, client_send shut (device_data_message cfg (dreq_connection_id r)
                 (dreq_sequence_number r) [] INTERNAL_ERROR) c))
      else
        let ctx = \<lparr>ctx_device_id = sdk_device_id cfg, ctx_connection_id = dreq_connection_id r,
                   ctx_sequence_number = dreq_sequence_number r\<rparr>;
            task = (ctx, dreq_encrypted_payload r)
        in if length (dc_running c) < MAX_CONCURRENT_DATA_HANDLERS
           then (CContinue, c\<lparr>dc_running := dc_running c @ [task]\<rparr>)
           else (CContinue, c\<lparr>dc_blocked := Some task\<rparr>))"

definition client_relay_message ::
  "device_sdk_config \<Rightarrow> bool \<Rightarrow> relay_message \<Rightarrow> device_client \<Rightarrow> client_ctl \<times> device_client" where
  "client_relay_message cfg shut m c =
     (case rmsg_payload m of
        Some (RegisterResponse r) \<Rightarrow> (CContinue, client_register_response r c)
      | Some (HeartbeatResponse _) \<Rightarrow> (CContinue, c)
      | Some (DataRequest r) \<Rightarrow> client_data_request cfg shut r c
      | None \<Rightarrow> (CContinue, c))"

text \<open>A handler task ends: it answers and its permit lets the waiting request start.\<close>

definition client_handler_done ::
  "device_sdk_config \<Rightarrow> bool \<Rightarrow> data_request_context \<Rightarrow> nat \<Rightarrow> bytes option \<Rightarrow> device_client \<Rightarrow> device_client" where
  "client_handler_done cfg shut ctx i result c =
     (let (error_code, resp_bytes) = (case result of Some b \<Rightarrow> (OK, b) | None \<Rightarrow> (INTERNAL_ERROR, []));
          c1 = client_send shut (device_data_message cfg (ctx_connection_id ctx)
                 (ctx_sequence_number ctx) resp_bytes error_code) c;
          rest = take i (dc_running c) @ drop (Suc i) (dc_running c)
      in case dc_blocked c of
           None \<Rightarrow> c1\<lparr>dc_running := rest\<rparr>
         | Some task \<Rightarrow> c1\<lparr>dc_running := rest @ [task], dc_blocked := None\<rparr>)"

definition client_heartbeat ::
  "device_sdk_config \<Rightarrow> bool \<Rightarrow> int \<Rightarrow> string \<Rightarrow> device_client \<Rightarrow> device_client" where
  "client_heartbeat cfg shut now cid c =
     (if shut then c\<lparr>dc_heartbeat := HbStopped\<rparr>
      else client_send shut \<lparr>dmsg_device_id = sdk_device_id cfg, dmsg_token = sdk_token cfg,
             dmsg_payload = Some (Heartbeat \<lparr>hb_connection_id = cid, hb_timestamp = now\<rparr>)\<rparr> c)"

text \<open>
  One event. \<open>shut\<close> says whether the outbound channel is closed. The result is \<^const>\<open>None\<close> when
  the event cannot happen: the reader takes nothing from the response stream while it waits
  for a permit, and only a running task ends.
\<close>

fun client_step ::
  "device_sdk_config \<Rightarrow> bool \<Rightarrow> client_event \<Rightarrow> device_client \<Rightarrow> (client_ctl \<times> device_client) option" where
  "client_step cfg shut (RelayMsg m) c =
     (if dc_blocked c \<noteq> None then None else Some (client_relay_message cfg shut m c))"
| "client_step cfg shut RelayEnd c = (if dc_blocked c \<noteq> None then None else Some (CBreak, c))"
| "client_step cfg shut (RelayError status) c =
     (if dc_blocked c \<noteq> None then None
      else if dc_registered c \<noteq> None then Some (CBreak, c) else Some (CFail (Grpc status), c))"
| "client_step cfg shut (HandlerDone i result) c =
     (if i < length (dc_running c)
      then Some (CContinue, client_handler_done cfg shut (fst (dc_running c ! i)) i result c) else None)"
| "client_step cfg shut (HeartbeatTick now) c =
     (case dc_heartbeat c of
        HbRunning cid \<Rightarrow> Some (CContinue, client_heartbeat cfg shut now cid c)
      | _ \<Rightarrow> None)"

text \<open>The events up to the end of the loop; \<^const>\<open>None\<close> when the connection is still open.\<close>

fun client_run ::
  "device_sdk_config \<Rightarrow> (bool \<times> client_event) list \<Rightarrow> device_client
     \<Rightarrow> ((device_sdk_error + string) \<times> device_client) option" where
  "client_run cfg [] c = None"
| "client_run cfg ((shut, ev) # evs) c =
     (case client_step cfg shut ev c of
        None \<Rightarrow> None
      | Some (CContinue, c1) \<Rightarrow> client_run cfg evs c1
      | Some (CFail e, c1) \<Rightarrow> Some (Inl e, c1)
      | Some (CBreak, c1) \<Rightarrow>
          (case dc_registered c1 of
             Some cid \<Rightarrow> Some (Inr cid, c1)
           | None \<Rightarrow> Some (Inl ConnectionClosed, c1)))"

text \<open>
  The first message. The recovery window is compared in milliseconds of \<open>i64\<close>, with
  \<open>saturating_sub\<close> and \<open>saturating_mul\<close>.
\<close>

definition sat_i64 :: "int \<Rightarrow> int" where
  "sat_i64 i = max (- (2 ^ 63)) (min (2 ^ 63 - 1) i)"

definition recovery_window_ms :: "device_sdk_config \<Rightarrow> int" where
  "recovery_window_ms cfg =
     min (2 ^ 63 - 1) (int (unat (saturating_mul_u64 (session_recovery_window_seconds cfg) 1000)))"

definition previous_for_register ::
  "device_sdk_config \<Rightarrow> string option \<Rightarrow> int option \<Rightarrow> int \<Rightarrow> string option" where
  "previous_for_register cfg previous last_disconnect now_ms =
     (case previous of
        None \<Rightarrow> None
      | Some cid \<Rightarrow>
          (case last_disconnect of
             None \<Rightarrow> None
           | Some disconnect_ms \<Rightarrow>
               (if sat_i64 (now_ms - disconnect_ms) \<le> recovery_window_ms cfg then Some cid else None)))"

definition register_message ::
  "device_sdk_config \<Rightarrow> string option \<Rightarrow> int option \<Rightarrow> int \<Rightarrow> device_message" where
  "register_message cfg previous last_disconnect now_ms =
     \<lparr>dmsg_device_id = sdk_device_id cfg, dmsg_token = sdk_token cfg,
      dmsg_payload = Some (Register \<lparr>rr_device_id = sdk_device_id cfg, rr_metadata = sdk_metadata cfg,
        rr_previous_connection_id =
          (case previous_for_register cfg previous last_disconnect now_ms of Some cid \<Rightarrow> cid | None \<Rightarrow> [])\<rparr>)\<rparr>"

text \<open>Dialling: the URI, the transport, the call; then the response stream.\<close>

datatype dial_outcome = DialBadUri string | DialFailed string | DialRefused string | DialOk

definition device_client_new :: "device_message \<Rightarrow> device_client" where
  "device_client_new m =
     \<lparr>dc_registered = None, dc_heartbeat = HbNone, dc_running = [], dc_blocked = None, dc_sent = [m]\<rparr>"

definition connect_once ::
  "device_sdk_config \<Rightarrow> dial_outcome \<Rightarrow> string option \<Rightarrow> int option \<Rightarrow> int \<Rightarrow> bool
     \<Rightarrow> (bool \<times> client_event) list \<Rightarrow> (device_sdk_error + string) option" where
  "connect_once cfg dial previous last_disconnect now_ms shut evs =
     (case dial of
        DialBadUri e \<Rightarrow> Some (Inl (Tonic e))
      | DialFailed e \<Rightarrow> Some (Inl (Tonic e))
      | DialRefused status \<Rightarrow> Some (Inl (Grpc status))
      | DialOk \<Rightarrow>
          (if previous \<noteq> None \<and> session_recovery_window_seconds cfg = 0 then Some (Inl RecoveryDisabled)
           else if shut then Some (Inl ConnectionClosed)
           else map_option fst (client_run cfg evs
                  (device_client_new (register_message cfg previous last_disconnect now_ms)))))"

section \<open>The loop that reconnects\<close>

record run_state =
  rs_last_connection_id :: "string option"
  rs_last_disconnect_at_millis :: "int option"
  rs_attempt :: "32 word"

definition run_state_new :: run_state where
  "run_state_new = \<lparr>rs_last_connection_id = None, rs_last_disconnect_at_millis = None, rs_attempt = 0\<rparr>"

text \<open>\<open>u32::saturating_add(1)\<close>.\<close>

definition saturating_inc_u32 :: "32 word \<Rightarrow> 32 word" where
  "saturating_inc_u32 a = (if a = - 1 then a else a + 1)"

text \<open>What follows a connection: the loop stops with the error, or sleeps and goes on.\<close>

definition run_retry :: "device_sdk_config \<Rightarrow> int \<Rightarrow> run_state \<Rightarrow> u64 \<times> run_state" where
  "run_retry cfg now_ms rs =
     (let backoff = retry_backoff_new (backoff_initial_seconds cfg) (backoff_max_seconds cfg)
      in (next_sleep_seconds backoff (rs_attempt rs),
          rs\<lparr>rs_attempt := saturating_inc_u32 (rs_attempt rs), rs_last_disconnect_at_millis := Some now_ms\<rparr>))"

definition run_outcome ::
  "device_sdk_config \<Rightarrow> int \<Rightarrow> device_sdk_error + string \<Rightarrow> run_state \<Rightarrow> device_sdk_error + u64 \<times> run_state" where
  "run_outcome cfg now_ms outcome rs =
     (case outcome of
        Inr cid \<Rightarrow> Inr (run_retry cfg now_ms (rs\<lparr>rs_last_connection_id := Some cid, rs_attempt := 0\<rparr>))
      | Inl ConnectionClosed \<Rightarrow> Inr (run_retry cfg now_ms rs)
      | Inl (Grpc _) \<Rightarrow> Inr (run_retry cfg now_ms rs)
      | Inl e \<Rightarrow> Inl e)"

text \<open>
  A round of the loop: what the network does to one connection, and the two readings of the clock.
\<close>

record round_env =
  re_dial :: dial_outcome
  re_closed :: bool
  re_events :: "(bool \<times> client_event) list"
  re_connected_ms :: int
  re_ended_ms :: int

fun device_run ::
  "device_sdk_config \<Rightarrow> round_env list \<Rightarrow> run_state \<Rightarrow> u64 list \<times> (device_sdk_error + run_state)" where
  "device_run cfg [] rs = ([], Inr rs)"
| "device_run cfg (re # res) rs =
     (case connect_once cfg (re_dial re) (rs_last_connection_id rs) (rs_last_disconnect_at_millis rs)
             (re_connected_ms re) (re_closed re) (re_events re) of
        None \<Rightarrow> ([], Inr rs)
      | Some outcome \<Rightarrow>
          (case run_outcome cfg (re_ended_ms re) outcome rs of
             Inl e \<Rightarrow> ([], Inl e)
           | Inr (sleep, rs1) \<Rightarrow>
               (let (sleeps, result) = device_run cfg res rs1 in (sleep # sleeps, result))))"

section \<open>Facts about the back-off\<close>

lemma round_ties_even_error: "\<bar>of_int (round_ties_even y) - y\<bar> \<le> 1 / 2"
  unfolding round_ties_even_def Let_def by (auto simp: abs_if; linarith)

lemma round_ties_even_int [simp]: "round_ties_even (of_int n) = n"
  by (simp add: round_ties_even_def)

lemma f64_ulp_bounds:
  assumes "0 < x"
  shows "0 < f64_ulp x" "2 ^ 52 * f64_ulp x \<le> x" "x < 2 ^ 53 * f64_ulp x"
proof -
  let ?e = "\<lfloor>log 2 x\<rfloor>"
  have "2 powr of_int ?e \<le> x" using assms by (simp add: le_log_iff [symmetric])
  moreover have "x < 2 powr (of_int ?e + 1)" using assms by (simp add: log_less_iff [symmetric])
  moreover have "(2 :: real) powr of_int ?e = 2 powi ?e" "(2 :: real) powr (of_int ?e + 1) = 2 * 2 powi ?e"
    by (simp_all add: powr_real_of_int' powr_add)
  moreover have "f64_ulp x = 2 powi ?e / 2 ^ 52" by (simp add: f64_ulp_def power_int_diff)
  ultimately show "0 < f64_ulp x" "2 ^ 52 * f64_ulp x \<le> x" "x < 2 ^ 53 * f64_ulp x" by simp_all
qed

lemma f64_rnd_error:
  assumes "0 < x"
  shows "\<bar>f64_rnd x - x\<bar> \<le> x / 9007199254740992"
proof -
  let ?u = "f64_ulp x"
  note u = f64_ulp_bounds [OF assms]
  have "f64_rnd x - x = (of_int (round_ties_even (x / ?u)) - x / ?u) * ?u"
    using assms u(1) by (simp add: f64_rnd_def field_simps)
  then have "\<bar>f64_rnd x - x\<bar> = \<bar>of_int (round_ties_even (x / ?u)) - x / ?u\<bar> * ?u"
    using u(1) by (simp add: abs_mult)
  also have "\<dots> \<le> 1 / 2 * ?u"
    using u(1) by (intro mult_right_mono round_ties_even_error) simp
  also have "\<dots> \<le> x / 9007199254740992" using u(2) by simp
  finally show ?thesis .
qed

text \<open>A multiple of a power of two with at most 53 bits is not changed.\<close>

lemma f64_rnd_exact:
  assumes "n \<le> 2 ^ 53"
  shows "f64_rnd (real n / 2 ^ k) = real n / 2 ^ k"
proof (cases "n = 0")
  case False
  let ?x = "real n / 2 ^ k"
  have pos: "0 < ?x" using False by simp
  note u = f64_ulp_bounds [OF pos]
  define e where "e = \<lfloor>log 2 ?x\<rfloor> - 52"
  have ulp: "f64_ulp ?x = 2 powi e" by (simp add: f64_ulp_def e_def)
  have split: "(2 :: real) powi (e + int k) = 2 powi e * 2 ^ k" by (simp add: power_int_add)
  have "\<exists>z. ?x / f64_ulp ?x = of_int z"
  proof (cases "e + int k \<le> 0")
    case True
    define d where "d = nat (- (e + int k))"
    have "(2 :: real) powi (e + int k) = 1 / 2 ^ d"
      using True by (simp add: d_def power_int_def power_one_over inverse_eq_divide)
    then have "?x / f64_ulp ?x = real n * 2 ^ d" unfolding split ulp by (simp add: field_simps)
    also have "\<dots> = of_int (int n * 2 ^ d)" by simp
    finally show ?thesis by blast
  next
    case False
    define d where "d = nat (e + int k) - 1"
    have two: "(2 :: real) powi (e + int k) = 2 * 2 ^ d"
      using False by (simp add: d_def power_int_def power_Suc [symmetric] del: power_Suc)
    have "2 ^ 52 * (2 powi e * 2 ^ k) \<le> real n" using u(2) by (simp add: ulp field_simps)
    then have "9007199254740992 * 2 ^ d \<le> real n" unfolding split [symmetric] two by simp
    moreover have "real n \<le> 9007199254740992" using assms by simp
    moreover have "(1 :: real) \<le> 2 ^ d" by simp
    ultimately have "real n = 9007199254740992" "(2 :: real) ^ d = 1" by linarith+
    then have "?x / f64_ulp ?x = 2 ^ 52" using two unfolding split ulp by (simp add: field_simps)
    also have "\<dots> = of_int (2 ^ 52)" by simp
    finally show ?thesis by blast
  qed
  then obtain z where "?x / f64_ulp ?x = of_int z" by blast
  with pos u(1) show ?thesis by (simp add: f64_rnd_def) (simp add: field_simps)
qed (simp add: f64_rnd_def)

lemma f64_rnd_int: "n \<le> 2 ^ 53 \<Longrightarrow> f64_rnd (real n) = real n"
  using f64_rnd_exact [of n 0] by simp

lemma f64_rnd_ge_1:
  assumes "1 \<le> n"
  shows "1 \<le> f64_rnd (real n)"
proof (cases "n = 1")
  case True
  then show ?thesis using f64_rnd_int [of 1] by simp
next
  case False
  with assms have "2 \<le> real n" by simp
  with f64_rnd_error [of "real n"] show ?thesis by linarith
qed

lemma unat_saturating_pow2: "n \<le> 30 \<Longrightarrow> unat (saturating_pow2_u64 n) = 2 ^ n"
  by (simp add: saturating_pow2_u64_def unat_pow2_u64)

lemma backoff_new_facts:
  "unat (rb_initial_seconds (retry_backoff_new i m)) = max 1 (unat i)"
  "unat (rb_max_seconds (retry_backoff_new i m)) = max (max 1 (unat i)) (unat m)"
  by (simp_all add: retry_backoff_new_def unat_max_u64 Let_def max.commute)

lemma backoff_capped_eq:
  "unat (backoff_capped (retry_backoff_new i m) attempt) =
     min (max 1 (unat i) * 2 ^ min (unat attempt) 30) (max (max 1 (unat i)) (unat m))"
proof -
  have "max (max 1 (unat i)) (unat m) \<le> 2 ^ 64 - 1"
    using unat_less_u64 [of i] unat_less_u64 [of m] by simp
  then have "min (min p (2 ^ 64 - 1)) (max (max 1 (unat i)) (unat m)) = min p (max (max 1 (unat i)) (unat m))" for p
    by (simp only: min.assoc min_absorb2)
  then show ?thesis
    unfolding backoff_capped_def Let_def unat_min_u64 unat_saturating_mul backoff_new_facts
      unat_saturating_pow2 [OF min.cobounded2] .
qed

lemma backoff_jitter_bounds:
  "backoff_jitter attempt = 1 / 2 \<or> 1 / 2 + 9 / 10000 \<le> backoff_jitter attempt"
  "backoff_jitter attempt \<le> 3 / 2 - 9 / 10000"
proof -
  define h :: u64 where "h = ucast attempt * 6364136223846793005 + 1442695040888963407"
  define k where "k = unat (h mod 1000)"
  define frac where "frac = f64_rnd (real k / 1000)"
  have k: "k < 1000" by (simp add: k_def unat_mod_distrib)
  then have "f64_rnd (real k) = real k" by (intro f64_rnd_int) simp
  then have j: "backoff_jitter attempt = f64_rnd (1 / 2 + frac)"
    unfolding backoff_jitter_def Let_def h_def [symmetric] f64_of_u64_def k_def [symmetric] frac_def by simp
  have "backoff_jitter attempt = 1 / 2 \<or> 1 / 2 + 9 / 10000 \<le> backoff_jitter attempt \<and> backoff_jitter attempt \<le> 3 / 2 - 9 / 10000"
  proof (cases "k = 0")
    case True
    then have "frac = 0" by (simp add: frac_def f64_rnd_def)
    then show ?thesis using f64_rnd_exact [of 1 1] by (simp add: j)
  next
    case False
    with k have r: "1 / 1000 \<le> real k / 1000" "real k / 1000 \<le> 999 / 1000" by simp_all
    with f64_rnd_error [of "real k / 1000"] have "99 / 100000 \<le> frac" "frac \<le> 999 / 1000 + 1 / 100000"
      unfolding frac_def by linarith+
    moreover from this have "\<bar>f64_rnd (1 / 2 + frac) - (1 / 2 + frac)\<bar> \<le> (1 / 2 + frac) / 9007199254740992"
      by (intro f64_rnd_error) linarith
    ultimately have "1 / 2 + 9 / 10000 \<le> f64_rnd (1 / 2 + frac)" "f64_rnd (1 / 2 + frac) \<le> 3 / 2 - 9 / 10000"
      by argo+
    then show ?thesis unfolding j by blast
  qed
  then show "backoff_jitter attempt = 1 / 2 \<or> 1 / 2 + 9 / 10000 \<le> backoff_jitter attempt"
    "backoff_jitter attempt \<le> 3 / 2 - 9 / 10000" by auto
qed

text \<open>The jittered wait, rounded, stays between a half and one and a half of the wait.\<close>

lemma jittered_bounds:
  assumes "1 \<le> w" "w \<le> 2 ^ 53"
  shows "real w / 2 \<le> f64_rnd (f64_rnd (real w) * backoff_jitter attempt)"
    and "f64_rnd (f64_rnd (real w) * backoff_jitter attempt) \<le> 3 * real w / 2"
proof -
  let ?j = "backoff_jitter attempt"
  define x where "x = real w * ?j"
  have w: "f64_rnd (real w) * ?j = x" using f64_rnd_int [OF assms(2)] by (simp add: x_def)
  have pos: "1 \<le> real w" using assms(1) by simp
  have err: "\<bar>f64_rnd x - x\<bar> \<le> x / 9007199254740992"
    using pos backoff_jitter_bounds(1) [of attempt] unfolding x_def by (intro f64_rnd_error) auto
  have up: "x \<le> real w * (3 / 2 - 9 / 10000)"
    using pos backoff_jitter_bounds(2) [of attempt] unfolding x_def by (intro mult_left_mono) auto
  with err pos show "f64_rnd (f64_rnd (real w) * ?j) \<le> 3 * real w / 2" unfolding w by argo
  from backoff_jitter_bounds(1) [of attempt] show "real w / 2 \<le> f64_rnd (f64_rnd (real w) * ?j)"
  proof
    assume "?j = 1 / 2"
    then have x: "x = real w / 2 ^ 1" by (simp add: x_def)
    show ?thesis unfolding w x f64_rnd_exact [OF assms(2)] by simp
  next
    assume "1 / 2 + 9 / 10000 \<le> ?j"
    then have "real w * (1 / 2 + 9 / 10000) \<le> x" using pos unfolding x_def by (intro mult_left_mono) auto
    with err up pos show ?thesis unfolding w by argo
  qed
qed

lemma half_round: "real n / 2 \<le> real_of_int (round (real n / 2))"
proof (cases "even n")
  case True
  then obtain k where "n = 2 * k" by (rule evenE)
  then show ?thesis by simp
next
  case False
  then obtain k where "n = 2 * k + 1" by (rule oddE)
  then have "real n / 2 + 1 / 2 = real_of_int (int k + 1)" by (simp add: field_simps)
  then have "round (real n / 2) = int k + 1" unfolding round_def by (simp only: floor_of_int)
  with \<open>n = 2 * k + 1\<close> show ?thesis by simp
qed

lemma f64_to_u64_int:
  assumes "0 \<le> y" "y < 2 ^ 64"
  shows "unat (f64_to_u64 (of_int y)) = nat y"
proof -
  have y: "nat y \<le> 2 ^ 64 - 1" using assms by simp
  then have "nat y mod 2 ^ 64 = nat y" by (intro mod_less) simp
  with y show ?thesis unfolding f64_to_u64_def floor_of_int min_absorb1 [OF y] by (simp add: unsigned_of_nat take_bit_eq_mod)
qed

lemma f64_to_u64_ge_1: "1 \<le> x \<Longrightarrow> 1 \<le> unat (f64_to_u64 x)"
proof -
  assume "1 \<le> x"
  then have "1 \<le> nat \<lfloor>x\<rfloor>" by linarith
  then have one: "1 \<le> min (nat \<lfloor>x\<rfloor>) (2 ^ 64 - 1)" by simp
  have "unat (f64_to_u64 x) = min (nat \<lfloor>x\<rfloor>) (2 ^ 64 - 1)"
    unfolding f64_to_u64_def by (simp add: unsigned_of_nat take_bit_eq_mod)
  with one show ?thesis by simp
qed

text \<open>
  C36. The wait before a reconnection. Whatever the configuration and however many attempts have
  failed, it is at least one second. When the configured maximum (taken as at least the initial
  wait and one second) is at most \<open>2 ^ 53\<close> seconds, so that it is an \<open>f64\<close>, the wait is at most
  this maximum and lies between half and one and a half of the wait that doubles with every
  attempt up to the maximum, the rounding of the \<open>f64\<close> operations included; no step overflows.
\<close>
theorem sdk_backoff_bounded:
  "let b = retry_backoff_new i m; s = unat (next_sleep_seconds b attempt);
       top = max (max 1 (unat i)) (unat m); w = min (max 1 (unat i) * 2 ^ min (unat attempt) 30) top
   in 1 \<le> s \<and> (top \<le> 2 ^ 53 \<longrightarrow> s \<le> top \<and> w \<le> 2 * s \<and> 2 * s \<le> 3 * w + 1)"
proof -
  let ?b = "retry_backoff_new i m"
  define top where "top = max (max 1 (unat i)) (unat m)"
  define w where "w = min (max 1 (unat i) * 2 ^ min (unat attempt) 30) top"
  define x where "x = f64_rnd (f64_rnd (real w) * backoff_jitter attempt)"
  have top: "1 \<le> top" by (simp add: top_def)
  have w: "1 \<le> w" "w \<le> top" using top by (auto simp: w_def)
  have s: "next_sleep_seconds ?b attempt = f64_to_u64 (max 1 (min (f64_rnd (real top)) (real_of_int (round x))))"
    unfolding next_sleep_seconds_def Let_def f64_of_u64_def backoff_new_facts(2) backoff_capped_eq x_def w_def top_def ..
  have "1 \<le> unat (next_sleep_seconds ?b attempt)" unfolding s by (rule f64_to_u64_ge_1) simp
  moreover have "unat (next_sleep_seconds ?b attempt) \<le> top \<and> w \<le> 2 * unat (next_sleep_seconds ?b attempt)
      \<and> 2 * unat (next_sleep_seconds ?b attempt) \<le> 3 * w + 1" if small: "top \<le> 2 ^ 53"
  proof -
    define y where "y = max 1 (min (int top) (round x))"
    have "max 1 (min (f64_rnd (real top)) (real_of_int (round x))) = of_int y"
      using f64_rnd_int [OF small] by (auto simp: y_def max_def min_def)
    then have sy: "unat (next_sleep_seconds ?b attempt) = nat y"
      unfolding s using small by (simp only:) (rule f64_to_u64_int; simp add: y_def)
    have "w \<le> 2 ^ 53" using small w(2) by simp
    note x = jittered_bounds [OF w(1) this, of attempt, folded x_def]
    have "round (real w / 2) \<le> round x" using x(1) by (rule round_mono)
    moreover have "real w / 2 \<le> real_of_int (round (real w / 2))" by (rule half_round)
    ultimately have lo: "int w \<le> 2 * round x" by linarith
    have hi: "2 * round x \<le> 3 * int w + 1" using of_int_round_le [of x] x(2) by linarith
    have "1 \<le> y" "y \<le> int top" "int w \<le> 2 * y" "2 * y \<le> 3 * int w + 1"
      using top w lo hi by (auto simp: y_def max_def min_def)
    then show ?thesis unfolding sy by linarith
  qed
  ultimately show ?thesis unfolding Let_def top_def w_def by blast
qed

theorem sdk_backoff_bounded_witness:
  "unat (next_sleep_seconds (retry_backoff_new 1 60) 10) \<le> 60
   \<and> 30 \<le> unat (next_sleep_seconds (retry_backoff_new 1 60) 10)"
  using sdk_backoff_bounded [of 1 60 10] by (simp add: Let_def)

text \<open>Above \<open>2 ^ 53\<close> the maximum itself is rounded, and the wait can be one second longer than it.\<close>

lemma f64_rnd_above_2_53: "f64_rnd 9007199254740995 = 9007199254740996"
proof -
  have "\<lfloor>log 2 9007199254740995 :: real\<rfloor> = 53"
    by (rule floor_unique) (simp_all add: le_log_iff log_less_iff powr_numeral powr_realpow)
  then have "f64_ulp 9007199254740995 = 2" by (simp add: f64_ulp_def)
  moreover have "round_ties_even (9007199254740995 / 2) = 4503599627370498"
    by (simp add: round_ties_even_def)
  ultimately show ?thesis by (simp add: f64_rnd_def)
qed

lemma backoff_above_max:
  "unat (next_sleep_seconds (retry_backoff_new 9007199254740995 9007199254740995) 3) = 9007199254740996"
proof -
  let ?b = "retry_backoff_new 9007199254740995 9007199254740995" and ?m = "9007199254740996 :: real"
  have f: "f64_of_u64 (rb_max_seconds ?b) = ?m" "f64_of_u64 (backoff_capped ?b 3) = ?m"
    unfolding f64_of_u64_def backoff_new_facts(2) backoff_capped_eq by (simp_all add: f64_rnd_above_2_53)
  have "(ucast (3 :: 32 word) * 6364136223846793005 + 1442695040888963407 :: u64) mod 1000 = 806" by simp
  then have j: "backoff_jitter 3 = f64_rnd (1 / 2 + f64_rnd (806 / 1000))"
    unfolding backoff_jitter_def Let_def f64_of_u64_def using f64_rnd_int [of 806] by simp
  have "8 / 10 \<le> f64_rnd (806 / 1000)" using f64_rnd_error [of "806 / 1000"] by argo
  moreover from this have "\<bar>f64_rnd (1 / 2 + f64_rnd (806 / 1000)) - (1 / 2 + f64_rnd (806 / 1000))\<bar>
      \<le> (1 / 2 + f64_rnd (806 / 1000)) / 9007199254740992" by (intro f64_rnd_error) argo
  ultimately have "12 / 10 \<le> backoff_jitter 3" unfolding j by argo
  then have x: "?m * (12 / 10) \<le> ?m * backoff_jitter 3" by (intro mult_left_mono) auto
  moreover from this have "\<bar>f64_rnd (?m * backoff_jitter 3) - ?m * backoff_jitter 3\<bar>
      \<le> ?m * backoff_jitter 3 / 9007199254740992" by (intro f64_rnd_error) argo
  ultimately have "?m \<le> f64_rnd (?m * backoff_jitter 3)" by argo
  then have "?m \<le> real_of_int (round (f64_rnd (?m * backoff_jitter 3)))"
    using round_mono [of ?m "f64_rnd (?m * backoff_jitter 3)"] by simp
  then have "next_sleep_seconds ?b 3 = f64_to_u64 (of_int 9007199254740996)"
    unfolding next_sleep_seconds_def Let_def f by (simp add: max_def min_absorb1)
  then show ?thesis using f64_to_u64_int [of 9007199254740996] by simp
qed

section \<open>Every request is answered once\<close>

definition request_keys :: "client_event \<Rightarrow> (string \<times> int) list" where
  "request_keys ev =
     (case ev of
        RelayMsg m \<Rightarrow>
          (case rmsg_payload m of
             Some (DataRequest r) \<Rightarrow> [(dreq_connection_id r, dreq_sequence_number r)]
           | _ \<Rightarrow> [])
      | _ \<Rightarrow> [])"

definition answer_keys :: "device_message list \<Rightarrow> (string \<times> int) list" where
  "answer_keys ms =
     concat (map (\<lambda>m. case dmsg_payload m of
        Some (Data r) \<Rightarrow> [(dresp_connection_id r, dresp_sequence_number r)] | _ \<Rightarrow> []) ms)"

definition task_key :: "data_request_context \<times> bytes \<Rightarrow> string \<times> int" where
  "task_key t = (ctx_connection_id (fst t), ctx_sequence_number (fst t))"

text \<open>The states of an open connection with the outbound channel open.\<close>

fun client_exec :: "device_sdk_config \<Rightarrow> client_event list \<Rightarrow> device_client \<Rightarrow> device_client option" where
  "client_exec cfg [] c = Some c"
| "client_exec cfg (ev # evs) c =
     (case client_step cfg False ev c of
        Some (CContinue, c1) \<Rightarrow> client_exec cfg evs c1
      | _ \<Rightarrow> None)"

definition client_ok :: "(string \<times> int) list \<Rightarrow> device_client \<Rightarrow> bool" where
  "client_ok recv c \<longleftrightarrow>
     length (dc_running c) \<le> MAX_CONCURRENT_DATA_HANDLERS
     \<and> (dc_blocked c = None \<or> length (dc_running c) = MAX_CONCURRENT_DATA_HANDLERS)
     \<and> mset recv = mset (answer_keys (dc_sent c)) + mset (map task_key (dc_running c))
         + (case dc_blocked c of None \<Rightarrow> {#} | Some t \<Rightarrow> {#task_key t#})"

lemma answer_keys_simps [simp]:
  "answer_keys (ms @ [device_data_message cfg cid sq p e]) = answer_keys ms @ [(cid, sq)]"
  "answer_keys [register_message cfg prev ld now] = []"
  by (simp_all add: answer_keys_def device_data_message_def register_message_def)

lemma answer_keys_heartbeat:
  "dmsg_payload m = Some (Heartbeat h) \<Longrightarrow> answer_keys (ms @ [m]) = answer_keys ms"
  by (simp add: answer_keys_def)

lemma mset_remove_nth:
  "i < length xs \<Longrightarrow> mset xs = mset (take i xs) + mset (drop (Suc i) xs) + {#xs ! i#}"
  by (metis Cons_nth_drop_Suc add_mset_add_single append_take_drop_id mset.simps(2) mset_append union_mset_add_mset_right)

lemma client_ok_request:
  assumes "client_ok recv c" "dc_blocked c = None" "client_data_request cfg False r c = (CContinue, c1)"
  shows "client_ok (recv @ [(dreq_connection_id r, dreq_sequence_number r)]) c1"
  using assms
  by (auto simp: client_data_request_def client_ok_def client_send_def task_key_def Let_def
      MAX_CONCURRENT_DATA_HANDLERS_def split: if_splits)

lemma client_ok_done:
  assumes "client_ok recv c" "i < length (dc_running c)"
  shows "client_ok recv (client_handler_done cfg False (fst (dc_running c ! i)) i result c)"
proof -
  let ?rest = "take i (dc_running c) @ drop (Suc i) (dc_running c)"
  have len: "Suc (length ?rest) = length (dc_running c)" using assms(2) by simp
  have ms: "mset (map task_key (dc_running c)) = mset (map task_key ?rest) + {#task_key (dc_running c ! i)#}"
    using arg_cong [OF mset_remove_nth [OF assms(2)], of "image_mset task_key"] by simp
  show ?thesis
    using assms(1) len ms
    by (cases "dc_blocked c"; cases result)
      (auto simp: client_handler_done_def client_ok_def client_send_def task_key_def Let_def)
qed

lemma client_ok_step:
  assumes "client_ok recv c" "client_step cfg False ev c = Some (CContinue, c1)"
  shows "client_ok (recv @ request_keys ev) c1"
proof (cases ev)
  case (RelayMsg m)
  show ?thesis
  proof (cases "\<exists>r. rmsg_payload m = Some (DataRequest r)")
    case True
    then obtain r where "rmsg_payload m = Some (DataRequest r)" by blast
    with RelayMsg assms(2) client_ok_request [OF assms(1), of cfg r c1] show ?thesis
      by (cases "dc_blocked c") (simp_all add: client_relay_message_def request_keys_def)
  next
    case False
    with RelayMsg assms show ?thesis
      by (auto simp: client_relay_message_def request_keys_def client_register_response_def client_ok_def Let_def
          split: if_splits option.splits relay_payload.splits)
  qed
next
  case (HandlerDone i result)
  with assms show ?thesis by (auto simp: request_keys_def intro: client_ok_done split: if_splits)
next
  case (HeartbeatTick now)
  with assms show ?thesis
    by (auto simp: request_keys_def client_heartbeat_def client_send_def client_ok_def answer_keys_heartbeat
        split: heartbeat_task.splits)
qed (use assms in \<open>auto split: if_splits\<close>)

lemma client_exec_ok:
  assumes "client_ok recv c" "client_exec cfg evs c = Some c1"
  shows "client_ok (recv @ concat (map request_keys evs)) c1"
  using assms
proof (induction evs arbitrary: recv c)
  case (Cons ev evs)
  then obtain c2 where "client_step cfg False ev c = Some (CContinue, c2)" "client_exec cfg evs c2 = Some c1"
    by (auto split: option.splits client_ctl.splits)
  with Cons.IH [OF client_ok_step [OF Cons.prems(1)]] show ?case by simp
qed simp

text \<open>
  C21. While a device is connected, every data request it received has been answered exactly once,
  under its own connection id and sequence number, or is with exactly one handler, or is the
  one request that waits for a handler to become free; and at most 64 handlers run.
\<close>
theorem sdk_requests_answered:
  assumes "client_exec cfg evs (device_client_new (register_message cfg previous last_disconnect now)) = Some c"
  shows "length (dc_running c) \<le> 64
    \<and> mset (concat (map request_keys evs)) = mset (answer_keys (dc_sent c)) + mset (map task_key (dc_running c))
        + (case dc_blocked c of None \<Rightarrow> {#} | Some t \<Rightarrow> {#task_key t#})"
proof -
  have "client_ok [] (device_client_new (register_message cfg previous last_disconnect now))"
    by (simp add: client_ok_def device_client_new_def)
  from client_exec_ok [OF this assms] show ?thesis
    by (simp add: client_ok_def MAX_CONCURRENT_DATA_HANDLERS_def)
qed

definition sample_device_config :: device_sdk_config where
  "sample_device_config =
     \<lparr>sdk_relay = \<lparr>tcp_addr = ''relay:1'', quic_addr = None\<rparr>, sdk_device_id = ''d1'', sdk_token = ''dt'',
      sdk_metadata = [], session_recovery_window_seconds = 300, sdk_heartbeat_interval_seconds = 30,
      backoff_initial_seconds = 1, backoff_max_seconds = 60, sdk_transport = default_transport_config\<rparr>"

definition sample_client_events :: "client_event list" where
  "sample_client_events =
     [RelayMsg (relay_message_register_response ''conn-1'' False),
      RelayMsg (relay_message_data_request ''conn-1'' 7 [1, 2]),
      RelayMsg (relay_message_data_request ''conn-1'' 8 [3]),
      HandlerDone 0 (Some [42])]"

theorem sdk_requests_answered_witness:
  "\<exists>c. client_exec sample_device_config sample_client_events
         (device_client_new (register_message sample_device_config None None 0)) = Some c
     \<and> length (dc_running c) \<le> 64 \<and> answer_keys (dc_sent c) = [(''conn-1'', 7)]
     \<and> {#(''conn-1'', 7), (''conn-1'', 8)#} = mset (answer_keys (dc_sent c)) + mset (map task_key (dc_running c))
         + (case dc_blocked c of None \<Rightarrow> {#} | Some t \<Rightarrow> {#task_key t#})"
proof -
  obtain c where c: "client_exec sample_device_config sample_client_events
      (device_client_new (register_message sample_device_config None None 0)) = Some c"
    "answer_keys (dc_sent c) = [(''conn-1'', 7)]"
    by (simp add: sample_client_events_def client_relay_message_def relay_message_register_response_def
        relay_message_data_request_def client_register_response_def client_data_request_def
        client_handler_done_def client_send_def sample_device_config_def device_client_new_def
        default_transport_config_def default_max_payload_bytes_def MAX_CONCURRENT_DATA_HANDLERS_def Let_def)
      (simp add: answer_keys_def device_data_message_def register_message_def)
  have "concat (map request_keys sample_client_events) = [(''conn-1'', 7), (''conn-1'', 8)]"
    by (simp add: sample_client_events_def request_keys_def relay_message_register_response_def
        relay_message_data_request_def)
  with c sdk_requests_answered [OF c(1)] show ?thesis by auto
qed

section \<open>When the loop stops\<close>

lemma client_run_errors:
  "client_run cfg evs c = Some (Inl e, c1) \<Longrightarrow> e = ConnectionClosed \<or> (\<exists>status. e = Grpc status)"
proof (induction cfg evs c rule: client_run.induct)
  case (2 cfg shut ev evs c)
  have "client_step cfg shut ev c = Some (CFail e, c2) \<Longrightarrow> e = ConnectionClosed \<or> (\<exists>status. e = Grpc status)" for e c2
    by (cases ev) (auto simp: client_relay_message_def client_data_request_def Let_def
        split: if_splits option.splits relay_payload.splits heartbeat_task.splits)
  with 2 show ?case by (auto split: option.splits client_ctl.splits)
qed simp

text \<open>Of one round of the loop:\<close>

lemma device_round_stops:
  "(\<exists>e. snd (device_run cfg [re] rs) = Inl e) \<longleftrightarrow>
     re_dial re \<in> range DialBadUri \<union> range DialFailed
     \<or> re_dial re = DialOk \<and> rs_last_connection_id rs \<noteq> None \<and> session_recovery_window_seconds cfg = 0"
proof (cases "re_dial re")
  case DialOk
  let ?c = "device_client_new (register_message cfg (rs_last_connection_id rs) (rs_last_disconnect_at_millis rs) (re_connected_ms re))"
  show ?thesis
  proof (cases "client_run cfg (re_events re) ?c")
    case None
    with DialOk show ?thesis by (auto simp: connect_once_def run_outcome_def case_prod_unfold)
  next
    case (Some r)
    have "\<not> (\<exists>e. snd (device_run cfg [re] rs) = Inl e)"
      if "rs_last_connection_id rs = None \<or> session_recovery_window_seconds cfg \<noteq> 0"
      using that DialOk Some client_run_errors [of cfg "re_events re" ?c _ "snd r"]
      by (cases "fst r") (auto simp: connect_once_def run_outcome_def case_prod_unfold prod_eq_iff)
    moreover have "\<exists>e. snd (device_run cfg [re] rs) = Inl e"
      if "rs_last_connection_id rs \<noteq> None" "session_recovery_window_seconds cfg = 0"
      using that DialOk by (auto simp: connect_once_def run_outcome_def)
    ultimately show ?thesis using DialOk by auto
  qed
qed (auto simp: connect_once_def run_outcome_def case_prod_unfold)

lemma device_run_Cons:
  "snd (device_run cfg (re # res) rs) =
     (case snd (device_run cfg [re] rs) of
        Inl e \<Rightarrow> Inl e
      | Inr rs1 \<Rightarrow> if fst (device_run cfg [re] rs) = [] then Inr rs1 else snd (device_run cfg res rs1))"
  by (auto simp: case_prod_unfold Let_def split: option.splits sum.splits)

lemma device_run_goes_on:
  assumes "\<forall>re \<in> set res. re_dial re \<notin> range DialBadUri \<union> range DialFailed" "session_recovery_window_seconds cfg \<noteq> 0"
  shows "\<exists>rs1. snd (device_run cfg res rs) = Inr rs1"
  using assms
proof (induction res arbitrary: rs)
  case (Cons re res)
  then have "\<not> (\<exists>e. snd (device_run cfg [re] rs) = Inl e)" unfolding device_round_stops by simp
  with Cons show ?case
    by (cases "snd (device_run cfg [re] rs)") (simp_all add: device_run_Cons [of cfg re res rs] del: device_run.simps(2))
qed simp

text \<open>
  C22. The loop that is to keep the device connected for good stops exactly when the relay cannot be
  dialled (an invalid address or any transport error, also during a short outage of the relay),
  or when the recovery window is 0 and the device had been connected before; every other way a
  connection ends leads to a wait and a new attempt. So with a recovery window and a relay that can
  always be dialled, the loop runs for as long as one likes, whatever happens to its connections.
\<close>
theorem device_run_stops_iff:
  "((\<exists>e. snd (device_run cfg [re] rs) = Inl e) \<longleftrightarrow>
     re_dial re \<in> range DialBadUri \<union> range DialFailed
     \<or> re_dial re = DialOk \<and> rs_last_connection_id rs \<noteq> None \<and> session_recovery_window_seconds cfg = 0)
   \<and> ((\<forall>re \<in> set res. re_dial re \<notin> range DialBadUri \<union> range DialFailed) \<and> session_recovery_window_seconds cfg \<noteq> 0
      \<longrightarrow> (\<exists>rs1. snd (device_run cfg res rs) = Inr rs1))"
  by (simp only: device_round_stops) (blast intro: device_run_goes_on)

theorem device_run_stops_iff_witness:
  "\<exists>rs1. snd (device_run sample_device_config
     (replicate 1000 \<lparr>re_dial = DialRefused ''unavailable'', re_closed = False, re_events = [],
        re_connected_ms = 0, re_ended_ms = 1\<rparr>) run_state_new) = Inr rs1"
  using device_run_stops_iff [of sample_device_config undefined run_state_new
      "replicate 1000 \<lparr>re_dial = DialRefused ''unavailable'', re_closed = False, re_events = [],
        re_connected_ms = 0, re_ended_ms = 1\<rparr>"]
  by (auto simp: sample_device_config_def)

end
