(* ===== verification/Controller_Sdk.thy ===== *)
theory Controller_Sdk
  imports Relay_Proto
begin

text \<open>
  The client library of the controllers, \<^verbatim>\<open>crates/controller-sdk\<close>: configuration, the table of
  pending requests, a session with a device, and the unary calls. The network is an argument:
  whether the outbound channel is closed, the responses that come in, what a call returns.
\<close>

section \<open>Errors and configuration\<close>

datatype controller_sdk_error =
    CtlInvalidConfig string
  | CtlTransport string
  | CtlGrpc string
  | CtlUnauthorized
  | CtlDeviceOffline
  | CtlDeviceNotFound
  | CtlRateLimited
  | CtlPayloadTooLarge
  | CtlInternalError
  | CtlStreamClosed
  | CtlSequenceResponseNotFound

record controller_sdk_config =
  csdk_relay_address :: string
  csdk_controller_id :: string
  csdk_token :: string
  csdk_max_payload_bytes :: nat

definition csdk_default_max_payload_bytes :: nat where
  "csdk_default_max_payload_bytes = 10 * 1024 * 1024"

definition validate_controller_config :: "controller_sdk_config \<Rightarrow> controller_sdk_error + unit" where
  "validate_controller_config c =
     (if is_blank (csdk_relay_address c) then Inl (CtlInvalidConfig ''relay_address must not be empty'')
      else if is_blank (csdk_controller_id c) then Inl (CtlInvalidConfig ''controller_id must not be empty'')
      else if is_blank (csdk_token c) then Inl (CtlInvalidConfig ''token must not be empty'')
      else if csdk_max_payload_bytes c = 0 then Inl (CtlInvalidConfig ''max_payload_bytes must be > 0'')
      else Inr ())"

text \<open>\<open>str::trim\<close>: the white space at both ends goes.\<close>

fun trim_end :: "string \<Rightarrow> string" where
  "trim_end [] = []"
| "trim_end (c # s) = (if is_blank (c # s) then [] else c # trim_end s)"

definition normalized_endpoint :: "controller_sdk_config \<Rightarrow> string" where
  "normalized_endpoint c =
     (let addr = trim_end (trim_start (csdk_relay_address c))
      in if starts_with addr ''http://'' \<or> starts_with addr ''https://'' then addr else ''https://'' @ addr)"

definition csdk_parse_usize :: "string \<Rightarrow> nat option" where
  "csdk_parse_usize s =
     (case parse_digits (case s of c # r \<Rightarrow> if c = CHR ''+'' then r else s | [] \<Rightarrow> []) of
        Some n \<Rightarrow> if n < 2 ^ 64 then Some n else None
      | None \<Rightarrow> None)"

definition csdk_require :: "(string \<times> string) list \<Rightarrow> string \<Rightarrow> controller_sdk_error + string" where
  "csdk_require env name =
     (case map_of env name of Some v \<Rightarrow> Inr v | None \<Rightarrow> Inl (CtlInvalidConfig (name @ '' is required'')))"

definition controller_config_from_env :: "(string \<times> string) list \<Rightarrow> controller_sdk_error + controller_sdk_config" where
  "controller_config_from_env env =
     (case csdk_require env ''RELAY_ADDRESS'' of
        Inl e \<Rightarrow> Inl e
      | Inr addr \<Rightarrow>
          (case csdk_require env ''CONTROLLER_ID'' of
             Inl e \<Rightarrow> Inl e
           | Inr cid \<Rightarrow>
               (case csdk_require env ''CONTROLLER_TOKEN'' of
                  Inl e \<Rightarrow> Inl e
                | Inr token \<Rightarrow>
                    (let max_payload = (case Option.bind (map_of env ''MAX_PAYLOAD_BYTES'') csdk_parse_usize of
                           Some n \<Rightarrow> n | None \<Rightarrow> csdk_default_max_payload_bytes);
                         cfg = \<lparr>csdk_relay_address = addr, csdk_controller_id = cid, csdk_token = token,
                                csdk_max_payload_bytes = max_payload\<rparr>
                     in case validate_controller_config cfg of Inl e \<Rightarrow> Inl e | Inr _ \<Rightarrow> Inr cfg))))"

section \<open>Pending requests\<close>

type_synonym sequence_result = "controller_sdk_error + bytes"

text \<open>
  A oneshot is a number, the next one to be made being \<open>pend_next\<close>; \<open>pend_sent\<close> has the results
  that were sent. The sender of a oneshot is gone without a result when it is in neither table.
\<close>

record pending_requests =
  pend_inner :: "(int, nat) dashmap"
  pend_sent :: "(nat, sequence_result) dashmap"
  pend_next :: nat

definition pending_requests_new :: pending_requests where
  "pending_requests_new = \<lparr>pend_inner = [], pend_sent = [], pend_next = 0\<rparr>"

definition pending_insert :: "int \<Rightarrow> pending_requests \<Rightarrow> nat \<times> pending_requests" where
  "pending_insert seq p =
     (pend_next p, p\<lparr>pend_inner := AList.update seq (pend_next p) (pend_inner p), pend_next := pend_next p + 1\<rparr>)"

definition pending_remove :: "int \<Rightarrow> pending_requests \<Rightarrow> pending_requests" where
  "pending_remove seq p = p\<lparr>pend_inner := AList.delete seq (pend_inner p)\<rparr>"

definition pending_complete :: "int \<Rightarrow> sequence_result \<Rightarrow> pending_requests \<Rightarrow> pending_requests" where
  "pending_complete seq result p =
     (case map_of (pend_inner p) seq of
        None \<Rightarrow> p
      | Some tx \<Rightarrow> p\<lparr>pend_inner := AList.delete seq (pend_inner p),
                      pend_sent := AList.update tx result (pend_sent p)\<rparr>)"

section \<open>A session\<close>

record connect_options =
  opt_relay_endpoint :: string
  opt_controller_id :: string
  opt_token :: string
  opt_target_device_id :: string
  opt_max_payload_bytes :: nat
  opt_send_sequence_timeout :: duration

definition connect_options_new :: "string \<Rightarrow> string \<Rightarrow> string \<Rightarrow> string \<Rightarrow> nat \<Rightarrow> connect_options" where
  "connect_options_new endpoint cid token target max_payload =
     \<lparr>opt_relay_endpoint = endpoint, opt_controller_id = cid, opt_token = token, opt_target_device_id = target,
      opt_max_payload_bytes = max_payload, opt_send_sequence_timeout = from_secs 60\<rparr>"

record controller_session =
  ses_target_device_id :: string
  ses_controller_id :: string
  ses_token :: string
  ses_max_payload_bytes :: nat
  ses_pending :: pending_requests
  ses_out :: "controller_message list"

definition session_of_options :: "connect_options \<Rightarrow> controller_session" where
  "session_of_options opts =
     \<lparr>ses_target_device_id = opt_target_device_id opts, ses_controller_id = opt_controller_id opts,
      ses_token = opt_token opts, ses_max_payload_bytes = opt_max_payload_bytes opts,
      ses_pending = pending_requests_new, ses_out = []\<rparr>"

text \<open>\<open>connect\<close>: an invalid endpoint, a transport error, a refused call, or the session.\<close>

definition session_connect ::
  "(controller_sdk_error option) \<Rightarrow> connect_options \<Rightarrow> controller_sdk_error + controller_session" where
  "session_connect failure opts = (case failure of Some e \<Rightarrow> Inl e | None \<Rightarrow> Inr (session_of_options opts))"

definition map_device_response_to_sequence_result :: "device_response \<Rightarrow> sequence_result" where
  "map_device_response_to_sequence_result r =
     (case error_code_try_from (dr_error r) of
        Some OK \<Rightarrow> Inr (dr_encrypted_payload r)
      | Some DEVICE_OFFLINE \<Rightarrow> Inl CtlDeviceOffline
      | Some UNAUTHORIZED \<Rightarrow> Inl CtlUnauthorized
      | Some DEVICE_NOT_FOUND \<Rightarrow> Inl CtlDeviceNotFound
      | Some RATE_LIMITED \<Rightarrow> Inl CtlRateLimited
      | Some INTERNAL_ERROR \<Rightarrow> Inl CtlInternalError
      | None \<Rightarrow> Inl CtlStreamClosed)"

text \<open>The reader task, for one response.\<close>

definition session_receive :: "device_response \<Rightarrow> controller_session \<Rightarrow> controller_session" where
  "session_receive r s =
     s\<lparr>ses_pending := pending_complete (dr_sequence_number r)
         (map_device_response_to_sequence_result r) (ses_pending s)\<rparr>"

text \<open>
  \<open>send_request\<close> up to the wait: an error, or the receiver to wait on. \<open>shut\<close> says whether the
  outbound channel is closed.
\<close>

definition session_message :: "string \<Rightarrow> int \<Rightarrow> bytes \<Rightarrow> controller_session \<Rightarrow> controller_message" where
  "session_message method seq payload s =
     \<lparr>cmsg_controller_id = ses_controller_id s, cmsg_token = ses_token s,
      cmsg_target_device_id = ses_target_device_id s, cmsg_method_name = method,
      cmsg_sequence_number = seq, cmsg_encrypted_payload = payload\<rparr>"

definition send_request_start ::
  "bool \<Rightarrow> string \<Rightarrow> int \<Rightarrow> bytes \<Rightarrow> controller_session \<Rightarrow> (controller_sdk_error + nat) \<times> controller_session" where
  "send_request_start shut method seq payload s =
     (if 0 < ses_max_payload_bytes s \<and> ses_max_payload_bytes s < length payload
      then (Inl CtlPayloadTooLarge, s)
      else
        let (rx, p) = pending_insert seq (ses_pending s);
            s1 = s\<lparr>ses_pending := p\<rparr>
        in if shut then (Inl CtlStreamClosed, s1\<lparr>ses_pending := pending_remove seq p\<rparr>)
           else (Inr rx, s1\<lparr>ses_out := ses_out s1 @ [session_message method seq payload s]\<rparr>))"

text \<open>The wait: it ends with the result, with the loss of the sender, or with the timeout.\<close>

definition send_request_end ::
  "bool \<Rightarrow> int \<Rightarrow> nat \<Rightarrow> controller_session \<Rightarrow> (sequence_result \<times> controller_session) option" where
  "send_request_end timed_out seq rx s =
     (case map_of (pend_sent (ses_pending s)) rx of
        Some result \<Rightarrow> Some (result, s)
      | None \<Rightarrow>
          (if \<not> list_ex (\<lambda>e. snd e = rx) (pend_inner (ses_pending s))
           then Some (Inl CtlStreamClosed, s\<lparr>ses_pending := pending_remove seq (ses_pending s)\<rparr>)
           else if timed_out
           then Some (Inl CtlSequenceResponseNotFound, s\<lparr>ses_pending := pending_remove seq (ses_pending s)\<rparr>)
           else None))"

section \<open>Unary calls\<close>

definition list_request :: "controller_sdk_config \<Rightarrow> string option \<Rightarrow> list_online_devices_request" where
  "list_request c region_filter =
     \<lparr>lod_controller_id = csdk_controller_id c, lod_token = csdk_token c,
      lod_region_filter = (case region_filter of Some r \<Rightarrow> r | None \<Rightarrow> [])\<rparr>"

definition client_connect_options :: "controller_sdk_config \<Rightarrow> string \<Rightarrow> connect_options" where
  "client_connect_options c target =
     \<lparr>opt_relay_endpoint = normalized_endpoint c, opt_controller_id = csdk_controller_id c,
      opt_token = csdk_token c, opt_target_device_id = target,
      opt_max_payload_bytes = csdk_max_payload_bytes c, opt_send_sequence_timeout = from_secs 60\<rparr>"

definition revoke_request :: "controller_sdk_config \<Rightarrow> int \<Rightarrow> string \<Rightarrow> string \<Rightarrow> revoke_token_request" where
  "revoke_request c target_type target reason =
     \<lparr>rt_controller_id = csdk_controller_id c, rt_admin_token = csdk_token c, rt_target_type = target_type,
      rt_target_token_hash_or_prefix = target, rt_reason = reason\<rparr>"

text \<open>
  The client. \<open>call\<close> is the channel with the generated stub: from the address and the request to the
  transport error, the status or the response.
\<close>

definition controller_client_new :: "controller_sdk_config \<Rightarrow> controller_sdk_error + controller_sdk_config" where
  "controller_client_new c = (case validate_controller_config c of Inl e \<Rightarrow> Inl e | Inr _ \<Rightarrow> Inr c)"

record device_info_ext =
  dix_device_id :: string
  dix_connection_id :: string
  dix_relay_address :: string
  dix_connected_at :: int
  dix_metadata :: metadata

definition device_info_ext_from :: "device_info \<Rightarrow> device_info_ext" where
  "device_info_ext_from d =
     \<lparr>dix_device_id = di_device_id d, dix_connection_id = di_connection_id d,
      dix_relay_address = di_relay_address d, dix_connected_at = di_connected_at d, dix_metadata = di_metadata d\<rparr>"

definition require_region :: "device_info_ext \<Rightarrow> controller_sdk_error + string" where
  "require_region d =
     (case map_of (dix_metadata d) ''region'' of
        Some r \<Rightarrow> Inr r
      | None \<Rightarrow> Inl (CtlInvalidConfig ''missing region in device metadata''))"

definition client_list_online_devices ::
  "(string \<Rightarrow> list_online_devices_request \<Rightarrow> controller_sdk_error + device_info list) \<Rightarrow> controller_sdk_config
     \<Rightarrow> string option \<Rightarrow> controller_sdk_error + device_info_ext list" where
  "client_list_online_devices call c region_filter =
     (case call (normalized_endpoint c) (list_request c region_filter) of
        Inl e \<Rightarrow> Inl e
      | Inr devices \<Rightarrow> Inr (map device_info_ext_from devices))"

definition client_revoke_token ::
  "(string \<Rightarrow> revoke_token_request \<Rightarrow> controller_sdk_error + bool) \<Rightarrow> controller_sdk_config
     \<Rightarrow> int \<Rightarrow> string \<Rightarrow> string \<Rightarrow> controller_sdk_error + bool" where
  "client_revoke_token call c target_type target reason =
     call (normalized_endpoint c) (revoke_request c target_type target reason)"

section \<open>The session as a machine\<close>

datatype session_event =
    StartOp bool string int bytes
  | ResponseOp device_response
  | EndOp bool nat

text \<open>
  The calls that got a receiver are known by it, numbered in the order of the calls (a call whose
  payload is too large gets none); \<open>sm_seqs\<close> has their sequence numbers, \<open>sm_received\<close> the
  responses that came in and \<open>sm_returned\<close> what the calls returned. A call returns once.
\<close>

record session_machine =
  sm_session :: controller_session
  sm_seqs :: "int list"
  sm_received :: "device_response list"
  sm_returned :: "(nat \<times> sequence_result) list"

fun session_do :: "session_event \<Rightarrow> session_machine \<Rightarrow> session_machine" where
  "session_do (StartOp shut method seq payload) m =
     (case send_request_start shut method seq payload (sm_session m) of
        (Inl CtlPayloadTooLarge, s) \<Rightarrow> m\<lparr>sm_session := s\<rparr>
      | (Inl e, s) \<Rightarrow> m\<lparr>sm_session := s, sm_seqs := sm_seqs m @ [seq],
            sm_returned := sm_returned m @ [(length (sm_seqs m), Inl e)]\<rparr>
      | (Inr _, s) \<Rightarrow> m\<lparr>sm_session := s, sm_seqs := sm_seqs m @ [seq]\<rparr>)"
| "session_do (ResponseOp r) m =
     m\<lparr>sm_session := session_receive r (sm_session m), sm_received := sm_received m @ [r]\<rparr>"
| "session_do (EndOp timed_out rx) m =
     (if length (sm_seqs m) \<le> rx \<or> rx \<in> fst ` set (sm_returned m) then m
      else case send_request_end timed_out (sm_seqs m ! rx) rx (sm_session m) of
             None \<Rightarrow> m
           | Some (result, s) \<Rightarrow> m\<lparr>sm_session := s, sm_returned := sm_returned m @ [(rx, result)]\<rparr>)"

definition session_machine_new :: "connect_options \<Rightarrow> session_machine" where
  "session_machine_new opts =
     \<lparr>sm_session = session_of_options opts, sm_seqs = [], sm_received = [], sm_returned = []\<rparr>"

text \<open>What a call may be given: the result of a response with its number, or that there is none.\<close>

definition call_outcome :: "session_machine \<Rightarrow> nat \<Rightarrow> sequence_result \<Rightarrow> bool" where
  "call_outcome m rx res \<longleftrightarrow>
     (\<exists>r \<in> set (sm_received m). dr_sequence_number r = sm_seqs m ! rx
        \<and> res = map_device_response_to_sequence_result r)
     \<or> res = Inl CtlStreamClosed \<or> res = Inl CtlSequenceResponseNotFound"

definition session_ok :: "session_machine \<Rightarrow> bool" where
  "session_ok m \<longleftrightarrow>
     (let p = ses_pending (sm_session m) in
      pend_next p = length (sm_seqs m) \<and> dm_wf (pend_inner p)
      \<and> (\<forall>seq w. map_of (pend_inner p) seq = Some w \<longrightarrow> w < pend_next p \<and> sm_seqs m ! w = seq)
      \<and> (\<forall>w res. map_of (pend_sent p) w = Some res \<longrightarrow> w < pend_next p
           \<and> (\<exists>r \<in> set (sm_received m). dr_sequence_number r = sm_seqs m ! w
                \<and> res = map_device_response_to_sequence_result r)))"

text \<open>The calls that returned are calls, each returned once and with one of the outcomes.\<close>

definition returns_ok :: "session_machine \<Rightarrow> bool" where
  "returns_ok m \<longleftrightarrow> distinct (map fst (sm_returned m))
     \<and> (\<forall>(rx, res) \<in> set (sm_returned m). rx < length (sm_seqs m) \<and> call_outcome m rx res)"

lemma session_ok_remove:
  "session_ok m \<Longrightarrow> session_ok (m\<lparr>sm_session := (sm_session m)\<lparr>ses_pending :=
     pending_remove seq (ses_pending (sm_session m))\<rparr>\<rparr>)"
  by (auto simp: session_ok_def pending_remove_def Let_def split: if_splits)

lemma session_ok_receive:
  assumes "session_ok m"
  shows "session_ok (m\<lparr>sm_session := session_receive r (sm_session m), sm_received := sm_received m @ [r]\<rparr>)"
proof (cases "map_of (pend_inner (ses_pending (sm_session m))) (dr_sequence_number r)")
  case None
  with assms show ?thesis by (auto simp: session_ok_def session_receive_def pending_complete_def Let_def)
next
  case (Some tx)
  with assms show ?thesis
    by (auto simp: session_ok_def session_receive_def pending_complete_def Let_def split: if_splits)
qed

lemma session_ok_start:
  assumes "session_ok m"
  shows "session_ok (session_do (StartOp shut method seq payload) m)"
  using assms
  by (auto simp: session_ok_def send_request_start_def pending_insert_def pending_remove_def Let_def nth_append
      split: if_splits)

lemma session_ok_returned [simp]: "session_ok (m\<lparr>sm_returned := xs\<rparr>) = session_ok m"
  by (simp add: session_ok_def)

lemma session_do_ok: "session_ok m \<Longrightarrow> session_ok (session_do e m)"
proof (cases e)
  case (EndOp timed_out rx)
  assume "session_ok m"
  with EndOp session_ok_remove [of m "sm_seqs m ! rx"] show ?thesis
    by (auto simp: send_request_end_def split: option.splits if_splits)
qed (simp_all add: session_ok_start session_ok_receive del: session_do.simps(1))

text \<open>What has been returned stays an outcome while the calls and the responses become more.\<close>

lemma call_outcome_mono:
  assumes "call_outcome m rx res" "rx < length (sm_seqs m)"
    and "sm_seqs m' = sm_seqs m @ seqs" "set (sm_received m) \<subseteq> set (sm_received m')"
  shows "call_outcome m' rx res"
  using assms by (auto simp: call_outcome_def nth_append)

lemma returns_ok_mono:
  assumes "returns_ok m" "sm_seqs m' = sm_seqs m @ seqs" "set (sm_received m) \<subseteq> set (sm_received m')"
    and "sm_returned m' = sm_returned m"
  shows "returns_ok m'"
  using assms by (auto simp: returns_ok_def intro: call_outcome_mono)

lemma returns_ok_add:
  assumes "returns_ok m" "sm_seqs m' = sm_seqs m @ seqs" "set (sm_received m) \<subseteq> set (sm_received m')"
    and "sm_returned m' = sm_returned m @ [(rx, res)]"
    and "rx \<notin> fst ` set (sm_returned m)" "rx < length (sm_seqs m')" "call_outcome m' rx res"
  shows "returns_ok m'"
  using assms by (auto simp: returns_ok_def intro: call_outcome_mono)

lemma returned_calls: "returns_ok m \<Longrightarrow> length (sm_seqs m) \<notin> fst ` set (sm_returned m)"
  by (auto simp: returns_ok_def)

lemma send_start_error:
  "fst (send_request_start shut method seq payload s) = Inl e \<Longrightarrow> e \<in> {CtlPayloadTooLarge, CtlStreamClosed}"
  by (auto simp: send_request_start_def Let_def case_prod_unfold split: if_splits)

lemma end_outcome:
  assumes "session_ok m" "send_request_end timed_out (sm_seqs m ! rx) rx (sm_session m) = Some (res, s)"
  shows "call_outcome m rx res"
  using assms by (auto simp: send_request_end_def session_ok_def call_outcome_def Let_def split: option.splits if_splits)

lemma returns_do_ok:
  assumes "session_ok m" "returns_ok m"
  shows "returns_ok (session_do e m)"
proof (cases e)
  case (StartOp shut m_name seq payload)
  obtain a s where start: "send_request_start shut m_name seq payload (sm_session m) = (a, s)" by fastforce
  then have "a = Inl CtlPayloadTooLarge \<or> a = Inl CtlStreamClosed \<or> (\<exists>rx. a = Inr rx)"
    using send_start_error [of shut m_name seq payload "sm_session m"] by (cases a) auto
  then show ?thesis
    using start returned_calls [OF assms(2)]
    by (elim disjE exE)
      (auto simp: StartOp call_outcome_def intro: returns_ok_mono [OF assms(2)]
        returns_ok_add [OF assms(2), where rx = "length (sm_seqs m)" and res = "Inl CtlStreamClosed"])
next
  case (ResponseOp r)
  show ?thesis by (rule returns_ok_mono [OF assms(2)]) (auto simp: ResponseOp)
next
  case (EndOp timed_out rx)
  show ?thesis
  proof (cases "length (sm_seqs m) \<le> rx \<or> rx \<in> fst ` set (sm_returned m)
      \<or> send_request_end timed_out (sm_seqs m ! rx) rx (sm_session m) = None")
    case True
    with assms(2) EndOp show ?thesis by auto
  next
    case False
    then obtain res s where fin: "send_request_end timed_out (sm_seqs m ! rx) rx (sm_session m) = Some (res, s)"
      by auto
    with end_outcome [OF assms(1) this] False EndOp show ?thesis
      by (auto intro!: returns_ok_add [OF assms(2), where rx = rx and res = res] simp: call_outcome_def)
  qed
qed

interpretation sdk_session: invariant_machine session_do "\<lambda>_ _. True" "\<lambda>m. session_ok m \<and> returns_ok m"
  by unfold_locales (simp add: session_do_ok returns_do_ok)

lemma session_run_ok:
  "session_ok (fold session_do es (session_machine_new opts)) \<and> returns_ok (fold session_do es (session_machine_new opts))"
  by (rule sdk_session.run_invar_total)
    (simp_all add: session_ok_def returns_ok_def session_machine_new_def session_of_options_def pending_requests_new_def)

lemma mapped_payload:
  "map_device_response_to_sequence_result r = Inr b \<longleftrightarrow>
     error_code_try_from (dr_error r) = Some OK \<and> dr_encrypted_payload r = b"
  by (auto simp: map_device_response_to_sequence_result_def split: option.splits error_code.splits)

text \<open>
  C20. A call to \<open>send_request\<close> never returns the answer of another request: in any session, with
  any interleaving of calls, responses, time-outs and failed sends and whatever sequence numbers the
  application picks, each call returns at most once, and what it returns is the result of a
  response that came in on this session with the call's own sequence number, or \<open>StreamClosed\<close>, or
  \<open>SequenceResponseNotFound\<close>. In particular a payload that a call returns is the payload of an OK
  response with its number.
\<close>
theorem sdk_answer_matches:
  assumes run: "m = fold session_do es (session_machine_new opts)" and returned: "(rx, res) \<in> set (sm_returned m)"
  shows "rx < length (sm_seqs m) \<and> distinct (map fst (sm_returned m))
    \<and> ((\<exists>r \<in> set (sm_received m). dr_sequence_number r = sm_seqs m ! rx
          \<and> res = map_device_response_to_sequence_result r)
       \<or> res = Inl CtlStreamClosed \<or> res = Inl CtlSequenceResponseNotFound)
    \<and> (\<forall>b. res = Inr b \<longrightarrow>
          (\<exists>r \<in> set (sm_received m). dr_sequence_number r = sm_seqs m ! rx
             \<and> error_code_try_from (dr_error r) = Some OK \<and> dr_encrypted_payload r = b))"
proof -
  have "returns_ok m" using session_run_ok run by blast
  with returned have "call_outcome m rx res" "rx < length (sm_seqs m)" "distinct (map fst (sm_returned m))"
    by (auto simp: returns_ok_def)
  then show ?thesis unfolding call_outcome_def using mapped_payload [symmetric] by fastforce
qed

definition sample_options :: connect_options where
  "sample_options = connect_options_new ''https://relay:1'' ''c1'' ''ct'' ''d1'' 16"

definition sample_session_run :: session_machine where
  "sample_session_run = fold session_do
     [StartOp False ''m'' 7 [1, 2], ResponseOp (device_response_from_device_data ''d1'' 7 [42] 0), EndOp False 0]
     (session_machine_new sample_options)"

theorem sdk_answer_matches_witness:
  "(0, Inr [42]) \<in> set (sm_returned sample_session_run)
   \<and> (\<exists>r \<in> set (sm_received sample_session_run). dr_sequence_number r = 7
        \<and> error_code_try_from (dr_error r) = Some OK \<and> dr_encrypted_payload r = [42])"
proof -
  have "(0, Inr [42]) \<in> set (sm_returned sample_session_run)" "sm_seqs sample_session_run ! 0 = 7"
    by (simp_all add: sample_session_run_def session_machine_new_def session_of_options_def sample_options_def
      connect_options_new_def pending_requests_new_def send_request_start_def pending_insert_def session_receive_def
      pending_complete_def send_request_end_def device_response_from_device_data_def
      map_device_response_to_sequence_result_def error_code_try_from_def)
  with sdk_answer_matches [OF sample_session_run_def this(1)] show ?thesis by simp
qed

text \<open>
  C37. Two calls that wait for the same sequence number lose the answer for both: the second call
  takes over the entry, the first fails, and in failing removes the entry of the second, so that
  the response that then comes in finds nobody and the second call fails too.
\<close>
theorem duplicate_sequence_loses_answer:
  assumes "length p1 \<le> opt_max_payload_bytes opts" "length p2 \<le> opt_max_payload_bytes opts" "dr_sequence_number r = seq"
  shows "let s1 = snd (send_request_start False m1 seq p1 (session_of_options opts));
      s2 = snd (send_request_start False m2 seq p2 s1);
      s3 = (case send_request_end False seq 0 s2 of Some (_, s) \<Rightarrow> s | None \<Rightarrow> s2);
      s4 = session_receive r s3
    in map_option fst (send_request_end False seq 0 s2) = Some (Inl CtlStreamClosed)
       \<and> map_option fst (send_request_end False seq 1 s4) = Some (Inl CtlStreamClosed)"
  using assms
  by (simp add: send_request_start_def session_of_options_def pending_requests_new_def pending_insert_def
      send_request_end_def pending_remove_def session_receive_def pending_complete_def Let_def)

theorem duplicate_sequence_loses_answer_witness:
  "map_option fst (send_request_end False 7 1
     (session_receive (device_response_from_device_data ''d1'' 7 [42] 0)
       (case send_request_end False 7 0 (snd (send_request_start False ''m'' 7 [2]
            (snd (send_request_start False ''m'' 7 [1] (session_of_options sample_options))))) of
          Some (_, s) \<Rightarrow> s
        | None \<Rightarrow> snd (send_request_start False ''m'' 7 [2]
            (snd (send_request_start False ''m'' 7 [1] (session_of_options sample_options)))))))
   = Some (Inl CtlStreamClosed)"
proof -
  have "length [1 :: 8 word] \<le> opt_max_payload_bytes sample_options"
    "length [2 :: 8 word] \<le> opt_max_payload_bytes sample_options"
    "dr_sequence_number (device_response_from_device_data ''d1'' 7 [42] 0) = 7"
    by (simp_all add: sample_options_def connect_options_new_def device_response_from_device_data_def)
  from duplicate_sequence_loses_answer [OF this, of "''m''" "''m''"] show ?thesis
    unfolding Let_def by (rule conjunct2)
qed

end
