(* ===== verification/End_To_End.thy ===== *)
theory End_To_End
  imports Stream_Contracts Device_Sdk Controller_Sdk
begin

text \<open>
  The three programs together: a request that the relay forwards, the device library that hands it
  to the application and answers, the relay that gives the answer to the controller's stream,
  and the controller library that gives it to the caller.
\<close>

lemma client_takes_request:
  assumes "dc_blocked c = None" "length (dc_running c) < MAX_CONCURRENT_DATA_HANDLERS"
    and "length payload \<le> tc_max_payload_bytes (sdk_transport cfg)"
  shows "client_step cfg False (RelayMsg (relay_message_data_request cid sq payload)) c =
    Some (CContinue, c\<lparr>dc_running := dc_running c @
      [(\<lparr>ctx_device_id = sdk_device_id cfg, ctx_connection_id = cid, ctx_sequence_number = sq\<rparr>, payload)]\<rparr>)"
  using assms by (simp add: client_relay_message_def relay_message_data_request_def client_data_request_def Let_def)

definition handler_answer :: "device_sdk_config \<Rightarrow> string \<Rightarrow> int \<Rightarrow> bytes option \<Rightarrow> device_message" where
  "handler_answer cfg cid sq result =
     device_data_message cfg cid sq (case result of Some b \<Rightarrow> b | None \<Rightarrow> [])
       (case result of Some _ \<Rightarrow> OK | None \<Rightarrow> INTERNAL_ERROR)"

lemma client_answers:
  assumes "dc_blocked c = None"
  shows "client_step cfg False (HandlerDone (length (dc_running c)) result)
      (c\<lparr>dc_running := dc_running c @
        [(\<lparr>ctx_device_id = d, ctx_connection_id = cid, ctx_sequence_number = sq\<rparr>, payload)]\<rparr>) =
    Some (CContinue, c\<lparr>dc_sent := dc_sent c @ [handler_answer cfg cid sq result]\<rparr>)"
  using assms
  by (cases result) (simp_all add: client_handler_done_def client_send_def handler_answer_def Let_def)

lemma relay_takes_answer:
  assumes "dst_current_device_id ds = Some (sdk_device_id cfg)"
  obtains svc2 where "device_event_step env (DeviceMsg (handler_answer cfg cid sq result)) ds svc = (LContinue, ds, svc2)"
    "\<And>w. waiting (svc_state svc) w (sdk_device_id cfg, sq) \<Longrightarrow>
       map_of (oneshot_sent (svc_state svc2)) w = Some (device_response_from_device_data (sdk_device_id cfg) sq
         (case result of Some b \<Rightarrow> b | None \<Rightarrow> []) (error_code_i32 (case result of Some _ \<Rightarrow> OK | None \<Rightarrow> INTERNAL_ERROR)))"
    "svc_out svc2 = svc_out svc"
proof
  let ?r = "device_response_from_device_data (sdk_device_id cfg) sq
    (case result of Some b \<Rightarrow> b | None \<Rightarrow> []) (error_code_i32 (case result of Some _ \<Rightarrow> OK | None \<Rightarrow> INTERNAL_ERROR))"
  let ?svc2 = "on_state (take_and_complete (sdk_device_id cfg) sq ?r)
    (device_touch env (handler_answer cfg cid sq result) ds svc)"
  show "device_event_step env (DeviceMsg (handler_answer cfg cid sq result)) ds svc = (LContinue, ds, ?svc2)"
    using assms
    by (simp add: device_message_step_def device_identity_guard_def is_register_def device_data_def
        handler_answer_def device_data_message_def)
  show "map_of (oneshot_sent (svc_state ?svc2)) w = Some ?r" if "waiting (svc_state svc) w (sdk_device_id cfg, sq)" for w
    using that by (simp add: take_and_complete_sent)
  show "svc_out ?svc2 = svc_out svc" by simp
qed

text \<open>The controller library: the call puts the request on the wire, the response to it ends the call.\<close>

lemma call_sends:
  assumes "send_request_start False method seq payload s0 = (Inr rx, s1)"
  shows "ses_out s1 = ses_out s0 @ [session_message method seq payload s0]"
    and "map_of (pend_inner (ses_pending s1)) seq = Some rx"
  using assms by (auto simp: send_request_start_def pending_insert_def Let_def split: if_splits)

lemma response_ends_call:
  assumes "map_of (pend_inner (ses_pending s1)) seq = Some rx" "dr_sequence_number r = seq"
  obtains s2 where "send_request_end False seq rx (session_receive r s1) = Some (map_device_response_to_sequence_result r, s2)"
  using assms by (simp add: session_receive_def pending_complete_def send_request_end_def)

text \<open>
  C19. The round trip of a request, through the three programs. A call of \<open>send_request\<close> puts its
  message on the controller's stream. When the relay forwards it, what it sends to the device's
  channel carries the call's sequence number and payload; the device library (which has a free
  handler and accepts the size) hands the application exactly this payload, with a context that
  names the device, the connection and the sequence number; the message the library sends when
  the application is done is taken by the relay's stream of this device and lets the waiting
  controller stream go on; this sends the controller one response, and when the controller library
  receives it the call returns exactly the bytes the application returned, or an internal error
  when the application failed.
\<close>
theorem end_to_end_roundtrip:
  assumes call: "send_request_start False method seq payload s0 = (Inr rx, s1)"
    and msg: "msg = session_message method seq payload s0"
    and relay: "reaches_device env1 msg cs svc sess" "cst_waiting cs = None"
    and device: "dc_blocked c = None" "length (dc_running c) < MAX_CONCURRENT_DATA_HANDLERS"
      "length payload \<le> tc_max_payload_bytes (sdk_transport cfg)"
      "sdk_device_id cfg = ses_target_device_id s0" "dst_current_device_id ds = Some (sdk_device_id cfg)"
    and open_stream: "\<not> env_closed env3 (cst_out_tx cs)"
  shows "\<exists>m c1 c2 m2 svc2 cs3 svc3 r s2.
    ses_out s1 = ses_out s0 @ [msg]
    \<and> m = relay_message_data_request (ds_connection_id sess) seq payload
    \<and> svc_out (snd (controller_message_step env1 msg cs svc)) = svc_out svc @ [ToDevice (ds_outbound_tx sess) m]
    \<and> client_step cfg False (RelayMsg m) c = Some (CContinue, c1)
    \<and> dc_running c1 = dc_running c @
        [(\<lparr>ctx_device_id = ses_target_device_id s0, ctx_connection_id = ds_connection_id sess,
           ctx_sequence_number = seq\<rparr>, payload)]
    \<and> client_step cfg False (HandlerDone (length (dc_running c)) result) c1 = Some (CContinue, c2)
    \<and> dc_running c2 = dc_running c \<and> dc_sent c2 = dc_sent c @ [m2]
    \<and> device_event_step env2 (DeviceMsg m2) ds (snd (controller_message_step env1 msg cs svc)) = (LContinue, ds, svc2)
    \<and> controller_resume env3 (fst (controller_message_step env1 msg cs svc)) svc2 = Some (cs3, svc3)
    \<and> svc_out svc3 = svc_out svc @ [ToDevice (ds_outbound_tx sess) m, ToController (cst_out_tx cs) r]
    \<and> send_request_end False seq rx (session_receive r s1) =
        Some (case result of Some b \<Rightarrow> Inr b | None \<Rightarrow> Inl CtlInternalError, s2)"
proof -
  let ?step = "controller_message_step env1 msg cs svc"
  let ?m = "relay_message_data_request (ds_connection_id sess) seq payload"
  let ?p = "waits_for env1 msg True svc"
  have fields: "cmsg_sequence_number msg = seq" "cmsg_encrypted_payload msg = payload"
    "cmsg_target_device_id msg = sdk_device_id cfg"
    by (simp_all add: msg session_message_def device(4))
  note sent = reaches_device_sent [OF relay(1), unfolded fields]
  have "waiting (svc_state (snd ?step)) (pr_rx ?p) (request_key ?p)" "request_key ?p = (sdk_device_id cfg, seq)"
    using message_step_waiting [OF relay(2) sent(2)] by (simp_all add: fields)
  then have w: "waiting (svc_state (snd ?step)) (pr_rx ?p) (sdk_device_id cfg, seq)" by simp
  let ?r = "device_response_from_device_data (sdk_device_id cfg) seq
    (case result of Some b \<Rightarrow> b | None \<Rightarrow> []) (error_code_i32 (case result of Some _ \<Rightarrow> OK | None \<Rightarrow> INTERNAL_ERROR))"
  let ?m2 = "handler_answer cfg (ds_connection_id sess) seq result"
  obtain svc2 where svc2: "device_event_step env2 (DeviceMsg ?m2) ds (snd ?step) = (LContinue, ds, svc2)"
    "map_of (oneshot_sent (svc_state svc2)) (pr_rx ?p) = Some ?r" "svc_out svc2 = svc_out (snd ?step)"
    using relay_takes_answer [OF device(5), of env2 "ds_connection_id sess" seq result "snd ?step"] w by metis
  let ?final = "controller_response_ok env3 ?p ?r (fst ?step) svc2"
  have "cst_out_tx (fst ?step) = cst_out_tx cs" by (rule message_step_out_tx)
  with open_stream svc2(3)
  have out: "svc_out (snd ?final) = svc_out svc @ [ToDevice (ds_outbound_tx sess) ?m, ToController (cst_out_tx cs) ?r]"
    by (simp add: response_ok_facts(5) sent(1))
  have resume: "controller_resume env3 (fst ?step) svc2 = Some (fst ?final, snd ?final)"
    by (simp add: controller_resume_def sent(2) svc2(2))
  have "map_device_response_to_sequence_result ?r = (case result of Some b \<Rightarrow> Inr b | None \<Rightarrow> Inl CtlInternalError)"
    by (cases result)
      (simp_all add: map_device_response_to_sequence_result_def device_response_from_device_data_def error_code_try_from_def)
  moreover obtain s2 where "send_request_end False seq rx (session_receive ?r s1) =
      Some (map_device_response_to_sequence_result ?r, s2)"
    using response_ends_call [OF call_sends(2) [OF call], of ?r] by (auto simp: device_response_from_device_data_def)
  ultimately have fin: "send_request_end False seq rx (session_receive ?r s1) =
      Some (case result of Some b \<Rightarrow> Inr b | None \<Rightarrow> Inl CtlInternalError, s2)" by simp
  show ?thesis
    using call_sends(1) [OF call] msg sent(1) client_takes_request [OF device(1-3)] client_answers [OF device(1)]
      svc2(1) resume out fin device(4)
    by (intro exI [of _ ?m] exI [of _ ?m2] exI [of _ svc2] exI [of _ ?r] exI [of _ s2] exI conjI)
      (assumption | rule refl | simp)+
qed

definition sample_call :: "(controller_sdk_error + nat) \<times> controller_session" where
  "sample_call = send_request_start False ''m'' 7 [1, 2] (session_of_options sample_options)"

theorem end_to_end_roundtrip_witness:
  "\<exists>m2 svc2 cs3 svc3 r s2.
    device_event_step (sample_env 5) (DeviceMsg m2) sample_device
      (snd (controller_message_step (sample_env 4) sample_request sample_stream (sys_svc sample_connected))) = (LContinue, sample_device, svc2)
    \<and> controller_resume (sample_env 6)
        (fst (controller_message_step (sample_env 4) sample_request sample_stream (sys_svc sample_connected))) svc2 = Some (cs3, svc3)
    \<and> ToController 1 r \<in> set (svc_out svc3)
    \<and> send_request_end False 7 0 (session_receive r (snd sample_call)) = Some (Inr [42], s2)"
proof -
  let ?c = "device_client_new (register_message sample_device_config None None 0)"
  let ?s0 = "session_of_options sample_options"
  have start: "send_request_start False ''m'' 7 [1, 2] ?s0 = (Inr 0, snd sample_call)"
    by (simp add: sample_call_def send_request_start_def session_of_options_def sample_options_def
        connect_options_new_def pending_requests_new_def pending_insert_def)
  have msg: "sample_request = session_message ''m'' 7 [1, 2] ?s0"
    by (simp add: sample_request_def session_message_def session_of_options_def sample_options_def connect_options_new_def)
  have "cst_waiting sample_stream = None" "dc_blocked ?c = None" "length (dc_running ?c) < MAX_CONCURRENT_DATA_HANDLERS"
    "length [1, 2 :: 8 word] \<le> tc_max_payload_bytes (sdk_transport sample_device_config)"
    "sdk_device_id sample_device_config = ses_target_device_id ?s0"
    "dst_current_device_id sample_device = Some (sdk_device_id sample_device_config)"
    "\<not> env_closed (sample_env 6) (cst_out_tx sample_stream)"
    by (simp_all add: sample_stream_def controller_stream_new_def device_client_new_def MAX_CONCURRENT_DATA_HANDLERS_def
        session_of_options_def sample_options_def connect_options_new_def sample_device_config_def sample_device_def
        default_transport_config_def default_max_payload_bytes_def)
  from end_to_end_roundtrip [OF start msg sample_reaches_device this, of "Some [42]" "sample_env 5"]
  obtain m2 svc2 cs3 svc3 r m s2 where
    "device_event_step (sample_env 5) (DeviceMsg m2) sample_device
      (snd (controller_message_step (sample_env 4) sample_request sample_stream (sys_svc sample_connected))) = (LContinue, sample_device, svc2)"
    "controller_resume (sample_env 6)
        (fst (controller_message_step (sample_env 4) sample_request sample_stream (sys_svc sample_connected))) svc2 = Some (cs3, svc3)"
    "svc_out svc3 = svc_out (sys_svc sample_connected) @
       [ToDevice (ds_outbound_tx sample_session) m, ToController (cst_out_tx sample_stream) r]"
    "send_request_end False 7 0 (session_receive r (snd sample_call)) = Some (Inr [42], s2)"
    unfolding option.case by (elim exE conjE)
  moreover have "cst_out_tx sample_stream = 1" by (simp add: sample_stream_def controller_stream_new_def)
  ultimately show ?thesis
    by (intro exI [of _ m2] exI [of _ svc2] exI [of _ cs3] exI [of _ svc3] exI [of _ r] exI [of _ s2])
      (simp del: device_event_step.simps)
qed

end
