(* ===== verification/Session_Recovery.thy ===== *)
theory Session_Recovery
  imports Stream_Contracts Device_Sdk
begin

text \<open>
  Session recovery, across \<^verbatim>\<open>device-sdk\<close> and \<^verbatim>\<open>grpc_service.rs\<close>: a device that has lost its connection
  registers again with the connection id it had, and the relay says whether the session was
  resumed. The relay knows a connection id only as long as the session is in its table.
\<close>

section \<open>Connection ids that are gone\<close>

text \<open>An id that was given out and that no session has.\<close>

definition retired :: "string \<Rightarrow> relay_state \<Rightarrow> bool" where
  "retired cid st \<longleftrightarrow>
     map_of (connection_to_device_id st) cid = None \<and> (\<exists>k. cid = connection_id_of k \<and> k < connection_id_counter st)"

lemma retired_tables: "session_tables st1 = session_tables st \<Longrightarrow> retired cid st1 = retired cid st"
  by (simp add: session_tables_def retired_def)

lemma retired_registers:
  assumes "retired cid st" "conn_room st"
  shows "retired cid (registers d md ch st)"
proof -
  obtain k where k: "cid = connection_id_of k" "k < connection_id_counter st"
    and none: "map_of (connection_to_device_id st) cid = None"
    using assms(1) by (auto simp: retired_def)
  have "connection_id_counter st < connection_id_counter st + 1"
    using assms(2) by (simp add: conn_room_def less_inc_u64)
  with k(2) have "k < connection_id_counter st + 1" by (rule less_trans)
  with k none show ?thesis
    by (auto simp: retired_def) (auto simp: registers_def insert_device_session_def Let_def split: option.split)
qed

lemma retired_remove: "retired cid st \<Longrightarrow> retired cid (snd (remove_device_session d st))"
  by (auto simp: retired_def) (auto simp: remove_device_session_def split: option.split)

lemma retired_not_resumed: "retired cid st \<Longrightarrow> \<not> session_resumes d cid st"
  by (simp add: retired_def session_resumes_def device_id_for_connection_def)

lemma retired_step:
  assumes "sys_step env ev s = Some s1" "retired cid (svc_state (sys_svc s))" "conn_room (svc_state (sys_svc s))"
  shows "retired cid (svc_state (sys_svc s1))"
  using assms(1)
proof (cases rule: sys_step_sessions)
  case same
  with assms(2) show ?thesis by (simp add: retired_tables [OF same])
next
  case (registered d md ch)
  with retired_registers [OF assms(2,3), of d md ch] show ?thesis by (simp only: retired_tables [OF registered])
next
  case (removed d)
  with retired_remove [OF assms(2), of d] show ?thesis by (simp only: retired_tables [OF removed])
qed

lemma reach_room:
  assumes "relay_reach ops svc0 n s" "fresh_service ops svc0" "Suc n < 2 ^ 64 - 1"
  shows "conn_room (svc_state (sys_svc s))"
  using reach_state_ok [OF assms(1,2)] assms(3) by (simp add: state_ok_def conn_room_def)

lemma retired_run:
  assumes "relay_reach ops svc0 n s" "fresh_service ops svc0" "n + length evs < 2 ^ 64 - 1"
    and "\<forall>(env, ev) \<in> set evs. env_lru env = ops" "sys_run evs s = Some s1" "retired cid (svc_state (sys_svc s))"
  shows "retired cid (svc_state (sys_svc s1))"
  using assms
proof (induction evs arbitrary: n s)
  case (Cons x evs)
  obtain env ev where x: "x = (env, ev)" by (cases x)
  from Cons.prems(5) obtain s2 where s2: "sys_step env ev s = Some s2" "sys_run evs s2 = Some s1"
    by (auto simp: x split: option.splits)
  have "env_lru env = ops" using Cons.prems(4) by (simp add: x)
  then have "relay_reach ops svc0 (Suc n) s2" by (rule reach_step [OF Cons.prems(1) _ s2(1)])
  moreover have "retired cid (svc_state (sys_svc s2))"
    using Cons.prems(3) by (intro retired_step [OF s2(1) Cons.prems(6) reach_room [OF Cons.prems(1,2)]]) simp
  ultimately show ?case using Cons.prems(2-4) s2(2) by (intro Cons.IH [of "Suc n" s2]) simp_all
qed simp

section \<open>The end of the stream of a session\<close>

definition stream_ends :: "device_event \<Rightarrow> bool" where
  "stream_ends ev \<longleftrightarrow> ev = DeviceStreamEnd \<or> ev = DeviceStreamError \<or> ev = DeviceHeartbeatTimeout"

lemma end_retires:
  assumes "sys_step env (DeviceReceives ch ev) s = Some s1" "stream_ends ev" "map_of (sys_devices s) ch = Some ds"
    and "dst_current_device_id ds = Some d" "dst_current_connection_id ds = Some cid"
    and active: "has_active_device_connection d cid (svc_state (sys_svc s))"
    and wf: "sessions_wf (svc_state (sys_svc s))"
  shows "retired cid (svc_state (sys_svc s1))"
proof -
  let ?st = "svc_state (sys_svc s)"
  obtain sess where sess: "map_of (sessions_by_device_id ?st) d = Some sess" "ds_connection_id sess = cid"
    using active by (auto simp: has_active_device_connection_def split: option.splits)
  have "sys_svc s1 = device_stream_cleanup env (case device_event_step env ev ds (sys_svc s) of
      (LBreak reason, _) \<Rightarrow> reason | _ \<Rightarrow> []) ds (sys_svc s)"
    using assms(1-3) by (auto simp: sys_step_def device_turn_def stream_ends_def split: if_splits)
  then have tables: "session_tables (svc_state (sys_svc s1)) = session_tables (snd (remove_device_session d ?st))"
    using active session_tables_cong(2) [of "fail_inflight d (\<lambda>seq. error_resp d seq DEVICE_OFFLINE) ?st" ?st d]
    by (simp add: cleanup_state assms(4,5) Let_def)
  have "map_of (connection_to_device_id ?st) cid = Some d"
    "\<exists>k. cid = connection_id_of k \<and> k < connection_id_counter ?st"
    using sess wf unfolding sessions_wf_def by metis+
  then have "retired cid (snd (remove_device_session d ?st))"
    using sess by (auto simp: retired_def remove_device_session_def)
  then show ?thesis by (simp only: retired_tables [OF tables])
qed

section \<open>What the relay tells a device that registers\<close>

definition accepts_device :: "'c step_env \<Rightarrow> device_message \<Rightarrow> 'c relay_service \<Rightarrow> bool" where
  "accepts_device env msg svc \<longleftrightarrow>
     (\<exists>dp. authenticate_device_by_token (svc_auth_service svc) (dmsg_device_id msg) (dmsg_token msg) = Inr dp)
     \<and> fst (allow_device (env_now env) (dmsg_device_id msg) (svc_connection_limiter svc))
     \<and> is_healthy (env_sys env) (svc_resource_monitor svc)"

lemma session_resumes_frame [simp]:
  "session_resumes d c (snd (next_connection_id st)) = session_resumes d c st"
  "session_resumes d c (svc_state (device_touch env msg ds svc)) = session_resumes d c (svc_state svc)"
  by (simp_all add: session_resumes_def device_id_for_connection_def next_connection_id_def device_touch_def
      touch_device_def split: option.split)

lemma register_session_out:
  "svc_out (snd (register_session env d req ds svc)) =
     svc_out svc @ (if env_closed env (dst_out_tx ds) then []
       else [ToDevice (dst_out_tx ds) (relay_message_register_response
               (connection_id_of (connection_id_counter (svc_state svc)))
               (session_resumes d (rr_previous_connection_id req) (svc_state svc)))])"
  by (simp add: register_session_def Let_def case_prod_unfold effect_defs next_connection_id_def
      session_resumes_def device_id_for_connection_def)

lemma register_out:
  assumes "dmsg_payload msg = Some (Register req)"
  shows "svc_out (snd (snd (device_event_step env (DeviceMsg msg) ds svc))) =
    svc_out svc @ (if accepts_device env msg svc \<and> \<not> env_closed env (dst_out_tx ds)
      then [ToDevice (dst_out_tx ds) (relay_message_register_response
              (connection_id_of (connection_id_counter (svc_state svc)))
              (session_resumes (dmsg_device_id msg) (rr_previous_connection_id req) (svc_state svc)))]
      else [])"
  by (simp add: device_message_step_def device_identity_guard_def is_register_def assms device_register_def
      Let_def case_prod_unfold register_limits_iff register_session_out accepts_device_def split: sum.split)

text \<open>
  C18. A session is never recovered once the relay has noticed that its connection is gone. When the
  stream that serves a device's session ends (closed, failed, or silent for too long), then in no
  later state of the relay, however soon and whatever the recovery window, does a registration
  that names the old connection id resume the session: the device library sends the id, and the
  relay either refuses the registration or answers it with \<open>session_resumed\<close> false.
\<close>
theorem session_not_recovered:
  assumes "relay_reach ops svc0 n s" "fresh_service ops svc0" "Suc n + length evs < 2 ^ 64 - 1"
    and "map_of (sys_devices s) ch = Some ds" "dst_current_device_id ds = Some d"
    and "dst_current_connection_id ds = Some cid" "has_active_device_connection d cid (svc_state (sys_svc s))"
    and "sys_step env (DeviceReceives ch ev) s = Some s1" "stream_ends ev" "env_lru env = ops"
    and "sys_run evs s1 = Some s2" "\<forall>(env, ev) \<in> set evs. env_lru env = ops"
  shows "\<exists>c. svc_out (snd (snd (device_event_step env2
      (DeviceMsg (register_message cfg (Some cid) last_disconnect now)) ds2 (sys_svc s2))))
    \<in> {svc_out (sys_svc s2),
       svc_out (sys_svc s2) @ [ToDevice (dst_out_tx ds2) (relay_message_register_response c False)]}"
proof -
  have wf: "sessions_wf (svc_state (sys_svc s))"
    using reach_state_ok [OF assms(1,2)] assms(3) by (simp add: state_ok_def state_wf_def)
  have "relay_reach ops svc0 (Suc n) s1" by (rule reach_step [OF assms(1,10,8)])
  then have "retired cid (svc_state (sys_svc s2))"
    using assms(2,3,12,11) end_retires [OF assms(8,9,4-7) wf] by (rule retired_run)
  then have none: "\<not> session_resumes d' cid (svc_state (sys_svc s2))" for d' by (rule retired_not_resumed)
  let ?req = "\<lparr>rr_device_id = sdk_device_id cfg, rr_metadata = sdk_metadata cfg, rr_previous_connection_id =
      (case previous_for_register cfg (Some cid) last_disconnect now of Some c \<Rightarrow> c | None \<Rightarrow> [])\<rparr>"
  have "\<not> session_resumes d' (rr_previous_connection_id ?req) (svc_state (sys_svc s2))" for d'
    using none by (auto simp: previous_for_register_def session_resumes_def split: option.split)
  moreover have payload: "dmsg_payload (register_message cfg (Some cid) last_disconnect now) = Some (Register ?req)"
    by (simp add: register_message_def)
  ultimately show ?thesis unfolding register_out [OF payload] by auto
qed

definition sample_lost :: "sample_cache relay_system" where
  "sample_lost = (device_turn (sample_env 4) 0 DeviceStreamEnd sample_device sample_connected)\<lparr>sys_now := 4\<rparr>"

theorem session_not_recovered_witness:
  "\<exists>c. svc_out (snd (snd (device_event_step (sample_env 5)
      (DeviceMsg (register_message sample_device_config (Some ''conn-1'') (Some 0) 1))
      (device_stream_new 2) (sys_svc sample_lost))))
    \<in> {svc_out (sys_svc sample_lost),
       svc_out (sys_svc sample_lost) @
         [ToDevice (dst_out_tx (device_stream_new 2)) (relay_message_register_response c False)]}"
proof (rule session_not_recovered [OF sample_connected_reach sample_fresh])
  show "map_of (sys_devices sample_connected) 0 = Some sample_device" by (simp add: sample_connected_system)
  show "dst_current_device_id sample_device = Some ''d1''" "dst_current_connection_id sample_device = Some ''conn-1''"
    by (simp_all add: sample_device_def)
  show "has_active_device_connection ''d1'' ''conn-1'' (svc_state (sys_svc sample_connected))"
    by (simp add: has_active_device_connection_def sample_connected_service sample_session_def)
  show "sys_step (sample_env 4) (DeviceReceives 0 DeviceStreamEnd) sample_connected = Some sample_lost"
    by (simp add: sys_step_def sample_connected_system sample_lost_def)
  show "stream_ends DeviceStreamEnd" by (simp add: stream_ends_def)
  show "sys_run [] sample_lost = Some sample_lost" by simp
qed simp_all

end
