(* ===== verification/Relay_Specs.thy ===== *)
theory Relay_Specs
  imports Stream_Router Relay_State
begin

text \<open>
  Abstract specifications of the two shared tables of the relay and the refinement theorems. The
  requests in flight are a book of promises: each oneshot that was handed out is pending on a key
  or has been answered, and nothing is ever struck out. The stream router is one table of
  streams, without indexes, in which the caps are found by counting.
\<close>

section \<open>Requests in flight\<close>

datatype promise = Pending "string \<times> int" | Answered device_response

datatype inflight_op =
    JoinOp int string
  | CompleteOp string int device_response
  | FailOp string "int \<Rightarrow> device_response"

text \<open>The calls of the handlers: join a request, answer one, fail all of a device.\<close>

fun inflight_do :: "inflight_op \<Rightarrow> relay_state \<Rightarrow> (oneshot \<times> bool) option \<times> relay_state" where
  "inflight_do (JoinOp seq d) st = (let (r, st1) = ensure_inflight_waiter seq d st in (Some r, st1))"
| "inflight_do (CompleteOp d seq resp) st = (None, take_and_complete d seq resp st)"
| "inflight_do (FailOp d resp) st = (None, fail_inflight d resp st)"

text \<open>The same on the book: the position in the list is the oneshot.\<close>

fun settle :: "(string \<times> int \<Rightarrow> device_response option) \<Rightarrow> promise \<Rightarrow> promise" where
  "settle f (Pending k) = (case f k of Some r \<Rightarrow> Answered r | None \<Rightarrow> Pending k)"
| "settle f (Answered r) = Answered r"

fun book_do :: "inflight_op \<Rightarrow> promise list \<Rightarrow> (oneshot \<times> bool) option \<times> promise list" where
  "book_do (JoinOp seq d) b = (Some (length b, Pending (d, seq) \<notin> set b), b @ [Pending (d, seq)])"
| "book_do (CompleteOp d seq resp) b = (None, map (settle ([(d, seq) \<mapsto> resp])) b)"
| "book_do (FailOp d resp) b =
     (None, map (settle (\<lambda>k. if fst k = d then Some (resp (snd k)) else None)) b)"

text \<open>The book a state stands for.\<close>

definition promise_of :: "relay_state \<Rightarrow> oneshot \<Rightarrow> promise" where
  "promise_of st w =
     (case map_of (oneshot_sent st) w of
        Some r \<Rightarrow> Answered r
      | None \<Rightarrow>
          (case find (\<lambda>e. List.member (if_waiters (snd e)) w) (inflight_by_sequence st) of
             Some e \<Rightarrow> Pending (fst e)
           | None \<Rightarrow> Pending ([], 0)))"

definition book_of :: "relay_state \<Rightarrow> promise list" where
  "book_of st = map (promise_of st) [0..<next_oneshot st]"

lemma promise_waiting:
  assumes "waiters_wf st" "waiting st w k"
  shows "promise_of st w = Pending k"
proof -
  have dm: "dm_wf (inflight_by_sequence st)" using assms(1) by (simp add: waiters_wf_def)
  obtain fl where fl: "(k, fl) \<in> set (inflight_by_sequence st)" "w \<in> set (if_waiters fl)"
    using assms(2) by (auto simp: waiting_def dest: map_of_SomeD)
  then have "\<exists>e \<in> set (inflight_by_sequence st). List.member (if_waiters (snd e)) w"
    by (intro bexI [of _ "(k, fl)"]) simp_all
  then have "find (\<lambda>e. List.member (if_waiters (snd e)) w) (inflight_by_sequence st) \<noteq> None"
    unfolding find_None_iff by blast
  then obtain e where e: "find (\<lambda>e. List.member (if_waiters (snd e)) w) (inflight_by_sequence st) = Some e"
    by blast
  then have "e \<in> set (inflight_by_sequence st)" "w \<in> set (if_waiters (snd e))"
    by (auto simp: find_Some_iff)
  then have "waiting st w (fst e)"
    using dm by (auto simp: waiting_def dm_entry_iff [symmetric] intro!: exI [of _ "snd e"])
  then have "fst e = k" by (rule waiters_wfD(1) [OF assms(1) _ assms(2)])
  then show ?thesis unfolding promise_of_def waiters_wfD(2) [OF assms] e by simp
qed

lemma promise_answered: "map_of (oneshot_sent st) w = Some r \<Longrightarrow> promise_of st w = Answered r"
  by (simp add: promise_of_def)

lemma promise_cases:
  assumes "waiters_wf st" "w < next_oneshot st"
  obtains (pending) k where "waiting st w k" "promise_of st w = Pending k" "map_of (oneshot_sent st) w = None"
  | (answered) r where "map_of (oneshot_sent st) w = Some r" "promise_of st w = Answered r" "\<And>k. \<not> waiting st w k"
  using waiters_wfD(3) [OF assms(1), of w] waiters_wfD(2) [OF assms(1), of w] promise_waiting [OF assms(1), of w]
    promise_answered [of st w] assms(2) by (metis not_None_eq)

lemma book_pending:
  assumes "waiters_wf st"
  shows "Pending k \<in> set (book_of st) \<longleftrightarrow> map_of (inflight_by_sequence st) k \<noteq> None"
proof
  assume "Pending k \<in> set (book_of st)"
  then obtain w where "w < next_oneshot st" "promise_of st w = Pending k" by (auto simp: book_of_def)
  then show "map_of (inflight_by_sequence st) k \<noteq> None"
    by (cases rule: promise_cases [OF assms, of w]) (auto simp: waiting_def)
next
  assume "map_of (inflight_by_sequence st) k \<noteq> None"
  then obtain fl where fl: "map_of (inflight_by_sequence st) k = Some fl" by blast
  with waiters_wf_entry [OF assms fl] have w: "waiting st (hd (if_waiters fl)) k" by (simp add: waiting_def)
  from waiters_below [OF assms w] promise_waiting [OF assms w] show "Pending k \<in> set (book_of st)"
    by (force simp: book_of_def)
qed

lemma book_settle:
  assumes "waiters_wf st" "waiters_wf st'" "next_oneshot st' = next_oneshot st"
    and "\<And>w k. waiting st' w k \<longleftrightarrow> waiting st w k \<and> f k = None"
    and "\<And>w k r. waiting st w k \<Longrightarrow> f k = Some r \<Longrightarrow> map_of (oneshot_sent st') w = Some r"
    and "\<And>w. (\<And>k. \<not> waiting st w k) \<Longrightarrow> map_of (oneshot_sent st') w = map_of (oneshot_sent st) w"
  shows "book_of st' = map (settle f) (book_of st)"
proof -
  have "promise_of st' w = settle f (promise_of st w)" if "w < next_oneshot st" for w
  proof (cases rule: promise_cases [OF assms(1) that])
    case (1 k)
    show ?thesis
    proof (cases "f k")
      case None
      with 1 promise_waiting [OF assms(2), of w k] assms(4) show ?thesis by simp
    next
      case (Some r)
      with 1 promise_answered [OF assms(5) [OF 1(1) Some]] show ?thesis by simp
    qed
  next
    case (2 r)
    with promise_answered [of st' w r] assms(6) [of w] show ?thesis by simp
  qed
  then show ?thesis by (simp add: book_of_def assms(3))
qed

lemma book_join:
  assumes "waiters_wf st"
  shows "book_of (snd (ensure_inflight_waiter seq d st)) = book_of st @ [Pending (d, seq)]"
proof -
  let ?st = "snd (ensure_inflight_waiter seq d st)"
  note wf = waiters_wf_ensure [OF assms, of seq d]
  have next_eq: "next_oneshot ?st = Suc (next_oneshot st)" "oneshot_sent ?st = oneshot_sent st"
    by (simp_all add: ensure_inflight_eq)
  have "promise_of ?st w = promise_of st w" if "w < next_oneshot st" for w
  proof (cases rule: promise_cases [OF assms that])
    case (1 k)
    then show ?thesis by (simp add: promise_waiting [OF wf, of w k] ensure_waiting)
  next
    case (2 r)
    then show ?thesis by (simp add: promise_answered next_eq)
  qed
  moreover have "promise_of ?st (next_oneshot st) = Pending (d, seq)"
    by (rule promise_waiting [OF wf]) (simp add: ensure_waiting)
  ultimately show ?thesis by (simp add: book_of_def next_eq)
qed

lemma inflight_do_wf: "waiters_wf st \<Longrightarrow> waiters_wf (snd (inflight_do e st))"
  by (cases e) (simp_all add: waiters_wf_ensure waiters_wf_take_and_complete waiters_wf_fail case_prod_unfold Let_def)

lemma inflight_simulates:
  assumes "waiters_wf st"
  shows "book_do e (book_of st) = (fst (inflight_do e st), book_of (snd (inflight_do e st)))"
proof (cases e)
  case (JoinOp seq d)
  have "length (book_of st) = next_oneshot st" by (simp add: book_of_def)
  with JoinOp book_pending [OF assms, of "(d, seq)"] book_join [OF assms, of seq d] show ?thesis
    by (simp add: case_prod_unfold Let_def ensure_inflight_eq)
next
  case (CompleteOp d seq resp)
  have "book_of (take_and_complete d seq resp st) = map (settle ([(d, seq) \<mapsto> resp])) (book_of st)"
    using assms waiters_wf_take_and_complete [OF assms, of d seq resp]
    by (rule book_settle)
      (auto simp: take_and_complete_waiting take_and_complete_sent split: if_splits)
  with CompleteOp show ?thesis by simp
next
  case (FailOp d resp)
  have "book_of (fail_inflight d resp st) =
      map (settle (\<lambda>k. if fst k = d then Some (resp (snd k)) else None)) (book_of st)"
    using assms waiters_wf_fail [OF assms, of d resp]
    by (rule book_settle)
      (auto simp: fail_inflight_waiting [OF assms] intro: fail_inflight_sent [OF assms] split: if_splits)
  with FailOp show ?thesis by simp
qed

interpretation inflight_book: data_refinement inflight_do "\<lambda>_ _. True" waiters_wf book_do book_of
  by unfold_locales (simp_all add: inflight_do_wf inflight_simulates)

lemma inflight_book_allowed: "inflight_book.run_allowed es st"
  by (induction es arbitrary: st) simp_all

text \<open>
  C5. The requests in flight implement a book of promises. For any sequence of joins, answers and
  device failures, the real table hands out the same oneshots and tells the same callers that
  they are the ones to forward as the book does, and in the end every oneshot is pending on
  the key it was handed out for or has been answered exactly as in the book: each with the first
  answer given for its key after it joined.
\<close>
theorem inflight_implements_book:
  "call_trace book_do es [] =
     (fst (call_trace inflight_do es relay_state_new), book_of (snd (call_trace inflight_do es relay_state_new)))"
proof -
  have "book_of relay_state_new = []" by (simp add: book_of_def relay_state_new_def)
  with inflight_book.trace_refines [OF waiters_wf_new inflight_book_allowed] show ?thesis by simp
qed

section \<open>The stream router\<close>

text \<open>The specification: the counter, the caps and one table.\<close>

record stream_table =
  st_counter :: u64
  st_device_cap :: nat
  st_controller_cap :: nat
  st_idle :: duration
  st_streams :: "string \<rightharpoonup> stream_mapping"

datatype router_answer =
    Creation "stream_router_error + string"
  | Removed "stream_mapping set"
  | Done

definition count_by :: "(stream_mapping \<Rightarrow> string) \<Rightarrow> string \<Rightarrow> (string \<rightharpoonup> stream_mapping) \<Rightarrow> nat" where
  "count_by key k tab = card {sid. \<exists>m. tab sid = Some m \<and> key m = k}"

definition over_cap :: "nat \<Rightarrow> nat \<Rightarrow> bool" where
  "over_cap cap n \<longleftrightarrow> 0 < n \<and> cap \<le> n"

definition keep_streams :: "(stream_mapping \<Rightarrow> bool) \<Rightarrow> stream_table \<Rightarrow> router_answer \<times> stream_table" where
  "keep_streams P t =
     (Removed {m \<in> ran (st_streams t). \<not> P m},
      t\<lparr>st_streams := \<lambda>sid. case st_streams t sid of
          Some m \<Rightarrow> if P m then Some m else None | None \<Rightarrow> None\<rparr>)"

definition change_stream :: "string \<Rightarrow> (stream_mapping \<Rightarrow> stream_mapping) \<Rightarrow> stream_table \<Rightarrow> stream_table" where
  "change_stream sid f t = t\<lparr>st_streams := (st_streams t)(sid := map_option f (st_streams t sid))\<rparr>"

fun table_do :: "router_op \<Rightarrow> stream_table \<Rightarrow> router_answer \<times> stream_table" where
  "table_do (CreateOp now d c m tx) t =
     (let t1 = t\<lparr>st_counter := st_counter t + 1\<rparr>;
          nd = count_by sm_device_id d (st_streams t); nc = count_by sm_controller_id c (st_streams t)
      in if over_cap (st_device_cap t) nd
         then (Creation (Inl (max_streams_error ''device'' d nd (st_device_cap t))), t1)
         else if over_cap (st_controller_cap t) nc
         then (Creation (Inl (max_streams_error ''controller'' c nc (st_controller_cap t))), t1)
         else (Creation (Inr (stream_id_of (st_counter t))),
               t1\<lparr>st_streams := (st_streams t)
                 (stream_id_of (st_counter t) \<mapsto> new_mapping now d c m tx (st_counter t))\<rparr>))"
| "table_do (RemoveOp sid) t = keep_streams (\<lambda>m. sm_stream_id m \<noteq> sid) t"
| "table_do (RemoveAllOp d) t = keep_streams (\<lambda>m. sm_device_id m \<noteq> d) t"
| "table_do (TouchOp now sid) t = (Done, change_stream sid (\<lambda>m. m\<lparr>sm_last_activity := now\<rparr>) t)"
| "table_do (BeginOp now sid) t =
     (Done, change_stream sid
       (\<lambda>m. m\<lparr>sm_last_activity := now, sm_active_requests := sm_active_requests m + 1\<rparr>) t)"
| "table_do (FinishOp now sid) t =
     (Done, change_stream sid
       (\<lambda>m. m\<lparr>sm_last_activity := now, sm_active_requests := sm_active_requests m - 1\<rparr>) t)"
| "table_do (CleanupOp now) t =
     keep_streams (\<lambda>m. \<not> (sm_active_requests m = 0
       \<and> st_idle t \<le> saturating_duration_since now (sm_last_activity m))) t"

text \<open>The calls of the router with their results.\<close>

fun router_do :: "router_op \<Rightarrow> stream_router \<Rightarrow> router_answer \<times> stream_router" where
  "router_do (CreateOp now d c m tx) r =
     (Creation (fst (create_mapping now d c m tx r)), snd (create_mapping now d c m tx r))"
| "router_do (RemoveOp sid) r =
     (Removed (set_option (fst (remove_mapping sid r))), snd (remove_mapping sid r))"
| "router_do (RemoveAllOp d) r =
     (Removed (set (fst (remove_all_for_device d r))), snd (remove_all_for_device d r))"
| "router_do (CleanupOp now) r = (Removed (set (fst (cleanup_stale now r))), snd (cleanup_stale now r))"
| "router_do e r = (Done, router_step e r)"

definition table_of :: "stream_router \<Rightarrow> stream_table" where
  "table_of r =
     \<lparr>st_counter = sr_counter r, st_device_cap = sr_max_active_streams r,
      st_controller_cap = sr_max_concurrent_streams_per_controller r, st_idle = sr_idle_timeout r,
      st_streams = map_of (sr_mappings r)\<rparr>"

lemma router_do_step: "snd (router_do e r) = router_step e r"
  by (cases e) simp_all

lemma count_index:
  assumes "index_ok key ms idx"
  shows "length (streams_of idx k) = count_by key k ms" "map_of idx k \<noteq> None \<longleftrightarrow> 0 < count_by key k ms"
proof -
  have "set (streams_of idx k) = {sid. \<exists>m. ms sid = Some m \<and> key m = k}" "distinct (streams_of idx k)"
    using assms by (auto simp: index_ok_def)
  then show len: "length (streams_of idx k) = count_by key k ms"
    by (simp add: count_by_def distinct_card flip: \<open>set _ = _\<close>)
  have "map_of idx k \<noteq> Some []" using assms by (simp add: index_ok_def)
  then show "map_of idx k \<noteq> None \<longleftrightarrow> 0 < count_by key k ms"
    unfolding len [symmetric] by (auto simp: streams_of_def split: option.splits)
qed

lemma router_full:
  assumes "router_wf r"
  shows "device_full d r \<longleftrightarrow> over_cap (sr_max_active_streams r) (count_by sm_device_id d (map_of (sr_mappings r)))"
    and "controller_full c r \<longleftrightarrow>
      over_cap (sr_max_concurrent_streams_per_controller r) (count_by sm_controller_id c (map_of (sr_mappings r)))"
    and "length (streams_of (sr_device_to_streams r) d) = count_by sm_device_id d (map_of (sr_mappings r))"
    and "length (streams_of (sr_controller_to_streams r) c) = count_by sm_controller_id c (map_of (sr_mappings r))"
  using assms count_index [of sm_device_id "map_of (sr_mappings r)" "sr_device_to_streams r" d]
    count_index [of sm_controller_id "map_of (sr_mappings r)" "sr_controller_to_streams r" c]
  by (auto simp: router_wf_def device_full_def controller_full_def over_cap_def)

lemma ran_entry:
  assumes "router_wf r"
  shows "m \<in> ran (map_of (sr_mappings r)) \<longleftrightarrow> map_of (sr_mappings r) (sm_stream_id m) = Some m"
  using assms by (auto simp: router_wf_def ids_below_def ran_def)

lemma remove_streams_table:
  "sr_counter (snd (remove_all_for_device d r)) = sr_counter r
   \<and> sr_max_active_streams (snd (remove_all_for_device d r)) = sr_max_active_streams r
   \<and> sr_max_concurrent_streams_per_controller (snd (remove_all_for_device d r)) = sr_max_concurrent_streams_per_controller r
   \<and> sr_idle_timeout (snd (remove_all_for_device d r)) = sr_idle_timeout r"
proof -
  have "sr_max_active_streams (snd (remove_streams sids r)) = sr_max_active_streams r
   \<and> sr_max_concurrent_streams_per_controller (snd (remove_streams sids r)) = sr_max_concurrent_streams_per_controller r
   \<and> sr_idle_timeout (snd (remove_streams sids r)) = sr_idle_timeout r" for sids r
    by (induction sids arbitrary: r) (auto simp: Let_def case_prod_unfold split: option.split)
  then show ?thesis by (simp add: remove_all_for_device_def remove_streams_counter split: option.split)
qed

lemma cleanup_frame_table:
  "sr_counter (snd (cleanup_stale now r)) = sr_counter r
   \<and> sr_max_active_streams (snd (cleanup_stale now r)) = sr_max_active_streams r
   \<and> sr_max_concurrent_streams_per_controller (snd (cleanup_stale now r)) = sr_max_concurrent_streams_per_controller r
   \<and> sr_idle_timeout (snd (cleanup_stale now r)) = sr_idle_timeout r"
proof -
  have "sr_idle_timeout (snd (remove_mapping sid r)) = sr_idle_timeout r" for sid r
    by (simp add: remove_mapping_def split: option.split)
  then have "sr_idle_timeout (snd (remove_mappings sids r)) = sr_idle_timeout r" for sids r
    by (induction sids arbitrary: r) (auto simp: Let_def case_prod_unfold)
  then show ?thesis by (simp add: cleanup_stale_def Let_def remove_mappings_frame)
qed

lemma table_update:
  "table_of (update_mapping sid f r) = change_stream sid f (table_of r)"
  by (auto simp: table_of_def change_stream_def update_mapping_def fun_eq_iff split: option.split)

lemma table_create:
  assumes "router_wf r"
  shows "table_do (CreateOp now d c m tx) (table_of r) =
    (Creation (fst (create_mapping now d c m tx r)), table_of (snd (create_mapping now d c m tx r)))"
proof -
  note full = router_full [OF assms]
  show ?thesis
    by (cases "device_full d r"; cases "controller_full c r")
      (auto simp: create_device_full create_controller_full create_ok table_of_def Let_def full)
qed

lemma keep_refines:
  assumes "router_wf r" "table_of r' = (table_of r)\<lparr>st_streams := map_of (sr_mappings r')\<rparr>"
    and "\<And>sid. map_of (sr_mappings r') sid =
      (case map_of (sr_mappings r) sid of Some m \<Rightarrow> if P m then Some m else None | None \<Rightarrow> None)"
    and "\<And>m. m \<in> R \<longleftrightarrow> map_of (sr_mappings r) (sm_stream_id m) = Some m \<and> \<not> P m"
  shows "keep_streams P (table_of r) = (Removed R, table_of r')"
proof -
  have "R = {m \<in> ran (st_streams (table_of r)). \<not> P m}"
    using assms(4) ran_entry [OF assms(1)] by (auto simp: table_of_def)
  moreover have "map_of (sr_mappings r') =
      (\<lambda>sid. case st_streams (table_of r) sid of Some m \<Rightarrow> if P m then Some m else None | None \<Rightarrow> None)"
    using assms(3) by (simp add: table_of_def fun_eq_iff)
  ultimately show ?thesis unfolding keep_streams_def assms(2) by simp
qed

lemma table_remove:
  assumes "router_wf r"
  shows "table_do (RemoveOp sid) (table_of r) =
    (Removed (set_option (fst (remove_mapping sid r))), table_of (snd (remove_mapping sid r)))"
proof -
  have ids: "map_of (sr_mappings r) s = Some m \<Longrightarrow> sm_stream_id m = s" for s m
    using assms by (auto simp: router_wf_def ids_below_def)
  show ?thesis
    unfolding table_do.simps
  proof (rule keep_refines [OF assms])
    show "table_of (snd (remove_mapping sid r)) =
        (table_of r)\<lparr>st_streams := map_of (sr_mappings (snd (remove_mapping sid r)))\<rparr>"
      by (simp add: table_of_def remove_mapping_def split: option.split)
  qed (auto simp: remove_mapping_lookup remove_mapping_result dest: ids split: option.splits)
qed

lemma table_remove_all:
  assumes "router_wf r"
  shows "table_do (RemoveAllOp d) (table_of r) =
    (Removed (set (fst (remove_all_for_device d r))), table_of (snd (remove_all_for_device d r)))"
  unfolding table_do.simps
  by (rule keep_refines [OF assms])
    (auto simp: table_of_def remove_streams_table remove_all_lookup [OF assms] remove_all_result [OF assms]
      split: option.split)

lemma table_cleanup:
  assumes "router_wf r"
  shows "table_do (CleanupOp now) (table_of r) =
    (Removed (set (fst (cleanup_stale now r))), table_of (snd (cleanup_stale now r)))"
  unfolding table_do.simps
  by (rule keep_refines [OF assms])
    (auto simp: table_of_def cleanup_frame_table cleanup_stale_lookup [OF assms] cleanup_stale_result [OF assms]
      stream_is_stale_def split: option.split)

lemma router_simulates:
  assumes "router_inv r"
  shows "table_do e (table_of r) = (fst (router_do e r), table_of (snd (router_do e r)))"
proof -
  have wf: "router_wf r" using assms by (simp add: router_inv_def)
  show ?thesis
    by (cases e)
      (simp_all only: table_create [OF wf] table_remove [OF wf] table_remove_all [OF wf] table_cleanup [OF wf]
        router_do.simps fst_conv snd_conv,
       simp_all add: table_update touch_stream_def begin_request_def finish_request_def)
qed

interpretation router_table: data_refinement router_do "\<lambda>_. counter_room" router_inv table_do table_of
  by unfold_locales (simp_all add: router_do_step router_step_inv router_simulates)

lemma router_table_allowed: "router_table.run_allowed es r \<longleftrightarrow> router.run_allowed es r"
  by (induction es arbitrary: r) (simp_all add: router_do_step)

text \<open>
  C8. The stream router implements a plain table of streams. For any sequence of fewer than
  \<open>2^64 - 1\<close> calls, every call returns what it returns on the table without indexes, where the
  caps are checked by counting the streams of the device and of the controller and removal looks
  at every stream, and the streams left in the end are the same.
\<close>
theorem router_implements_table:
  assumes "length es < 2 ^ 64 - 1"
  shows "call_trace table_do es (table_of (stream_router_new cfg)) =
    (fst (call_trace router_do es (stream_router_new cfg)),
     table_of (snd (call_trace router_do es (stream_router_new cfg))))"
  using assms
  by (intro router_table.trace_refines router_new_inv)
    (simp add: router_table_allowed router_run_room stream_router_new_def)

theorem router_implements_table_witness:
  "call_trace table_do [CreateOp 0 ''d'' ''c'' ''m'' 1, CreateOp 1 ''d'' ''c'' ''m'' 2, RemoveAllOp ''d'']
      (table_of (stream_router_new default_stream_config)) =
    (fst (call_trace router_do [CreateOp 0 ''d'' ''c'' ''m'' 1, CreateOp 1 ''d'' ''c'' ''m'' 2, RemoveAllOp ''d'']
       (stream_router_new default_stream_config)),
     table_of (snd (call_trace router_do [CreateOp 0 ''d'' ''c'' ''m'' 1, CreateOp 1 ''d'' ''c'' ''m'' 2, RemoveAllOp ''d'']
       (stream_router_new default_stream_config))))"
  by (rule router_implements_table) simp

end
