(* ===== verification/Alerting.thy ===== *)
theory Alerting
  imports Stream_Router Relay_State Relay_Metrics Mqtt_Runtime
begin

text \<open>
  \<^verbatim>\<open>crates/relay/src/alerting.rs\<close>: the rules that are evaluated at every tick of the alerting task,
  with the three tables that decide when an alert is sent. The log line of \<open>emit_alert\<close> is an
  entry of a list.
\<close>

section \<open>Thresholds\<close>

text \<open>
  \<open>parse::<f64>()\<close>: a sign, then \<open>inf\<close>, \<open>infinity\<close> or \<open>nan\<close> in any case, or digits with an optional
  point and exponent. Finite values are real numbers.
\<close>

datatype f64_value = Finite real | PosInf | NegInf | NaN

definition ascii_lower :: "char \<Rightarrow> char" where
  "ascii_lower c = (if 65 \<le> (of_char c :: nat) \<and> (of_char c :: nat) \<le> 90 then char_of (of_char c + 32 :: nat) else c)"

definition digits_value :: "string \<Rightarrow> nat" where
  "digits_value s = foldl (\<lambda>n c. n * 10 + (of_char c - 48)) 0 s"

definition parse_exponent :: "string \<Rightarrow> int option" where
  "parse_exponent s =
     (case s of
        [] \<Rightarrow> Some 0
      | e # r \<Rightarrow>
          (if ascii_lower e \<noteq> CHR ''e'' then None
           else let (neg, ds) = (case r of
                       [] \<Rightarrow> (False, [])
                     | c # r' \<Rightarrow> if c = CHR ''-'' then (True, r') else if c = CHR ''+'' then (False, r') else (False, r))
                in map_option (\<lambda>n. if neg then - int n else int n) (parse_digits ds)))"

definition parse_decimal :: "string \<Rightarrow> real option" where
  "parse_decimal s =
     (let whole = takeWhile is_digit s; r1 = dropWhile is_digit s;
          (frac, r2) = (case r1 of
             [] \<Rightarrow> ([], [])
           | c # r \<Rightarrow> if c = CHR ''.'' then (takeWhile is_digit r, dropWhile is_digit r) else ([], r1))
      in if whole = [] \<and> frac = [] then None
         else map_option (\<lambda>e. real (digits_value (whole @ frac)) * 10 powi (e - int (length frac)))
                (parse_exponent r2))"

definition parse_f64 :: "string \<Rightarrow> f64_value option" where
  "parse_f64 s =
     (let (neg, body) = (case s of
             [] \<Rightarrow> (False, [])
           | c # r \<Rightarrow> if c = CHR ''-'' then (True, r) else if c = CHR ''+'' then (False, r) else (False, s));
          low = map ascii_lower body
      in if low = ''inf'' \<or> low = ''infinity'' then Some (if neg then NegInf else PosInf)
         else if low = ''nan'' then Some NaN
         else map_option (\<lambda>v. Finite (if neg then - v else v)) (parse_decimal body))"

definition f64_max :: real where
  "f64_max = 2 ^ 1024 - 2 ^ 971"

definition threshold_of :: "string \<Rightarrow> f64_value" where
  "threshold_of s = (case parse_f64 s of Some v \<Rightarrow> v | None \<Rightarrow> Finite f64_max)"

fun f64_ge :: "real \<Rightarrow> f64_value \<Rightarrow> bool" where
  "f64_ge v (Finite t) = (v \<ge> t)"
| "f64_ge v NegInf = True"
| "f64_ge v PosInf = False"
| "f64_ge v NaN = False"

fun f64_gt :: "real \<Rightarrow> f64_value \<Rightarrow> bool" where
  "f64_gt v (Finite t) = (v > t)"
| "f64_gt v NegInf = True"
| "f64_gt v PosInf = False"
| "f64_gt v NaN = False"

section \<open>Conditions\<close>

record alert_context =
  ac_active_device_connections :: real
  ac_active_streams :: real
  ac_cpu_usage_percent :: real
  ac_memory_usage_percent :: real
  ac_mqtt_connected :: bool
  ac_auth_failures_total :: real

definition alert_context_of ::
  "relay_state \<Rightarrow> stream_router \<Rightarrow> sys_reading \<Rightarrow> mqtt_runtime_state \<Rightarrow> relay_metrics \<Rightarrow> alert_context" where
  "alert_context_of st router sys rt rm =
     \<lparr>ac_active_device_connections = real (length (sessions_by_device_id st)),
      ac_active_streams = real (total_active_streams router),
      ac_cpu_usage_percent = global_cpu_usage sys, ac_memory_usage_percent = memory_usage_percent sys,
      ac_mqtt_connected = mq_connected rt, ac_auth_failures_total = real (unat (rm_auth_failure_total rm))\<rparr>"

definition read_metric :: "string \<Rightarrow> alert_context \<Rightarrow> real option" where
  "read_metric metric ctx =
     (if metric = ''active_device_connections'' then Some (ac_active_device_connections ctx)
      else if metric = ''active_streams'' then Some (ac_active_streams ctx)
      else if metric = ''cpu_usage_percent'' then Some (ac_cpu_usage_percent ctx)
      else if metric = ''memory_usage_percent'' then Some (ac_memory_usage_percent ctx)
      else if metric = ''auth_failures_total'' then Some (ac_auth_failures_total ctx)
      else None)"

definition evaluate_condition :: "string \<Rightarrow> alert_context \<Rightarrow> bool" where
  "evaluate_condition condition ctx =
     (let normalized = filter (\<lambda>c. c \<noteq> CHR '' '') condition
      in case split_once_str ''>='' normalized of
           Some (metric, threshold) \<Rightarrow>
             (case read_metric metric ctx of Some v \<Rightarrow> f64_ge v (threshold_of threshold) | None \<Rightarrow> False)
         | None \<Rightarrow>
             (case split_once_char (CHR ''>'') normalized of
                Some (metric, threshold) \<Rightarrow>
                  (case read_metric metric ctx of Some v \<Rightarrow> f64_gt v (threshold_of threshold) | None \<Rightarrow> False)
              | None \<Rightarrow>
                  (case split_once_str ''=='' normalized of
                     Some (metric, expected) \<Rightarrow>
                       (if metric = ''mqtt_connected'' then ac_mqtt_connected ctx = (expected = ''true'') else False)
                   | None \<Rightarrow> False)))"

definition evaluate_rule :: "alert_rule_config \<Rightarrow> alert_context \<Rightarrow> alerting_severity option" where
  "evaluate_rule rule ctx = (if evaluate_condition (rule_condition rule) ctx then Some (rule_severity rule) else None)"

section \<open>The task\<close>

text \<open>
  What the section of the configuration file gives: an absent field has its \<open>serde\<close> default, which
  for the rules is the empty list; an absent section is \<open>AlertingConfig::default()\<close>.
\<close>

record alerting_section =
  sec_enabled :: "bool option"
  sec_evaluation_interval_seconds :: "nat option"
  sec_channels :: "alert_channel_config list option"
  sec_rules :: "alert_rule_config list option"
  sec_suppression :: "alert_suppression_config option"

definition field_or :: "'a \<Rightarrow> 'a option \<Rightarrow> 'a" where
  "field_or d x = (case x of Some v \<Rightarrow> v | None \<Rightarrow> d)"

definition alerting_of_section :: "alerting_section \<Rightarrow> alerting_config" where
  "alerting_of_section sec =
     \<lparr>alerting_enabled = field_or False (sec_enabled sec),
      evaluation_interval_seconds = field_or 30 (sec_evaluation_interval_seconds sec),
      channels = field_or [] (sec_channels sec), rules = field_or [] (sec_rules sec),
      suppression = field_or default_alert_suppression_config (sec_suppression sec)\<rparr>"

definition alerting_of_file :: "alerting_section option \<Rightarrow> alerting_config" where
  "alerting_of_file sec = (case sec of Some x \<Rightarrow> alerting_of_section x | None \<Rightarrow> default_alerting_config)"

text \<open>The period of the task, when it is started at all.\<close>

definition alerting_spawn :: "alerting_config \<Rightarrow> duration option" where
  "alerting_spawn cfg =
     (if \<not> alerting_enabled cfg then None else Some (from_secs (max (evaluation_interval_seconds cfg) 1)))"

text \<open>The tables of the task, and the alerts it has sent.\<close>

record alert_state =
  al_last_sent :: "(string, instant) dashmap"
  al_last_state :: "(string, alerting_severity) dashmap"
  al_condition_active_since :: "(string, instant) dashmap"
  al_alerts :: "(string \<times> alerting_severity \<times> instant) list"

definition alert_state_new :: alert_state where
  "alert_state_new = \<lparr>al_last_sent = [], al_last_state = [], al_condition_active_since = [], al_alerts = []\<rparr>"

definition emit_alert :: "alert_rule_config \<Rightarrow> alerting_severity \<Rightarrow> instant \<Rightarrow> alert_state \<Rightarrow> alert_state" where
  "emit_alert rule severity now a =
     a\<lparr>al_alerts := al_alerts a @ [(rule_name rule, severity, now)],
       al_last_sent := AList.update (rule_name rule) now (al_last_sent a),
       al_last_state := AList.update (rule_name rule) severity (al_last_state a)\<rparr>"

text \<open>One rule of one tick.\<close>

definition alert_rule_step ::
  "alert_suppression_config \<Rightarrow> alert_context \<Rightarrow> instant \<Rightarrow> alert_rule_config \<Rightarrow> alert_state \<Rightarrow> alert_state" where
  "alert_rule_step supp ctx now rule a =
     (case evaluate_rule rule ctx of
        None \<Rightarrow>
          a\<lparr>al_condition_active_since := AList.delete (rule_name rule) (al_condition_active_since a),
            al_last_state := AList.delete (rule_name rule) (al_last_state a)\<rparr>
      | Some severity \<Rightarrow>
          (let active_since = (case map_of (al_condition_active_since a) (rule_name rule) of Some t \<Rightarrow> t | None \<Rightarrow> now);
               a1 = a\<lparr>al_condition_active_since :=
                        AList.update (rule_name rule) active_since (al_condition_active_since a)\<rparr>
           in if (case rule_duration_seconds rule of
                    Some d \<Rightarrow> saturating_duration_since now active_since < from_secs d | None \<Rightarrow> False)
              then a1
              else if (case map_of (al_last_sent a1) (rule_name rule) of
                         Some t \<Rightarrow> saturating_duration_since now t < from_secs (min_interval_seconds supp)
                       | None \<Rightarrow> False)
              then a1
              else if map_of (al_last_state a1) (rule_name rule) = Some severity then a1
              else emit_alert rule severity now a1))"

text \<open>A tick evaluates the rules in order, each at its own reading of the clock.\<close>

definition alert_tick ::
  "alert_suppression_config \<Rightarrow> alert_context \<Rightarrow> (alert_rule_config \<times> instant) list \<Rightarrow> alert_state \<Rightarrow> alert_state" where
  "alert_tick supp ctx timed_rules a = fold (\<lambda>(rule, now). alert_rule_step supp ctx now rule) timed_rules a"

definition channels_summary :: "alert_channel_config list \<Rightarrow> string" where
  "channels_summary chans = concat (case map channel_type chans of [] \<Rightarrow> [] | x # xs \<Rightarrow> x # map (\<lambda>t. '','' @ t) xs)"

text \<open>
  The rules that come with the program are never evaluated: they are in use only when the section
  is absent, and then the task is not started; a section that enables alerting has the rules it
  lists and no others.
\<close>

lemma default_rules_never_run:
  assumes "alerting_spawn (alerting_of_file sec) \<noteq> None"
  shows "\<exists>x. sec = Some x \<and> rules (alerting_of_file sec) = field_or [] (sec_rules x)"
  using assms
  by (cases sec)
    (auto simp: alerting_of_file_def alerting_of_section_def alerting_spawn_def default_alerting_config_def
      split: if_splits)

section \<open>When an alert is sent\<close>

text \<open>The evaluations of all rules over the life of the task, in order.\<close>

type_synonym evaluation = "alert_context \<times> instant \<times> alert_rule_config"

definition alert_run :: "alert_suppression_config \<Rightarrow> evaluation list \<Rightarrow> alert_state" where
  "alert_run supp evals = fold (\<lambda>(ctx, now, rule). alert_rule_step supp ctx now rule) evals alert_state_new"

definition holds_at :: "evaluation \<Rightarrow> bool" where
  "holds_at e = evaluate_condition (rule_condition (snd (snd e))) (fst e)"

definition about :: "string \<Rightarrow> evaluation \<Rightarrow> bool" where
  "about n e \<longleftrightarrow> rule_name (snd (snd e)) = n"

abbreviation time_of :: "evaluation \<Rightarrow> instant" where
  "time_of e \<equiv> fst (snd e)"

text \<open>Since \<open>t0\<close>, and up to \<open>t\<close>, every evaluation of a rule called \<open>n\<close> was positive.\<close>

definition held :: "evaluation list \<Rightarrow> string \<Rightarrow> instant \<Rightarrow> (instant \<Rightarrow> bool) \<Rightarrow> bool" where
  "held evals n t0 until \<longleftrightarrow>
     (\<exists>e \<in> set evals. about n e \<and> time_of e = t0 \<and> holds_at e)
     \<and> (\<forall>e \<in> set evals. about n e \<and> t0 < time_of e \<and> until (time_of e) \<longrightarrow> holds_at e)"

definition justified :: "evaluation list \<Rightarrow> string \<times> alerting_severity \<times> instant \<Rightarrow> bool" where
  "justified evals x \<longleftrightarrow>
     (case x of (n, sev, t) \<Rightarrow>
        \<exists>ctx rule. (ctx, t, rule) \<in> set evals \<and> rule_name rule = n \<and> evaluate_rule rule ctx = Some sev
          \<and> (\<forall>d. rule_duration_seconds rule = Some d \<longrightarrow>
               (\<exists>t0. from_secs d \<le> t - t0 \<and> held evals n t0 (\<lambda>t'. t' < t))))"

definition spaced :: "duration \<Rightarrow> string \<times> alerting_severity \<times> instant \<Rightarrow> string \<times> alerting_severity \<times> instant \<Rightarrow> bool" where
  "spaced gap x y \<longleftrightarrow> (fst x \<noteq> fst y \<or> snd (snd x) + gap \<le> snd (snd y))"

definition alert_ok :: "alert_suppression_config \<Rightarrow> evaluation list \<Rightarrow> alert_state \<Rightarrow> bool" where
  "alert_ok supp evals a \<longleftrightarrow>
     (\<forall>x \<in> set (al_alerts a). \<exists>t. map_of (al_last_sent a) (fst x) = Some t \<and> snd (snd x) \<le> t)
     \<and> (\<forall>n t. map_of (al_last_sent a) n = Some t \<longrightarrow> t \<in> time_of ` set evals)
     \<and> (\<forall>n t. map_of (al_condition_active_since a) n = Some t \<longrightarrow> held evals n t (\<lambda>_. True))
     \<and> sorted_wrt (spaced (from_secs (min_interval_seconds supp))) (al_alerts a)
     \<and> (\<forall>x \<in> set (al_alerts a). justified evals x)"

lemma justified_later:
  assumes "justified evals x" "\<forall>e' \<in> set evals. time_of e' \<le> time_of e"
  shows "justified (evals @ [e]) x"
proof -
  obtain n sev t where x: "x = (n, sev, t)" by (cases x)
  obtain ctx rule where r: "(ctx, t, rule) \<in> set evals" "rule_name rule = n" "evaluate_rule rule ctx = Some sev"
    and d: "\<And>d. rule_duration_seconds rule = Some d \<Longrightarrow>
      \<exists>t0. from_secs d \<le> t - t0 \<and> held evals n t0 (\<lambda>t'. t' < t)"
    using assms(1) by (auto simp: justified_def x)
  have "t \<le> time_of e" using assms(2) r(1) by fastforce
  then have "held evals n t0 (\<lambda>t'. t' < t) \<Longrightarrow> held (evals @ [e]) n t0 (\<lambda>t'. t' < t)" for t0
    by (auto simp: held_def)
  with r d show ?thesis unfolding justified_def x by fastforce
qed

lemma held_later: "held evals n t (\<lambda>_. True) \<Longrightarrow> \<not> about n e \<or> holds_at e \<Longrightarrow> held (evals @ [e]) n t (\<lambda>_. True)"
  by (auto simp: held_def)

lemma alert_ok_emit:
  assumes ok: "alert_ok supp evals a" and now: "\<forall>e' \<in> set evals. time_of e' \<le> now"
    and a1: "al_last_sent a1 = al_last_sent a" "al_alerts a1 = al_alerts a"
    and since: "\<forall>n t. map_of (al_condition_active_since a1) n = Some t \<longrightarrow> held (evals @ [(ctx, now, rule)]) n t (\<lambda>_. True)"
    and quiet: "\<forall>t. map_of (al_last_sent a) (rule_name rule) = Some t \<longrightarrow>
      from_secs (min_interval_seconds supp) \<le> now - t"
    and just: "justified (evals @ [(ctx, now, rule)]) (rule_name rule, sev, now)"
  shows "alert_ok supp (evals @ [(ctx, now, rule)]) (emit_alert rule sev now a1)"
proof -
  have last: "\<exists>t. map_of (al_last_sent a) (fst x) = Some t \<and> snd (snd x) \<le> t \<and> t \<le> now" if "x \<in> set (al_alerts a)" for x
    using ok now that unfolding alert_ok_def by (metis (no_types, lifting) imageE)
  have gap: "spaced (from_secs (min_interval_seconds supp)) x (rule_name rule, sev, now)" if "x \<in> set (al_alerts a)" for x
    using last [OF that] quiet by (fastforce simp: spaced_def)
  have old: "justified (evals @ [(ctx, now, rule)]) x" if "x \<in> set (al_alerts a)" for x
    using ok that now by (intro justified_later) (auto simp: alert_ok_def)
  show ?thesis
    unfolding alert_ok_def
  proof (intro conjI ballI allI impI)
    fix x
    assume "x \<in> set (al_alerts (emit_alert rule sev now a1))"
    then have "x \<in> set (al_alerts a) \<or> x = (rule_name rule, sev, now)" by (auto simp: emit_alert_def a1)
    then show "\<exists>t. map_of (al_last_sent (emit_alert rule sev now a1)) (fst x) = Some t \<and> snd (snd x) \<le> t"
      "justified (evals @ [(ctx, now, rule)]) x"
      using last [of x] old [of x] just by (auto simp: emit_alert_def a1)
  next
    fix n t
    assume "map_of (al_last_sent (emit_alert rule sev now a1)) n = Some t"
    then show "t \<in> time_of ` set (evals @ [(ctx, now, rule)])"
      using ok by (auto simp: emit_alert_def a1 alert_ok_def split: if_splits)
  next
    fix n t
    assume "map_of (al_condition_active_since (emit_alert rule sev now a1)) n = Some t"
    with since show "held (evals @ [(ctx, now, rule)]) n t (\<lambda>_. True)" by (simp add: emit_alert_def)
  next
    show "sorted_wrt (spaced (from_secs (min_interval_seconds supp))) (al_alerts (emit_alert rule sev now a1))"
      using ok gap by (simp add: emit_alert_def a1 sorted_wrt_append alert_ok_def)
  qed
qed

lemma alert_ok_quiet:
  assumes ok: "alert_ok supp evals a" and now: "\<forall>e' \<in> set evals. time_of e' \<le> time_of e"
    and a1: "al_last_sent a1 = al_last_sent a" "al_alerts a1 = al_alerts a"
    and since: "\<forall>n t. map_of (al_condition_active_since a1) n = Some t \<longrightarrow> held (evals @ [e]) n t (\<lambda>_. True)"
  shows "alert_ok supp (evals @ [e]) a1"
  using ok since justified_later [OF _ now] unfolding alert_ok_def a1 by auto

lemma alert_ok_step:
  assumes ok: "alert_ok supp evals a" and now: "\<forall>e' \<in> set evals. time_of e' \<le> now"
  shows "alert_ok supp (evals @ [(ctx, now, rule)]) (alert_rule_step supp ctx now rule a)"
proof (cases "evaluate_rule rule ctx")
  case None
  have "held (evals @ [(ctx, now, rule)]) n t (\<lambda>_. True)"
    if "map_of (AList.delete (rule_name rule) (al_condition_active_since a)) n = Some t" for n t
    using ok that by (intro held_later) (auto simp: alert_ok_def about_def split: if_splits)
  with None show ?thesis
    by (intro alert_ok_quiet [OF ok]) (use now in \<open>simp_all add: alert_rule_step_def\<close>)
next
  case (Some sev)
  define t0 where "t0 = (case map_of (al_condition_active_since a) (rule_name rule) of Some t \<Rightarrow> t | None \<Rightarrow> now)"
  define a1 where "a1 = a\<lparr>al_condition_active_since := AList.update (rule_name rule) t0 (al_condition_active_since a)\<rparr>"
  let ?e = "(ctx, now, rule)"
  have e: "holds_at ?e" "about (rule_name rule) ?e"
    using Some by (auto simp: evaluate_rule_def holds_at_def about_def split: if_splits)
  have h0: "held (evals @ [?e]) (rule_name rule) t0 (\<lambda>_. True)"
  proof (cases "map_of (al_condition_active_since a) (rule_name rule)")
    case None
    then have "t0 = now" by (simp add: t0_def)
    with e now show ?thesis by (force simp: held_def)
  next
    case (Some t)
    with ok e show ?thesis by (intro held_later) (simp_all add: t0_def alert_ok_def)
  qed
  have since: "held (evals @ [?e]) n t (\<lambda>_. True)" if "map_of (al_condition_active_since a1) n = Some t" for n t
    using that h0 ok held_later [of evals n t ?e] e(1)
    by (auto simp: a1_def alert_ok_def split: if_splits)
  have quiet: "alert_ok supp (evals @ [?e]) a1"
    by (rule alert_ok_quiet [OF ok]) (use now since in \<open>auto simp: a1_def\<close>)
  have "justified (evals @ [?e]) (rule_name rule, sev, now)"
    if "\<forall>d. rule_duration_seconds rule = Some d \<longrightarrow> from_secs d \<le> now - t0"
  proof -
    have "held (evals @ [?e]) (rule_name rule) t0 (\<lambda>t'. t' < now)" using h0 by (simp add: held_def)
    with that Some show ?thesis
      unfolding justified_def prod.case by (intro exI [of _ ctx] exI [of _ rule]) auto
  qed
  then have emit: "alert_ok supp (evals @ [?e]) (emit_alert rule sev now a1)"
    if "\<forall>d. rule_duration_seconds rule = Some d \<longrightarrow> from_secs d \<le> now - t0"
      "\<forall>t. map_of (al_last_sent a) (rule_name rule) = Some t \<longrightarrow> from_secs (min_interval_seconds supp) \<le> now - t"
    using that since by (intro alert_ok_emit [OF ok now]) (simp_all add: a1_def)
  have "al_last_sent a1 = al_last_sent a" by (simp add: a1_def)
  then have step: "alert_rule_step supp ctx now rule a =
      (if (case rule_duration_seconds rule of Some d \<Rightarrow> now - t0 < from_secs d | None \<Rightarrow> False) then a1
       else if (case map_of (al_last_sent a) (rule_name rule) of
                  Some t \<Rightarrow> now - t < from_secs (min_interval_seconds supp) | None \<Rightarrow> False) then a1
       else if map_of (al_last_state a1) (rule_name rule) = Some sev then a1
       else emit_alert rule sev now a1)"
    unfolding alert_rule_step_def Some option.case Let_def t0_def [symmetric] a1_def [symmetric]
      saturating_duration_since_def by simp
  show ?thesis
  proof (cases "alert_rule_step supp ctx now rule a = a1")
    case False
    then have "\<forall>d. rule_duration_seconds rule = Some d \<longrightarrow> from_secs d \<le> now - t0"
      "\<forall>t. map_of (al_last_sent a) (rule_name rule) = Some t \<longrightarrow> from_secs (min_interval_seconds supp) \<le> now - t"
      "alert_rule_step supp ctx now rule a = emit_alert rule sev now a1"
      unfolding step by (auto split: if_splits)
    with emit show ?thesis by simp
  qed (use quiet in simp)
qed

lemma alert_run_ok: "sorted (map time_of evals) \<Longrightarrow> alert_ok supp evals (alert_run supp evals)"
proof (induction evals rule: rev_induct)
  case Nil
  show ?case by (simp add: alert_ok_def alert_run_def alert_state_new_def)
next
  case (snoc e evals)
  then have "\<forall>e' \<in> set evals. time_of e' \<le> time_of e" "alert_ok supp evals (alert_run supp evals)"
    by (auto simp: sorted_append)
  then show ?case
    using alert_ok_step [of supp evals "alert_run supp evals" "time_of e" "fst e" "snd (snd e)"]
    by (simp add: alert_run_def case_prod_unfold)
qed

text \<open>
  C23. An alert is sent only for a rule whose condition holds at that evaluation and, when the rule
  asks for a duration, has held at every evaluation for at least that long; and two alerts of
  the same name are at least the suppression interval apart.
\<close>
theorem alerts_justified:
  assumes "sorted (map time_of evals)"
  shows "(\<forall>x \<in> set (al_alerts (alert_run supp evals)). justified evals x)
    \<and> sorted_wrt (spaced (from_secs (min_interval_seconds supp))) (al_alerts (alert_run supp evals))"
  using alert_run_ok [OF assms, of supp] by (simp add: alert_ok_def)

definition sample_rule :: alert_rule_config where
  "sample_rule = \<lparr>rule_name = ''mqtt'', rule_condition = ''mqtt_connected == false'', rule_severity = Critical,
     rule_message = [], rule_duration_seconds = Some 1\<rparr>"

definition sample_context :: alert_context where
  "sample_context = \<lparr>ac_active_device_connections = 0, ac_active_streams = 0, ac_cpu_usage_percent = 0,
     ac_memory_usage_percent = 0, ac_mqtt_connected = False, ac_auth_failures_total = 0\<rparr>"

lemma sample_condition: "evaluate_condition ''mqtt_connected == false'' sample_context"
  by (simp add: evaluate_condition_def starts_with_def split_once_char_def sample_context_def)

theorem alerts_justified_witness:
  "al_alerts (alert_run default_alert_suppression_config
       [(sample_context, 0, sample_rule), (sample_context, 1000000000, sample_rule)])
     = [(''mqtt'', Critical, 1000000000)]
   \<and> justified [(sample_context, 0, sample_rule), (sample_context, 1000000000, sample_rule)] (''mqtt'', Critical, 1000000000)"
proof -
  let ?evals = "[(sample_context, 0, sample_rule), (sample_context, 1000000000, sample_rule)]"
  have "al_alerts (alert_run default_alert_suppression_config ?evals) = [(''mqtt'', Critical, 1000000000)]"
    using sample_condition
    by (simp add: alert_run_def alert_rule_step_def evaluate_rule_def sample_rule_def alert_state_new_def
        emit_alert_def saturating_duration_since_def from_secs_def)
  with alerts_justified [of ?evals default_alert_suppression_config] show ?thesis by simp
qed

end
