(* ===== verification/Observability.thy ===== *)
theory Observability
  imports Stream_Router Relay_State Relay_Metrics Mqtt_Runtime
begin

text \<open>
  \<^verbatim>\<open>crates/relay/src/observability.rs\<close>: the health report, the gauges that are refreshed with it, and
  the endpoints. The HTTP server is a parameter of \<open>serve_health\<close>; so are the clock's formatted
  time and the encoder of the metrics.
\<close>

section \<open>The health report\<close>

record component_health =
  ch_status :: string
  ch_message :: string

record health_components =
  hc_grpc_server :: component_health
  hc_quic_listener :: component_health
  hc_mqtt_client :: component_health
  hc_auth_service :: component_health
  hc_metrics_collector :: component_health

record health_metrics =
  hm_active_device_connections :: u64
  hm_active_controller_connections :: u64
  hm_active_streams :: u64
  hm_cpu_usage_percent :: real
  hm_memory_usage_percent :: real

record health_response =
  hr_status :: string
  hr_timestamp :: string
  hr_uptime_seconds :: nat
  hr_version :: string
  hr_components :: health_components
  hr_metrics :: health_metrics

record health_state =
  hs_started_at :: instant
  hs_version :: string
  hs_metrics :: metrics
  hs_mqtt_runtime :: mqtt_runtime_state
  hs_relay_state :: relay_state
  hs_stream_router :: stream_router
  hs_startup_complete :: bool

definition health_statuses :: "health_components \<Rightarrow> string list" where
  "health_statuses c =
     [ch_status (hc_grpc_server c), ch_status (hc_quic_listener c), ch_status (hc_mqtt_client c),
      ch_status (hc_auth_service c), ch_status (hc_metrics_collector c)]"

fun overall_status_loop :: "bool \<Rightarrow> string list \<Rightarrow> string" where
  "overall_status_loop has_degraded [] = (if has_degraded then ''degraded'' else ''healthy'')"
| "overall_status_loop has_degraded (status # rest) =
     (if status = ''healthy'' then overall_status_loop has_degraded rest
      else if status = ''degraded'' then overall_status_loop True rest
      else ''unhealthy'')"

definition derive_overall_status :: "health_components \<Rightarrow> string" where
  "derive_overall_status c = overall_status_loop False (health_statuses c)"

definition mqtt_component :: "mqtt_runtime_state \<Rightarrow> component_health" where
  "mqtt_component rt =
     (if \<not> mq_enabled rt then \<lparr>ch_status = ''healthy'', ch_message = ''MQTT disabled by config''\<rparr>
      else if mq_connected rt then \<lparr>ch_status = ''healthy'', ch_message = ''MQTT connected''\<rparr>
      else \<lparr>ch_status = ''degraded'',
            ch_message = ''MQTT disconnected; gRPC discovery fallback required''\<rparr>)"

definition health_components_of :: "mqtt_runtime_state \<Rightarrow> health_components" where
  "health_components_of rt =
     \<lparr>hc_grpc_server = \<lparr>ch_status = ''healthy'', ch_message = ''gRPC server running''\<rparr>,
      hc_quic_listener = \<lparr>ch_status = ''degraded'',
        ch_message = ''QUIC listener runtime is not active in this crate''\<rparr>,
      hc_mqtt_client = mqtt_component rt,
      hc_auth_service = \<lparr>ch_status = ''healthy'', ch_message = ''auth service running''\<rparr>,
      hc_metrics_collector = \<lparr>ch_status = ''healthy'', ch_message = ''metrics collector running''\<rparr>\<rparr>"

text \<open>\<open>as i64\<close> reads the 64 bits as a signed number.\<close>

definition status_level :: "string \<Rightarrow> int" where
  "status_level status = (if status = ''healthy'' then 2 else if status = ''degraded'' then 1 else 0)"

definition set_component_metric :: "string \<Rightarrow> string \<Rightarrow> relay_metrics \<Rightarrow> relay_metrics" where
  "set_component_metric component status rm =
     rm\<lparr>rm_component_health := AList.update [component] (real_of_int (status_level status)) (rm_component_health rm)\<rparr>"

definition refresh_runtime_metrics ::
  "sys_reading \<Rightarrow> mqtt_runtime_state \<Rightarrow> health_response \<Rightarrow> relay_metrics \<Rightarrow> relay_metrics" where
  "refresh_runtime_metrics sys rt resp rm =
     (let m = hr_metrics resp; c = hr_components resp;
          rm1 = rm\<lparr>rm_active_device_connections := sint (hm_active_device_connections m),
                   rm_active_controller_connections := sint (hm_active_controller_connections m),
                   rm_active_streams := sint (hm_active_streams m),
                   rm_cpu_usage_percent := hm_cpu_usage_percent m,
                   rm_memory_usage_percent := hm_memory_usage_percent m,
                   rm_memory_used_bytes := real (unat (used_memory_mb sys * 1024 * 1024)),
                   rm_mqtt_connected := (if mq_connected rt then 1 else 0),
                   rm_mqtt_reconnect_count := sint (mq_reconnect_count rt),
                   rm_mqtt_dropped_count := sint (mq_dropped_total rt),
                   rm_mqtt_queue_pending := sint (mq_queue_pending rt),
                   rm_health_status := status_level (hr_status resp)\<rparr>
      in set_component_metric ''metrics_collector'' (ch_status (hc_metrics_collector c))
           (set_component_metric ''auth_service'' (ch_status (hc_auth_service c))
             (set_component_metric ''mqtt_client'' (ch_status (hc_mqtt_client c))
               (set_component_metric ''quic_listener'' (ch_status (hc_quic_listener c))
                 (set_component_metric ''grpc_server'' (ch_status (hc_grpc_server c)) rm1)))))"

definition build_health_response ::
  "string option \<Rightarrow> instant \<Rightarrow> sys_reading \<Rightarrow> health_state \<Rightarrow> health_response \<times> health_state" where
  "build_health_response timestamp now sys h =
     (let components = health_components_of (hs_mqtt_runtime h);
          response =
            \<lparr>hr_status = derive_overall_status components,
             hr_timestamp = (case timestamp of Some t \<Rightarrow> t | None \<Rightarrow> ''1970-01-01T00:00:00Z''),
             hr_uptime_seconds = saturating_duration_since now (hs_started_at h) div 1000000000,
             hr_version = hs_version h, hr_components = components,
             hr_metrics =
               \<lparr>hm_active_device_connections = of_nat (length (sessions_by_device_id (hs_relay_state h))),
                hm_active_controller_connections = controller_connection_count (hs_relay_state h),
                hm_active_streams = of_nat (total_active_streams (hs_stream_router h)),
                hm_cpu_usage_percent = global_cpu_usage sys,
                hm_memory_usage_percent = memory_usage_percent sys\<rparr>\<rparr>
      in (response, h\<lparr>hs_metrics := (hs_metrics h)\<lparr>m_relay :=
            refresh_runtime_metrics sys (hs_mqtt_runtime h) response (m_relay (hs_metrics h))\<rparr>\<rparr>))"

section \<open>Endpoints\<close>

text \<open>A response is its status code and its body.\<close>

definition ready_endpoint ::
  "string option \<Rightarrow> instant \<Rightarrow> sys_reading \<Rightarrow> health_state \<Rightarrow> (nat \<times> health_response) \<times> health_state" where
  "ready_endpoint timestamp now sys h =
     (let (response, h1) = build_health_response timestamp now sys h
      in ((if hr_status response = ''unhealthy'' then 503 else 200, response), h1))"

definition startup_endpoint ::
  "string option \<Rightarrow> instant \<Rightarrow> sys_reading \<Rightarrow> health_state \<Rightarrow> (nat \<times> health_response) \<times> health_state" where
  "startup_endpoint timestamp now sys h =
     (let (response, h1) = build_health_response timestamp now sys h
      in ((if hs_startup_complete h then 200 else 503, response), h1))"

definition live_endpoint :: nat where "live_endpoint = 200"

definition metrics_endpoint ::
  "(relay_metrics \<Rightarrow> string + string) \<Rightarrow> string option \<Rightarrow> instant \<Rightarrow> sys_reading \<Rightarrow> health_state
     \<Rightarrow> (nat \<times> string) \<times> health_state" where
  "metrics_endpoint encode timestamp now sys h =
     (let (_, h1) = build_health_response timestamp now sys h
      in (case encode (m_relay (hs_metrics h1)) of
            Inr encoded \<Rightarrow> (200, encoded)
          | Inl err \<Rightarrow> (500, err), h1))"

definition security_metrics_endpoint :: "health_state \<Rightarrow> security_metrics_snapshot" where
  "security_metrics_endpoint h = security_snapshot (hs_metrics h)"

text \<open>
  \<open>serve_health\<close>: nothing to do when it is disabled; otherwise the address is parsed and bound and
  the server runs until it fails (\<open>serve\<close>).
\<close>

definition serve_health ::
  "(string \<Rightarrow> string + 'addr) \<Rightarrow> ('addr \<Rightarrow> string + unit) \<Rightarrow> (string + unit) \<Rightarrow> health_config \<Rightarrow> app_error + unit" where
  "serve_health parse_addr bind serve cfg =
     (if \<not> health_enabled cfg then Inr ()
      else case parse_addr (health_address cfg) of
             Inl source \<Rightarrow> Inl (InvalidSocketAddress (health_address cfg) source)
           | Inr address \<Rightarrow>
               (case bind address of
                  Inl source \<Rightarrow> Inl (HealthBind (health_address cfg) source)
                | Inr _ \<Rightarrow> (case serve of Inl e \<Rightarrow> Inl (HealthServer e) | Inr _ \<Rightarrow> Inr ())))"

section \<open>Properties\<close>

lemma overall_status_eq:
  "overall_status_loop b ss =
     (if set ss \<subseteq> {''healthy'', ''degraded''}
      then if b \<or> ''degraded'' \<in> set ss then ''degraded'' else ''healthy'' else ''unhealthy'')"
  by (induction ss arbitrary: b) auto

lemma health_status_degraded: "derive_overall_status (health_components_of rt) = ''degraded''"
  by (simp add: derive_overall_status_def overall_status_eq health_statuses_def health_components_of_def mqtt_component_def)

text \<open>The status as a function of the components: the worst one decides.\<close>

lemma derive_overall_status_eq:
  "derive_overall_status c =
     (if set (health_statuses c) \<subseteq> {''healthy'', ''degraded''}
      then if ''degraded'' \<in> set (health_statuses c) then ''degraded'' else ''healthy'' else ''unhealthy'')"
  by (simp add: derive_overall_status_def overall_status_eq)

text \<open>What a request for the report leaves in the registry: every gauge is set, no counter is.\<close>

lemma refreshed_gauges:
  fixes resp sys rt rm
  defines "rm1 \<equiv> refresh_runtime_metrics sys rt resp rm"
  shows "rm_active_device_connections rm1 = sint (hm_active_device_connections (hr_metrics resp))"
    and "rm_active_controller_connections rm1 = sint (hm_active_controller_connections (hr_metrics resp))"
    and "rm_active_streams rm1 = sint (hm_active_streams (hr_metrics resp))"
    and "rm_cpu_usage_percent rm1 = hm_cpu_usage_percent (hr_metrics resp)"
    and "rm_memory_usage_percent rm1 = hm_memory_usage_percent (hr_metrics resp)"
    and "rm_memory_used_bytes rm1 = real (unat (used_memory_mb sys * 1024 * 1024))"
    and "rm_mqtt_connected rm1 = (if mq_connected rt then 1 else 0)"
    and "rm_mqtt_reconnect_count rm1 = sint (mq_reconnect_count rt)"
    and "rm_mqtt_dropped_count rm1 = sint (mq_dropped_total rt)"
    and "rm_mqtt_queue_pending rm1 = sint (mq_queue_pending rt)"
    and "rm_health_status rm1 = status_level (hr_status resp)"
    and "rm_requests_total rm1 = rm_requests_total rm"
    and "rm_bytes_transferred_total rm1 = rm_bytes_transferred_total rm"
  by (simp_all add: rm1_def refresh_runtime_metrics_def set_component_metric_def Let_def)

lemma refreshed_components:
  "map_of (rm_component_health (refresh_runtime_metrics sys rt resp rm)) =
     (map_of (rm_component_health rm))
       ([''grpc_server''] \<mapsto> real_of_int (status_level (ch_status (hc_grpc_server (hr_components resp)))),
        [''quic_listener''] \<mapsto> real_of_int (status_level (ch_status (hc_quic_listener (hr_components resp)))),
        [''mqtt_client''] \<mapsto> real_of_int (status_level (ch_status (hc_mqtt_client (hr_components resp)))),
        [''auth_service''] \<mapsto> real_of_int (status_level (ch_status (hc_auth_service (hr_components resp)))),
        [''metrics_collector''] \<mapsto> real_of_int (status_level (ch_status (hc_metrics_collector (hr_components resp)))))"
  by (simp add: refresh_runtime_metrics_def set_component_metric_def Let_def update_conv')

end
