(* ===== verification/Relay_Startup.thy ===== *)
theory Relay_Startup
  imports Observability System_Streams Relay_Sample
begin

text \<open>
  \<^verbatim>\<open>crates/relay/src/main.rs\<close>: what \<open>run\<close> builds from the configuration, loading the TLS files, and the
  choice of the task whose end is the end of the process.
\<close>

section \<open>TLS files and the end of the process\<close>

record server_tls =
  stls_cert :: string
  stls_key :: string
  stls_client_ca :: "string option"

definition read_pem :: "(string \<Rightarrow> string + string) \<Rightarrow> string \<Rightarrow> app_error + string" where
  "read_pem fs_read path = (case fs_read path of Inl source \<Rightarrow> Inl (Io path source) | Inr pem \<Rightarrow> Inr pem)"

definition load_tls_config :: "(string \<Rightarrow> string + string) \<Rightarrow> tls_config \<Rightarrow> app_error + server_tls" where
  "load_tls_config fs_read config =
     (case cert_path config of
        None \<Rightarrow> Inl (InvalidTlsConfig ''missing cert_path'')
      | Some cert_file \<Rightarrow>
          (case key_path config of
             None \<Rightarrow> Inl (InvalidTlsConfig ''missing key_path'')
           | Some key_file \<Rightarrow>
               (case read_pem fs_read cert_file of
                  Inl e \<Rightarrow> Inl e
                | Inr cert \<Rightarrow>
                    (case read_pem fs_read key_file of
                       Inl e \<Rightarrow> Inl e
                     | Inr key \<Rightarrow>
                         (case client_ca_path config of
                            None \<Rightarrow> Inr \<lparr>stls_cert = cert, stls_key = key, stls_client_ca = None\<rparr>
                          | Some ca_file \<Rightarrow>
                              (case read_pem fs_read ca_file of
                                 Inl e \<Rightarrow> Inl e
                               | Inr ca \<Rightarrow>
                                   Inr \<lparr>stls_cert = cert, stls_key = key, stls_client_ca = Some ca\<rparr>))))))"

text \<open>
  The \<open>select!\<close> at the end of \<open>run\<close>: the first task to finish decides how the process ends. A join
  error is the left side of the outer sum.
\<close>

datatype first_finished =
    HealthServerDone "string + (app_error + unit)"
  | GrpcServerDone "string + (app_error + unit)"
  | StaleCleanupDone "string + unit"
  | CtrlC "string + unit"

fun run_select :: "first_finished \<Rightarrow> app_error + unit" where
  "run_select (HealthServerDone (Inl e)) = Inl (HealthTask e)"
| "run_select (HealthServerDone (Inr r)) = r"
| "run_select (GrpcServerDone (Inl e)) = Inl (GrpcTask e)"
| "run_select (GrpcServerDone (Inr r)) = r"
| "run_select (StaleCleanupDone (Inl e)) = Inl (GrpcTask e)"
| "run_select (StaleCleanupDone (Inr _)) = Inr ()"
| "run_select (CtrlC (Inl e)) = Inl (ShutdownSignal e)"
| "run_select (CtrlC (Inr _)) = Inr ()"

section \<open>What is built\<close>

text \<open>
  The service and the health server share the relay state, the metrics and the MQTT state; each
  has a stream router of its own.
\<close>

record 'c started_relay =
  up_service :: "'c relay_service"
  up_health :: health_state

definition start_relay :: "'c lru_ops \<Rightarrow> string \<Rightarrow> instant \<Rightarrow> app_config \<Rightarrow> 'c started_relay" where
  "start_relay ops version now config =
     (let mx = attach_relay_metrics metrics_new;
          mon = resource_monitor_new (rate_limiting (relay config));
          st = relay_state_new;
          router = stream_router_new (stream (relay config));
          rt = mqtt_runtime_state_new (mqtt_enabled (mqtt (relay config)));
          audit_lg = audit_logger_new (audit (observability config)) (relay_id (relay config));
          publisher = (if mqtt_enabled (mqtt (relay config)) then Some \<lparr>mp_queue = [], mp_runtime = rt\<rparr> else None)
      in \<lparr>up_service = relay_grpc_service_new ops st config mx mon publisher audit_lg,
          up_health = \<lparr>hs_started_at = now, hs_version = version, hs_metrics = mx, hs_mqtt_runtime = rt,
             hs_relay_state = st, hs_stream_router = router, hs_startup_complete = True\<rparr>\<rparr>)"

text \<open>The health server's view once the service has moved on: the shared parts follow it.\<close>

definition health_view :: "'c relay_service \<Rightarrow> health_state \<Rightarrow> health_state" where
  "health_view svc h =
     h\<lparr>hs_relay_state := svc_state svc, hs_metrics := svc_metrics svc,
       hs_mqtt_runtime := (case svc_mqtt_publisher svc of Some p \<Rightarrow> mp_runtime p | None \<Rightarrow> hs_mqtt_runtime h)\<rparr>"


text \<open>
  The health endpoint reports no streams, however many the relay has: it looks at a router nobody
  uses.
\<close>

lemma health_blind_to_streams:
  "hm_active_streams (hr_metrics (fst (build_health_response ts t sys
     (health_view svc (up_health (start_relay ops version now config)))))) = 0"
  by (simp add: build_health_response_def health_view_def start_relay_def total_active_streams_def
      stream_router_new_def Let_def)

lemma health_blind_example:
  "total_active_streams (svc_stream_router (sys_svc sample_waiting)) \<noteq> 0
   \<and> hm_active_streams (hr_metrics (fst (build_health_response ts t sys
       (health_view (sys_svc sample_waiting) (up_health (start_relay alist_lru version now sample_config)))))) = 0"
proof -
  have "sr_mappings (svc_stream_router (sys_svc sample_waiting)) \<noteq> []"
    using sample_waiting_mapping by auto
  then show ?thesis by (simp add: health_blind_to_streams total_active_streams_def)
qed










text \<open>
  Disabling the health endpoint ends the relay: \<open>serve_health\<close> returns at once, which is the first
  task to finish, and the process exits without an error.
\<close>

lemma health_disabled_ends_relay:
  "\<not> health_enabled cfg \<Longrightarrow>
     run_select (HealthServerDone (Inr (serve_health parse_addr bind serve cfg))) = Inr ()"
  by (simp add: serve_health_def)

end
