(* ===== verification/Spec2Isabelle.thy ===== *)
theory Spec2Isabelle
  imports End_To_End Session_Recovery Relay_Specs Alerting Relay_Startup
begin

text \<open>
  \<^bold>\<open>gRPC-Relay.\<close> A relay between controllers and devices that cannot reach each other. A device dials
  the relay and keeps one bidirectional stream open (\<open>DeviceConnect\<close>): it registers, sends
  heartbeats, gets data requests and answers them. A controller opens a stream of its own
  (\<open>ConnectToDevice\<close>) and sends requests, each for a device and with a sequence number; the relay
  checks them, forwards them to the stream of the device, and gives the controller the answer, or
  DEVICE_OFFLINE after sixty seconds. Payloads are opaque to the relay. Two unary calls list the
  devices online and revoke tokens. Two client libraries speak the protocol for devices and
  controllers.

  \<^bold>\<open>How the parts interact.\<close> All tasks of the relay share one service (\<open>RelayGrpcService\<close>): session
  tables and requests in flight (\<^verbatim>\<open>state.rs\<close>, \<^verbatim>\<open>session.rs\<close>), the table of controller streams
  (\<^verbatim>\<open>stream.rs\<close>), the response cache (\<^verbatim>\<open>idempotency.rs\<close>), authentication and policy (\<^verbatim>\<open>auth.rs\<close>,
  \<^verbatim>\<open>rbac.rs\<close>), limiters (\<^verbatim>\<open>rate_limiter.rs\<close>), metrics, the audit log and the MQTT publisher. A
  controller stream that has sent a request registers a oneshot with the request in flight and
  waits; the device stream that gets the data, the detached timeout task, or the end of the
  device stream takes the request out of the table and answers every oneshot registered with it.

  \<^bold>\<open>Theories and sources\<close> (paths below \<^verbatim>\<open>src/crates\<close>; a definition has the name of the function it
  translates, with the name of the struct or file added where several functions share one):

  \<^item> \<open>Relay_Prelude\<close>: machine integers, time, hash maps as association lists, Rust string functions,
    and the interfaces shared by the components (below).
  \<^item> \<open>Relay_Proto\<close>: the messages of \<^verbatim>\<open>relay-proto/proto/relay/v1/relay.proto\<close>, the enums as \<open>i32\<close>, and the
    constructors of responses in \<^verbatim>\<open>relay/src/state.rs\<close>.
  \<^item> \<open>Relay_Config\<close>, \<open>Validator\<close>, \<open>Auth_Service\<close>, \<open>Rate_Limiter\<close>, \<open>Stream_Router\<close>, \<open>Relay_State\<close>,
    \<open>Idempotency\<close>, \<open>Relay_Metrics\<close>, \<open>Audit_Log\<close>, \<open>Mqtt_Runtime\<close>, \<open>Alerting\<close>, \<open>Observability\<close>,
    \<open>Relay_Startup\<close>: the modules of \<^verbatim>\<open>relay/src\<close> with the corresponding names (\<^verbatim>\<open>rbac.rs\<close> is in
    \<open>Auth_Service\<close>, \<^verbatim>\<open>session.rs\<close> in \<open>Relay_State\<close>, \<^verbatim>\<open>security_metrics.rs\<close>, \<^verbatim>\<open>relay_metrics.rs\<close> and
    \<^verbatim>\<open>resource_monitor.rs\<close> in \<open>Relay_Metrics\<close>, \<^verbatim>\<open>error.rs\<close> in \<open>Relay_Config\<close>, \<^verbatim>\<open>main.rs\<close> in \<open>Relay_Startup\<close>).
  \<^item> \<open>Relay_Core\<close>, \<open>Device_Stream\<close>, \<open>Controller_Stream\<close>, \<open>Relay_Service\<close>: \<^verbatim>\<open>relay/src/grpc_service.rs\<close>, in this
    order the shared state with the effects of the handlers on it, \<open>run_device_connect_stream\<close>,
    \<open>run_connect_to_device_stream\<close>, and the calls of the service with the idle clean-up.
  \<^item> \<open>Device_Sdk\<close> and \<open>Controller_Sdk\<close>: \<^verbatim>\<open>device-sdk/src\<close> and \<^verbatim>\<open>controller-sdk/src\<close>.
  \<^item> \<open>Relay_System\<close>: the relay as an inductive relation over events of its tasks; \<open>System_State\<close>,
    \<open>System_Answers\<close>, \<open>System_Streams\<close>: its invariants; \<open>Stream_Contracts\<close>: what single turns and calls
    promise; \<open>Relay_Specs\<close>: abstract specifications and refinement; \<open>End_To_End\<close>: relay and client
    libraries together; \<open>Session_Recovery\<close>: devices that reconnect; \<open>Relay_Sample\<close>: a concrete relay,
    with the runs the witnesses are about.

  \<^bold>\<open>State and steps.\<close> Structs are records, enums datatypes, a \<open>DashMap\<close> or \<open>HashMap\<close> an association list
  with distinct keys (the order of iteration is that of the list). Errors are the left side of a
  sum; every \<open>return\<close>, \<open>continue\<close> and \<open>break\<close> of a handler is a branch. The local variables of a task
  are a record. A task is atomic between two points where it waits for another task: a turn of a
  controller stream runs from a message to its end or to \<open>rx.await\<close>, and the rest of the turn is
  the step \<open>controller_resume\<close>. Messages go to an ordered output log; a oneshot is a number, and the
  state remembers what was sent on it; a detached timeout task is an entry of a list of timers.
  What comes from outside is an argument, for the handlers the record \<open>step_env\<close>: clocks,
  \<open>sysinfo\<close> readings, which channels are closed, the JWT decoder, the cache crate. The crate
  \<open>lru_time_cache\<close> is the record \<open>lru_ops\<close> with its documentation as the predicate
  \<open>lru_documented\<close>; an association list is shown to satisfy it. Counters keep their 64 or 32 bits with wrapping
  or saturation as in the source. The \<open>f64\<close> operations of the device library's back-off are real operations rounded to 53
  bits (\<open>f64_rnd\<close>); the tokens of the request limiter, the readings and the gauges are exact reals.

  \<^bold>\<open>Interfaces.\<close> \<open>invariant_machine\<close> (an operation on a state with an invariant, under a side
  condition on the calls) is interpreted for the limiter, the stream router, the audit queue, the MQTT worker over all
  its sessions and the controller's session with what its calls return; \<open>data_refinement\<close> (concrete and abstract operations that return the
  same and commute with the abstraction) for the requests in flight and the stream router;
  \<open>id_generator\<close> for connection and stream ids; \<open>gauge_counter\<close> for the controller and the MQTT
  gauge; \<open>sliding_window\<close> for the two connection limits.

  \<^bold>\<open>What is shown.\<close> For every reachable state of the relay, over all interleavings of its tasks: responses
  to controllers are genuine, no waiting controller is forgotten, each wait ends after at most
  sixty seconds and two events, the tables are consistent, each stream of the table has one owner
  (this theory). For single turns: exactly which requests reach a device and which error the
  others get, what a device stream may change, what its end does, who may list and revoke
  (\<open>Stream_Contracts\<close>). That the tables implement their specifications (\<open>Relay_Specs\<close>). That a request
  and its answer pass unchanged through the three programs (\<open>End_To_End\<close>). For the components:
  admission bounds of the limiters and the exact answers of the bandwidth windows, the router's
  indexes, caps and idle clean-up, who is let through to a device after any revocations, the
  validator, the configuration, rotation and retention of the audit log, the MQTT gauge over all
  sessions of the worker and the address parser, when alerts are sent, the health report of a
  running relay, the device client's back-off, what the clients answer and return, and when the
  device client stops. Several theorems state behaviour
  that a user would not expect: nobody is checked on a stream once it is open, so revocation does
  not end it; sessions are not recovered after a disconnection; new requests for devices that are offline are not answered, a
  request refused for bandwidth stays in flight and a retry joins it, the end of a replaced device stream ends the
  requests of the new one, a controller limit below one per second admits a request in five
  minutes, held-back MQTT events are lost with a session, two calls with one sequence number lose
  both answers.

  \<^bold>\<open>Bounds.\<close> No model has fuel: every function terminates, and loops that wait for events consume a
  list of events. Theorems about reachable states assume fewer than \<open>2 ^ 64 - 1\<close> events, so that
  the 64-bit counters behind connection and stream ids and the gauge of controller connections do
  not wrap; the health report assumes fewer than \<open>2 ^ 63 - 1\<close>, because its gauges are signed, and the
  MQTT gauge fewer than \<open>2 ^ 64\<close> steps of its worker. The bandwidth windows assume less than \<open>2 ^ 64\<close> bytes
  in a window; the upper bounds of the back-off a maximum of at most \<open>2 ^ 53\<close> seconds, above which the code
  exceeds its maximum (\<open>backoff_above_max\<close>). Theorems that mention cached responses assume \<open>lru_documented\<close>.

  \<^bold>\<open>Not modelled.\<close> Transport (gRPC, HTTP, TLS), wire and JSON encodings, the Prometheus registry and its text format, and the
  capacities of the \<open>mpsc\<close> channels of the streams (a send finds the channel open or closed and
  never waits): library code. \<^verbatim>\<open>logging.rs\<close> and the log lines: set-up of the tracing library. The
  command line of \<^verbatim>\<open>main.rs\<close>. \<^verbatim>\<open>api.rs\<close> and \<^verbatim>\<open>transport.rs\<close> have no code; \<^verbatim>\<open>test_helpers.rs\<close>, the test
  modules and the examples are not part of the program. Interleavings inside a turn that runs
  without waiting for another task are not split further; in particular the lookups and updates that a turn makes on different
  maps count as one step, and so do \<open>try_send\<close> and the count of it in the MQTT publisher. All readings of a clock within
  a turn give the same time: the clean-up and the three buckets of \<open>allow\<close>, the three keys of
  \<open>record_and_check\<close>. The \<open>debug_assert\<close> of \<open>create_mapping\<close> is left out, as in a release build.
\<close>

section \<open>What the relay tells a controller\<close>

text \<open>
  C1. A controller is never told anything a device did not say: every response the relay sends on
  a controller's channel is either one of the relay's own error responses, or carries the
  sequence number, payload and error code that the target device itself sent on a stream
  registered for it, and then it answers a request that came in on this very channel, was
  admitted, and named this device and this sequence number.
\<close>
theorem relay_responses_genuine:
  assumes "relay_reach ops svc0 n s" "fresh_service ops svc0" "n < 2 ^ 64 - 1" "lru_documented ops holds"
    and "ToController ch r \<in> set (svc_out (sys_svc s))"
  shows "(\<exists>d sq e. r = error_resp d sq e)
    \<or> (\<exists>d sq p e. (d, sq, p, e) \<in> set (sys_answers s) \<and> (ch, d, sq) \<in> set (sys_served s)
          \<and> r = device_response_from_device_data d sq p e)"
  using reach_answers_ok [OF assms(1-4)] assms(5) by (force simp: answers_ok_def response_ok_def)

theorem relay_responses_genuine_witness:
  "(\<exists>d sq e. device_response_from_device_data ''d1'' 7 [42] 0 = error_resp d sq e)
    \<or> (\<exists>d sq p e. (d, sq, p, e) \<in> set (sys_answers sample_answered)
          \<and> (1, d, sq) \<in> set (sys_served sample_answered)
          \<and> device_response_from_device_data ''d1'' 7 [42] 0 = device_response_from_device_data d sq p e)"
  by (rule relay_responses_genuine [OF sample_answered_reach sample_fresh _ alist_lru_documented])
    (simp_all add: sample_answered_facts)

text \<open>
  C2. No answer is lost. A controller stream that waits is never abandoned: its oneshot is with
  the request in flight or has been used, so the branch for a closed completion channel is
  never taken, and whenever the stream goes on it does so with the answer of the device to its own
  request, or with DEVICE_OFFLINE for it.
\<close>
theorem no_answer_lost:
  assumes "relay_reach ops svc0 n s" "fresh_service ops svc0" "n < 2 ^ 64 - 1"
    and "map_of (sys_controllers s) ch = Some cs" "cst_waiting cs = Some p"
  shows "\<not> oneshot_dropped (pr_rx p) (svc_state (sys_svc s))
    \<and> (\<forall>x. controller_resume env cs (sys_svc s) = Some x \<longrightarrow>
         (\<exists>r. genuine (sys_answers s) (request_key p) r \<and> x = controller_response_ok env p r cs (sys_svc s)))"
proof -
  have wf: "waiters_wf (svc_state (sys_svc s))"
    using reach_state_ok [OF assms(1-3)] by (simp add: state_ok_def state_wf_def)
  have o: "owed (sys_answers s) (svc_state (sys_svc s)) (pr_rx p) (request_key p)"
    using reach_waiters_ok [OF assms(1-3)] assms(4,5) by (auto simp: waiters_ok_def)
  show ?thesis
    using owed_not_dropped [OF wf o] resume_answer [OF wf assms(5) o] by (metis surj_pair)
qed

theorem no_answer_lost_witness:
  "\<not> oneshot_dropped (pr_rx sample_pending) (svc_state (sys_svc sample_replied))
    \<and> (\<exists>r. genuine (sys_answers sample_replied) (request_key sample_pending) r
        \<and> controller_resume (sample_env 6) sample_waiting_stream (sys_svc sample_replied) =
            Some (controller_response_ok (sample_env 6) sample_pending r sample_waiting_stream (sys_svc sample_replied)))"
proof -
  have "map_of (sys_controllers sample_replied) 1 = Some sample_waiting_stream"
    by (simp add: sample_replied_facts sample_waiting_facts del: One_nat_def)
  from no_answer_lost [OF sample_replied_reach sample_fresh _ this sample_waiting_facts(2), of "sample_env 6"]
  show ?thesis using sample_resumes by auto
qed

text \<open>
  C3. Every wait ends. From any state in which a controller stream waits for an answer, once the
  in-flight timeout of sixty seconds has passed, at most two events that no other party has to
  bring about, the timeout of its request and the resumption of its task, make the stream go
  on, and it is sent one response of its own request.
\<close>
theorem waiting_bounded:
  assumes "relay_reach ops svc0 n s" "fresh_service ops svc0" "n < 2 ^ 64 - 1"
    and "map_of (sys_controllers s) ch = Some cs" "cst_waiting cs = Some p"
    and "sys_now s + from_secs 60 \<le> env_now env"
  shows "\<exists>evs s1 r. length evs \<le> 2 \<and> set evs \<subseteq> {ControllerResumes ch} \<union> range TimeoutFires
    \<and> sys_run (map (Pair env) evs) s = Some s1
    \<and> map_of (sys_controllers s1) ch = Some (cs\<lparr>cst_waiting := None\<rparr>)
    \<and> svc_out (sys_svc s1) = svc_out (sys_svc s) @ (if env_closed env ch then [] else [ToController ch r])
    \<and> genuine (sys_answers s) (request_key p) r"
proof -
  have ok: "waiters_ok s" "channels_ok s" "timers_ok s"
    using reach_waiters_ok [OF assms(1-3)] reach_timers_ok [OF assms(1-3)] by simp_all
  have now: "sys_now s \<le> env_now env" using assms(6) by linarith
  have "owed (sys_answers s) (svc_state (sys_svc s)) (pr_rx p) (request_key p)"
    using ok(1) assms(4,5) by (auto simp: waiters_ok_def)
  then consider (answered) r where "map_of (oneshot_sent (svc_state (sys_svc s))) (pr_rx p) = Some r"
      "genuine (sys_answers s) (request_key p) r"
    | (pending) "waiting (svc_state (sys_svc s)) (pr_rx p) (request_key p)"
    by (auto simp: owed_def)
  then show ?thesis
  proof cases
    case (answered r)
    obtain s1 where "sys_step env (ControllerResumes ch) s = Some s1"
      "map_of (sys_controllers s1) ch = Some (cs\<lparr>cst_waiting := None\<rparr>)"
      "svc_out (sys_svc s1) = svc_out (sys_svc s) @ (if env_closed env ch then [] else [ToController ch r])"
      by (rule resume_sent [OF assms(4,5) ok(2) answered(1) now])
    with answered(2) show ?thesis
      by (intro exI [of _ "[ControllerResumes ch]"] exI [of _ s1] exI [of _ r]) simp
  next
    case pending
    obtain t where t: "t \<in> set (svc_timers (sys_svc s))" "(tm_device_id t, tm_seq t) = request_key p"
      and "tm_due t \<le> sys_now s + from_secs 60"
      by (rule waiting_timed [OF ok(3) pending])
    let ?r = "error_resp (fst (request_key p)) (snd (request_key p)) DEVICE_OFFLINE"
    from \<open>tm_due t \<le> sys_now s + from_secs 60\<close> assms(6) have due: "tm_due t \<le> env_now env" by linarith
    obtain s2 where s2: "sys_step env (TimeoutFires t) s = Some s2"
      "map_of (oneshot_sent (svc_state (sys_svc s2))) (pr_rx p) = Some ?r"
      "sys_controllers s2 = sys_controllers s" "svc_out (sys_svc s2) = svc_out (sys_svc s)"
      "sys_now s2 = env_now env" "sys_next_chan s2 = sys_next_chan s"
      by (rule timeout_answers [OF pending t due now])
    have s2': "channels_ok s2" "map_of (sys_controllers s2) ch = Some cs" "sys_now s2 \<le> env_now env"
      using ok(2) s2(3,5,6) assms(4) by (simp_all add: channels_ok_def)
    obtain s1 where "sys_step env (ControllerResumes ch) s2 = Some s1"
      "map_of (sys_controllers s1) ch = Some (cs\<lparr>cst_waiting := None\<rparr>)"
      "svc_out (sys_svc s1) = svc_out (sys_svc s2) @ (if env_closed env ch then [] else [ToController ch ?r])"
      by (rule resume_sent [OF s2'(2) assms(5) s2'(1) s2(2) s2'(3)])
    with s2 show ?thesis
      by (intro exI [of _ "[TimeoutFires t, ControllerResumes ch]"] exI [of _ s1] exI [of _ ?r])
        (simp add: genuine_def)
  qed
qed

theorem waiting_bounded_witness:
  "\<exists>evs s1 r. length evs \<le> 2 \<and> set evs \<subseteq> {ControllerResumes 1} \<union> range TimeoutFires
    \<and> sys_run (map (Pair (sample_env (4 + from_secs 60))) evs) sample_waiting = Some s1
    \<and> map_of (sys_controllers s1) 1 = Some (sample_waiting_stream\<lparr>cst_waiting := None\<rparr>)
    \<and> svc_out (sys_svc s1) = svc_out (sys_svc sample_waiting) @
         (if env_closed (sample_env (4 + from_secs 60)) 1 then [] else [ToController 1 r])
    \<and> genuine (sys_answers sample_waiting) (request_key sample_pending) r"
  by (rule waiting_bounded [OF sample_waiting_reach sample_fresh _ sample_waiting_facts(1,2)])
    (simp_all add: sample_waiting_facts)

text \<open>
  C4. The tables of the relay agree with one another in every reachable state: a device has at
  most one session, its connection id leads back to it, and no two sessions share one; the
  waiters of the requests in flight are distinct and each oneshot is either waiting or answered;
  the stream table and its two indexes list the same streams within the caps; and the
  controller gauge counts exactly the open controller streams that have authenticated.
\<close>
theorem relay_tables_consistent:
  assumes "relay_reach ops svc0 n s" "fresh_service ops svc0" "n < 2 ^ 64 - 1"
  shows "sessions_wf (svc_state (sys_svc s)) \<and> waiters_wf (svc_state (sys_svc s))
    \<and> router_inv (svc_stream_router (sys_svc s))
    \<and> unat (controller_connection_count (svc_state (sys_svc s)))
        = dm_count cst_controller_connected (sys_controllers s)"
  using reach_state_ok [OF assms] reach_streams_ok [OF assms] reach_gauge_ok [OF assms]
  by (simp add: state_ok_def state_wf_def streams_ok_def gauge_ok_def)

theorem relay_tables_consistent_witness:
  "sessions_wf (svc_state (sys_svc sample_answered)) \<and> waiters_wf (svc_state (sys_svc sample_answered))
    \<and> router_inv (svc_stream_router (sys_svc sample_answered))
    \<and> unat (controller_connection_count (svc_state (sys_svc sample_answered)))
        = dm_count cst_controller_connected (sys_controllers sample_answered)"
  by (rule relay_tables_consistent [OF sample_answered_reach sample_fresh]) simp

text \<open>
  C7. Every stream of the table belongs to exactly one open controller stream: the mapping points
  at that stream's channel, names the device, controller and method the stream is bound to, and
  counts one request while the stream waits and none otherwise. In particular an entry never
  outlives its controller stream, and no request leaves the count of active requests wrong.
\<close>
theorem streams_owned:
  assumes "relay_reach ops svc0 n s" "fresh_service ops svc0" "n < 2 ^ 64 - 1"
    and "map_of (sr_mappings (svc_stream_router (sys_svc s))) sid = Some m"
  shows "\<exists>!ch. \<exists>cs. map_of (sys_controllers s) ch = Some cs \<and> cst_stream_id cs = Some sid
    \<and> sm_controller_tx m = ch
    \<and> cst_stream_binding cs = Some (sm_device_id m, sm_controller_id m, sm_method_name m)
    \<and> sm_active_requests m = (if cst_waiting cs = None then 0 else 1)"
proof -
  have "owned (map_of (sys_controllers s)) (svc_stream_router (sys_svc s))"
    using reach_streams_ok [OF assms(1-3)] by (simp add: streams_ok_def)
  then obtain ch cs where "map_of (sys_controllers s) ch = Some cs" "cst_stream_id cs = Some sid" "mapping_of ch cs m"
    using assms(4) unfolding owned_def by metis
  then show ?thesis by (auto simp: mapping_of_def)
qed

theorem streams_owned_witness:
  "\<exists>!ch. \<exists>cs. map_of (sys_controllers sample_waiting) ch = Some cs \<and> cst_stream_id cs = Some (stream_id_of 1)
    \<and> sm_controller_tx sample_mapping = ch
    \<and> cst_stream_binding cs =
        Some (sm_device_id sample_mapping, sm_controller_id sample_mapping, sm_method_name sample_mapping)
    \<and> sm_active_requests sample_mapping = (if cst_waiting cs = None then 0 else 1)"
  by (rule streams_owned [OF sample_waiting_reach sample_fresh _ sample_waiting_mapping]) simp

end
